theory Spec2Isabelle
  imports Complex_Main "HOL-Library.Word" "HOL-Library.Multiset"
begin

unbundle bit_operations_syntax

section \<open>Difficulty banding (client script: getDifficultyLevel, getTrainstationLevel)\<close>

text \<open>
  The script computes \<^verbatim>\<open>position = index / total\<close> on JavaScript numbers (IEEE doubles) and
  compares it with the literals \<^verbatim>\<open>0.33\<close> and \<^verbatim>\<open>0.66\<close>. The model keeps the rounding
  visible: \<open>rnd\<close> is the rounding of an exact rational to the number the machine holds,
  used for the quotient and for both literals. Division by a zero total gives
  \<^verbatim>\<open>NaN\<close> or \<^verbatim>\<open>Infinity\<close> in the script, both comparisons are then false and the
  result is \<^verbatim>\<open>'advanced'\<close>; HOL's \<open>x / 0 = 0\<close> would say otherwise, so the case is
  written out.
\<close>

definition getDifficultyLevel :: "(rat \<Rightarrow> rat) \<Rightarrow> nat \<Rightarrow> nat \<Rightarrow> string" where
  "getDifficultyLevel rnd index tot =
     (if tot = 0 then ''advanced''
      else let position = rnd (of_nat index / of_nat tot)
           in if position < rnd (33 / 100) then ''beginner''
              else if position < rnd (66 / 100) then ''intermediate''
              else ''advanced'')"

definition getTrainstationLevel :: "(rat \<Rightarrow> rat) \<Rightarrow> nat \<Rightarrow> nat \<Rightarrow> string" where
  "getTrainstationLevel rnd index tot =
     (if tot = 0 then ''advanced''
      else let position = rnd (of_nat index / of_nat tot)
           in if position < rnd (33 / 100) then ''beginner''
              else if position < rnd (66 / 100) then ''intermediate''
              else ''advanced'')"

text \<open>
  What is asked of the rounding: on the unit interval it moves a value by at most
  \<open>2\<^sup>-\<^sup>5\<^sup>3\<close>. Round-to-nearest on doubles does (the spacing of doubles below 1 is at most
  \<open>2\<^sup>-\<^sup>5\<^sup>3\<close>), and so does exact arithmetic.
\<close>

definition accurate :: "(rat \<Rightarrow> rat) \<Rightarrow> bool" where
  "accurate rnd \<longleftrightarrow> (\<forall>x. 0 \<le> x \<and> x \<le> 1 \<longrightarrow> \<bar>rnd x - x\<bar> \<le> 1 / 2 ^ 53)"

section \<open>StructureParser (both servers: the \<^verbatim>\<open>try\<close> block after the completion call)\<close>

text \<open>
  \<^verbatim>\<open>responseText.match(/\{[\s\S]*\}/)\<close> is modelled as the backtracking search the
  regular expression engine performs. A match attempt at a position needs \<^verbatim>\<open>{\<close> there;
  the greedy star then takes every remaining character and gives them back one at a time
  until the next character is \<^verbatim>\<open>}\<close>. \<open>star_close cs k\<close> is the attempt in which the
  star holds \<open>k\<close> characters of \<open>cs\<close>; attempts are made from the leftmost position on.
  The class \<^verbatim>\<open>[\s\S]\<close> accepts every character, so the character set plays no part.
\<close>

fun star_close :: "string \<Rightarrow> nat \<Rightarrow> string option" where
  "star_close cs 0 =
     (if 0 < length cs \<and> cs ! 0 = CHR ''}'' then Some (take (Suc 0) cs) else None)"
| "star_close cs (Suc k) =
     (if Suc k < length cs \<and> cs ! Suc k = CHR ''}'' then Some (take (Suc (Suc k)) cs)
      else star_close cs k)"

fun match_at :: "string \<Rightarrow> string option" where
  "match_at [] = None"
| "match_at (c # cs) =
     (if c = CHR ''{'' then map_option ((#) c) (star_close cs (length cs)) else None)"

fun regex_exec :: "string \<Rightarrow> string option" where
  "regex_exec [] = None"
| "regex_exec (c # cs) =
     (case match_at (c # cs) of Some m \<Rightarrow> Some m | None \<Rightarrow> regex_exec cs)"

text \<open>
  The \<^verbatim>\<open>try\<close> block: a match is handed to \<^verbatim>\<open>JSON.parse\<close>, no match throws. Both throws
  end in the same \<^verbatim>\<open>catch\<close>. \<^verbatim>\<open>JSON.parse\<close> belongs to the language, not to this
  program, and is a parameter: \<open>None\<close> is its \<^verbatim>\<open>SyntaxError\<close>.
\<close>

datatype parse_failure = No_JSON_found | JSON_syntax_error

definition extract_structure :: "(string \<Rightarrow> 'j option) \<Rightarrow> string \<Rightarrow> parse_failure + 'j" where
  "extract_structure json_parse responseText =
     (case regex_exec responseText of
        Some jsonMatch \<Rightarrow>
          (case json_parse jsonMatch of
             Some courseStructure \<Rightarrow> Inr courseStructure
           | None \<Rightarrow> Inl JSON_syntax_error)
      | None \<Rightarrow> Inl No_JSON_found)"

text \<open>
  What a handler sends: a JSON body with status 200, or a status with an error body. The
  error body has the \<^verbatim>\<open>error\<close> message and, where the handler puts one, the \<^verbatim>\<open>raw\<close>
  completion text.
\<close>

record error_body =
  error_message :: string
  raw :: "string option"

datatype 'a reply = Sent 'a | Failed nat error_body




section \<open>Course data as JSON values\<close>

text \<open>
  Data that comes from outside (the completion, the answers of the search service, an
  imported file, the body of a save request) is a JSON value of any shape. An object is
  the list of its members in the order they were set; reading a property gives the member
  set last, or nothing (\<^verbatim>\<open>undefined\<close>) when the value is not an object or has no such
  member. A number is the value it holds.
\<close>

datatype json =
  JNull
| JBool bool
| JNumber rat
| JString string
| JArray "json list"
| JObject "(string \<times> json) list"

fun truthy :: "json \<Rightarrow> bool" where
  "truthy JNull = False"
| "truthy (JBool b) = b"
| "truthy (JNumber r) = (r \<noteq> 0)"
| "truthy (JString s) = (s \<noteq> [])"
| "truthy (JArray xs) = True"
| "truthy (JObject kvs) = True"

fun property :: "json \<Rightarrow> string \<Rightarrow> json option" where
  "property (JObject kvs) k = map_of (rev kvs) k"
| "property v k = None"

definition truthy_prop :: "json option \<Rightarrow> bool" where
  "truthy_prop p = (case p of Some v \<Rightarrow> truthy v | None \<Rightarrow> False)"

fun isArray :: "json option \<Rightarrow> bool" where
  "isArray (Some (JArray xs)) = True"
| "isArray p = False"

fun set_prop :: "json \<Rightarrow> string \<Rightarrow> json \<Rightarrow> json" where
  "set_prop (JObject kvs) k v =
     JObject (if k \<in> fst ` set kvs then map (\<lambda>(k', v'). if k' = k then (k', v) else (k', v')) kvs
              else kvs @ [(k, v)])"
| "set_prop w k v = w"

text \<open>
  Two more reads of a value that is not \<^verbatim>\<open>null\<close>: \<^verbatim>\<open>v.length\<close> and \<^verbatim>\<open>v[0]\<close>. An array
  and a string have a length and a first element of their own (a character of a string
  is a string); an object has them when it has members of these names; other values have
  neither. The names read with \<open>property\<close> (\<^verbatim>\<open>topic\<close>, \<^verbatim>\<open>skills\<close>, \<^verbatim>\<open>error\<close>,
  \<^verbatim>\<open>items\<close> and so on) are names that only an object can have.
\<close>

fun js_length :: "json \<Rightarrow> json option" where
  "js_length (JArray xs) = Some (JNumber (of_nat (length xs)))"
| "js_length (JString s) = Some (JNumber (of_nat (length s)))"
| "js_length (JObject kvs) = property (JObject kvs) ''length''"
| "js_length v = None"

fun element0 :: "json \<Rightarrow> json option" where
  "element0 (JArray xs) = (case xs of [] \<Rightarrow> None | x # others \<Rightarrow> Some x)"
| "element0 (JString s) = (case s of [] \<Rightarrow> None | c # others \<Rightarrow> Some (JString [c]))"
| "element0 (JObject kvs) = property (JObject kvs) ''0''"
| "element0 v = None"

text \<open>
  Reading a property where the base may be \<^verbatim>\<open>undefined\<close> or \<^verbatim>\<open>null\<close>: the read throws a
  \<^verbatim>\<open>TypeError\<close> then. \<open>get\<close> is one read \<^verbatim>\<open>base.k\<close>, \<open>then_get\<close> continues a chain
  \<^verbatim>\<open>a.b.k\<close> in which the first throw ends the chain. With \<^verbatim>\<open>?.\<close> in place of \<^verbatim>\<open>.\<close> the read
  gives \<^verbatim>\<open>undefined\<close> instead of throwing. The exceptions are the ones the handlers can
  meet: a rejected promise with its message, the two \<^verbatim>\<open>TypeError\<close>s of reading a property
  of nothing and of calling what is not a function (each with the name of the property),
  and the \<^verbatim>\<open>TypeError\<close> of a value that cannot be converted to a number.
\<close>

datatype exception =
  Rejected string
| Cannot_read string
| Not_a_function string
| Cannot_convert

fun get :: "json option \<Rightarrow> string \<Rightarrow> exception + json option" where
  "get None k = Inl (Cannot_read k)"
| "get (Some JNull) k = Inl (Cannot_read k)"
| "get (Some v) k = Inr (property v k)"

definition then_get :: "exception + json option \<Rightarrow> string \<Rightarrow> exception + json option" where
  "then_get r k = (case r of Inl exn \<Rightarrow> Inl exn | Inr base \<Rightarrow> get base k)"

fun opt_property :: "json option \<Rightarrow> string \<Rightarrow> json option" where
  "opt_property None k = None"
| "opt_property (Some JNull) k = None"
| "opt_property (Some v) k = property v k"

fun opt_element0 :: "json option \<Rightarrow> json option" where
  "opt_element0 None = None"
| "opt_element0 (Some JNull) = None"
| "opt_element0 (Some v) = element0 v"

text \<open>
  An object literal whose members may be \<^verbatim>\<open>undefined\<close>, as it is sent in a response: the
  members that are \<^verbatim>\<open>undefined\<close> are left out.
\<close>

definition object :: "(string \<times> json option) list \<Rightarrow> json" where
  "object members =
     JObject (concat (map (\<lambda>(k, v). case v of Some w \<Rightarrow> [(k, w)] | None \<Rightarrow> []) members))"

text \<open>
  Two conversions belong to the language and not to this program, and are parameters:
  the text a value that is not a string gives in a template literal, and the outcome of
  \<^verbatim>\<open>v > 0\<close> for a string, an array or an object \<open>v\<close> (which goes through the conversion
  of \<open>v\<close> to a number; \<open>None\<close> when that conversion throws). For the other values
  \<^verbatim>\<open>v > 0\<close> is written out: \<^verbatim>\<open>undefined\<close> converts to \<^verbatim>\<open>NaN\<close>, \<^verbatim>\<open>null\<close> to 0, \<^verbatim>\<open>true\<close> to 1.
\<close>

record conversions =
  to_text :: "json \<Rightarrow> string"
  exceeds_zero :: "json \<Rightarrow> bool option"

definition text_of :: "conversions \<Rightarrow> json \<Rightarrow> string" where
  "text_of js v = (case v of JString s \<Rightarrow> s | _ \<Rightarrow> to_text js v)"

fun above_zero :: "conversions \<Rightarrow> json option \<Rightarrow> exception + bool" where
  "above_zero js None = Inr False"
| "above_zero js (Some JNull) = Inr False"
| "above_zero js (Some (JBool b)) = Inr b"
| "above_zero js (Some (JNumber r)) = Inr (0 < r)"
| "above_zero js (Some v) =
     (case exceeds_zero js v of Some b \<Rightarrow> Inr b | None \<Rightarrow> Inl Cannot_convert)"
section \<open>Search enrichment (the term loop of \<^verbatim>\<open>POST /api/generate-full-course\<close>)\<close>

text \<open>
  What one search gives back. \<open>Threw\<close> is a throw of the statements that lead to the
  payload: building the address of the request, the \<^verbatim>\<open>fetch\<close>, reading the body as JSON;
  it carries the message of the error. Otherwise there is a payload \<^verbatim>\<open>data\<close>, a JSON value
  of any shape.
\<close>

datatype fetch_result = Threw string | Data json

text \<open>
  The entries of \<^verbatim>\<open>youtubeErrors\<close>. The error branch pushes
  \<^verbatim>\<open>{term, code: data.error.code, message: data.error.message, reason}\<close>, the \<^verbatim>\<open>catch\<close>
  pushes \<^verbatim>\<open>{term, code: 'FETCH_ERROR', message: err.message}\<close>; the message of an exception
  is kept as the exception.
\<close>

datatype error_info =
  Api_error json "json option" "json option" json
| Fetch_error json exception

text \<open>
  The accumulators the handler declares before the loop, and the requests of the searches
  begun so far (the search query, tagged with the index of the skill it is for).
\<close>

record search_state =
  totalSearches :: nat
  successfulSearches :: nat
  failedSearches :: nat
  youtubeErrors :: "error_info list"
  requests :: "(nat \<times> string) list"

definition initial_state :: search_state where
  "initial_state =
     \<lparr>totalSearches = 0, successfulSearches = 0, failedSearches = 0,
      youtubeErrors = [], requests = []\<rparr>"

text \<open>
  \<^verbatim>\<open>`${term} ${topic} tutorial`\<close>, for the texts that the term and the topic give.
\<close>

definition searchQuery :: "string \<Rightarrow> string \<Rightarrow> string" where
  "searchQuery term topic' = term @ '' '' @ topic' @ '' tutorial''"

text \<open>
  The error branch. \<open>error_reason\<close> is \<^verbatim>\<open>data.error.errors?.[0]?.reason\<close>, for a
  \<^verbatim>\<open>data.error\<close> that is truthy; the entry pushed has \<^verbatim>\<open>reason || 'unknown'\<close>.
\<close>

definition error_reason :: "json \<Rightarrow> json option" where
  "error_reason err = opt_property (opt_element0 (property err ''errors'')) ''reason''"

definition errorInfo :: "json \<Rightarrow> json \<Rightarrow> error_info" where
  "errorInfo term err =
     Api_error term (property err ''code'') (property err ''message'')
       (case error_reason err of
          Some reason \<Rightarrow> if truthy reason then reason else JString ''unknown''
        | None \<Rightarrow> JString ''unknown'')"

definition quotaExceeded :: "json \<Rightarrow> bool" where
  "quotaExceeded err \<longleftrightarrow> error_reason err = Some (JString ''quotaExceeded'')"

text \<open>
  The test \<^verbatim>\<open>data.items && data.items.length > 0\<close> (the comparison can throw, see above),
  and \<^verbatim>\<open>data.items[0]\<close> once the test has passed.
\<close>

definition has_items :: "conversions \<Rightarrow> json option \<Rightarrow> exception + bool" where
  "has_items js items =
     (case items of
        None \<Rightarrow> Inr False
      | Some v \<Rightarrow> if truthy v then above_zero js (js_length v) else Inr False)"

definition first_item :: "json option \<Rightarrow> json option" where
  "first_item items = (case items of None \<Rightarrow> None | Some v \<Rightarrow> element0 v)"

text \<open>
  The object pushed to \<^verbatim>\<open>videos\<close>. Its members are read from the item in the order of the
  object literal: \<^verbatim>\<open>item.id.videoId\<close>, \<^verbatim>\<open>item.snippet.title\<close>,
  \<^verbatim>\<open>item.snippet.thumbnails.medium.url\<close>, \<^verbatim>\<open>item.snippet.channelTitle\<close>. The first read that
  throws ends the statement, and nothing is pushed.
\<close>

definition make_video :: "json option \<Rightarrow> json \<Rightarrow> exception + json" where
  "make_video item term =
     (case then_get (get item ''id'') ''videoId'' of
        Inl exn \<Rightarrow> Inl exn
      | Inr videoId \<Rightarrow>
     (case then_get (get item ''snippet'') ''title'' of
        Inl exn \<Rightarrow> Inl exn
      | Inr title \<Rightarrow>
     (case then_get (then_get (then_get (get item ''snippet'') ''thumbnails'') ''medium'') ''url'' of
        Inl exn \<Rightarrow> Inl exn
      | Inr url \<Rightarrow>
     (case then_get (get item ''snippet'') ''channelTitle'' of
        Inl exn \<Rightarrow> Inl exn
      | Inr channel \<Rightarrow>
          Inr (object [(''id'', videoId), (''title'', title), (''thumbnail'', url),
                       (''channelTitle'', channel), (''searchTerm'', Some term)])))))"

text \<open>
  The log line after the push calls \<^verbatim>\<open>item.snippet.title.substring(0, 50)\<close>: only a string
  has this function.
\<close>

fun substring_of :: "json option \<Rightarrow> exception option" where
  "substring_of None = Some (Cannot_read ''substring'')"
| "substring_of (Some JNull) = Some (Cannot_read ''substring'')"
| "substring_of (Some (JString s)) = None"
| "substring_of (Some v) = Some (Not_a_function ''substring'')"

definition log_found :: "json option \<Rightarrow> exception option" where
  "log_found item =
     (case then_get (get item ''snippet'') ''title'' of
        Inl exn \<Rightarrow> Some exn
      | Inr title \<Rightarrow> substring_of title)"

text \<open>
  The \<^verbatim>\<open>try\<close> block of the loop body in the server with diagnostics, from the answer on.
  It ends in one of three ways: \<^verbatim>\<open>break\<close>, the end of the block or \<^verbatim>\<open>continue\<close> (both go
  on with the next term), or a throw. In each case the videos and the accumulators are
  what they are at that point: the count of a success is made before the item is read, and
  a throw of the log line comes after the push.
\<close>

datatype flow = Break | Continue

definition items_branch ::
  "conversions \<Rightarrow> json \<Rightarrow> json option \<Rightarrow> json list \<Rightarrow> search_state
     \<Rightarrow> (exception \<times> json list \<times> search_state) + (flow \<times> json list \<times> search_state)" where
  "items_branch js term items vs st =
     (case has_items js items of
        Inl exn \<Rightarrow> Inl (exn, vs, st)
      | Inr False \<Rightarrow> Inr (Continue, vs, st\<lparr>failedSearches := failedSearches st + 1\<rparr>)
      | Inr True \<Rightarrow>
          (let st1 = st\<lparr>successfulSearches := successfulSearches st + 1\<rparr>;
               item = first_item items
           in case make_video item term of
                Inl exn \<Rightarrow> Inl (exn, vs, st1)
              | Inr video \<Rightarrow>
                  (case log_found item of
                     Some exn \<Rightarrow> Inl (exn, vs @ [video], st1)
                   | None \<Rightarrow> Inr (Continue, vs @ [video], st1))))"

definition try_block ::
  "conversions \<Rightarrow> json \<Rightarrow> fetch_result \<Rightarrow> json list \<Rightarrow> search_state
     \<Rightarrow> (exception \<times> json list \<times> search_state) + (flow \<times> json list \<times> search_state)" where
  "try_block js term r vs st =
     (case r of
        Threw msg \<Rightarrow> Inl (Rejected msg, vs, st)
      | Data d \<Rightarrow>
          (case get (Some d) ''error'' of
             Inl exn \<Rightarrow> Inl (exn, vs, st)
           | Inr None \<Rightarrow> items_branch js term (property d ''items'') vs st
           | Inr (Some err) \<Rightarrow>
               if truthy err then
                 (let st1 = st\<lparr>failedSearches := failedSearches st + 1,
                                 youtubeErrors := youtubeErrors st @ [errorInfo term err]\<rparr>
                  in Inr (if quotaExceeded err then Break else Continue, vs, st1))
               else items_branch js term (property d ''items'') vs st))"

text \<open>The loop body from the answer on: the \<^verbatim>\<open>try\<close> block with its \<^verbatim>\<open>catch\<close>.\<close>

definition loop_body ::
  "conversions \<Rightarrow> json \<Rightarrow> fetch_result \<Rightarrow> json list \<Rightarrow> search_state
     \<Rightarrow> flow \<times> json list \<times> search_state" where
  "loop_body js term r vs st =
     (case try_block js term r vs st of
        Inr outcome \<Rightarrow> outcome
      | Inl (exn, vs1, st1) \<Rightarrow>
          (Continue, vs1,
           st1\<lparr>failedSearches := failedSearches st1 + 1,
               youtubeErrors := youtubeErrors st1 @ [Fetch_error term exn]\<rparr>))"

text \<open>
  The \<^verbatim>\<open>for (const term of skill.searchTerms)\<close> loop of the server with diagnostics, for
  skill number \<open>i\<close>. \<open>respond j\<close> is what the search for the \<open>j\<close>-th term of this skill
  gives, should that search be begun. \<^verbatim>\<open>break\<close> returns, otherwise the loop goes on with
  the rest of the terms.
\<close>

fun term_loop ::
  "conversions \<Rightarrow> string \<Rightarrow> nat \<Rightarrow> (nat \<Rightarrow> fetch_result) \<Rightarrow> nat \<Rightarrow> json list \<Rightarrow> json list
     \<Rightarrow> search_state \<Rightarrow> json list \<times> search_state" where
  "term_loop js topic' i respond j [] vs st = (vs, st)"
| "term_loop js topic' i respond j (term # rest) vs st =
     (let st1 = st\<lparr>totalSearches := totalSearches st + 1,
                    requests := requests st @ [(i, searchQuery (text_of js term) topic')]\<rparr>
      in case loop_body js term (respond j) vs st1 of
           (Break, vs2, st2) \<Rightarrow> (vs2, st2)
         | (Continue, vs2, st2) \<Rightarrow> term_loop js topic' i respond (Suc j) rest vs2 st2)"

text \<open>
  What one pass of the loop body adds, for a term and its answer: the videos it pushes and
  its effects on the accumulators.
\<close>

definition body_videos :: "conversions \<Rightarrow> json \<Rightarrow> fetch_result \<Rightarrow> json list" where
  "body_videos js term r = fst (snd (loop_body js term r [] initial_state))"

definition body_effect :: "conversions \<Rightarrow> json \<Rightarrow> fetch_result \<Rightarrow> search_state" where
  "body_effect js term r = snd (snd (loop_body js term r [] initial_state))"

text \<open>
  The terms that \<^verbatim>\<open>for (const term of skill.searchTerms)\<close> iterates: the elements of an
  array, the characters of a string; anything else (also a skill that is \<^verbatim>\<open>null\<close> or has no
  such member) makes the statement throw, which is \<open>None\<close>. The skill sent back is
  \<^verbatim>\<open>{...skill, videos}\<close>.
\<close>

definition skill_terms :: "json \<Rightarrow> json list option" where
  "skill_terms skill =
     (case property skill ''searchTerms'' of
        Some (JArray terms) \<Rightarrow> Some terms
      | Some (JString s) \<Rightarrow> Some (map (\<lambda>c. JString [c]) s)
      | _ \<Rightarrow> None)"

definition with_videos :: "json \<Rightarrow> json list \<Rightarrow> json" where
  "with_videos skill vs = set_prop skill ''videos'' (JArray vs)"

text \<open>
  \<^verbatim>\<open>courseStructure.skills.map(async (skill) => ...)\<close> under \<^verbatim>\<open>Promise.all\<close>: one loop
  per skill, results in skill order. A skill is given with the terms its loop iterates;
  \<open>world i j\<close> is the answer to the search for term \<open>j\<close> of skill \<open>i\<close>. Here the loops
  are composed in skill order. In the program they take turns at each \<^verbatim>\<open>await\<close>; the loops
  as interleaved tasks are modelled below, and every complete interleaving is shown to give
  the same skills with videos, the same counters and the same error and request entries (up
  to their order in the lists) as this composition.
\<close>

fun enrich_from ::
  "conversions \<Rightarrow> string \<Rightarrow> (nat \<Rightarrow> nat \<Rightarrow> fetch_result) \<Rightarrow> nat \<Rightarrow> (json \<times> json list) list
     \<Rightarrow> search_state \<Rightarrow> json list \<times> search_state" where
  "enrich_from js topic' world i [] st = ([], st)"
| "enrich_from js topic' world i (sk # sks) st =
     (let (vs, st1) = term_loop js topic' i (world i) 0 (snd sk) [] st;
          (rest, st2) = enrich_from js topic' world (Suc i) sks st1
      in (with_videos (fst sk) vs # rest, st2))"

definition skillsWithVideos ::
  "conversions \<Rightarrow> string \<Rightarrow> (nat \<Rightarrow> nat \<Rightarrow> fetch_result) \<Rightarrow> (json \<times> json list) list
     \<Rightarrow> json list \<times> search_state" where
  "skillsWithVideos js topic' world sks = enrich_from js topic' world 0 sks initial_state"

subsection \<open>The loops as interleaved tasks\<close>

text \<open>
  Under \<^verbatim>\<open>Promise.all\<close> the loops of the skills do not run one after the other: each
  \<^verbatim>\<open>async\<close> callback runs until it waits for its \<^verbatim>\<open>fetch\<close>, and goes on when the answer
  arrives, in whatever order answers arrive. Between two waits a callback runs alone. A
  task is a callback at such a wait: the term whose search is under way (with its
  position), the terms still to come and the videos found so far; a task that waits for
  nothing has returned.

  \<open>begin_term\<close> is the head of the loop, up to the wait: nothing to do when no term is
  left, otherwise count the search and begin it. \<open>deliver\<close> is what the callback does
  when the answer to its search arrives, up to its next wait: the loop body from the answer
  on, then the head of the loop again unless the body ended in \<^verbatim>\<open>break\<close>. \<open>start_all\<close> is
  the \<^verbatim>\<open>map\<close> over the skills, which runs every callback to its first wait, in skill order;
  a schedule is the order in which answers arrive, given as the numbers of the tasks they
  are for.
\<close>

record task =
  waiting :: "(nat \<times> json) option"
  pending :: "json list"
  found :: "json list"

definition begin_term ::
  "conversions \<Rightarrow> string \<Rightarrow> nat \<Rightarrow> nat \<Rightarrow> json list \<Rightarrow> json list \<Rightarrow> search_state
     \<Rightarrow> task \<times> search_state" where
  "begin_term js topic' i j terms vs st =
     (case terms of
        [] \<Rightarrow> (\<lparr>waiting = None, pending = [], found = vs\<rparr>, st)
      | term # rest \<Rightarrow>
          (\<lparr>waiting = Some (j, term), pending = rest, found = vs\<rparr>,
           st\<lparr>totalSearches := totalSearches st + 1,
              requests := requests st @ [(i, searchQuery (text_of js term) topic')]\<rparr>))"

definition deliver ::
  "conversions \<Rightarrow> string \<Rightarrow> nat \<Rightarrow> (nat \<Rightarrow> fetch_result) \<Rightarrow> task \<Rightarrow> search_state
     \<Rightarrow> task \<times> search_state" where
  "deliver js topic' i respond t st =
     (case waiting t of
        None \<Rightarrow> (t, st)
      | Some (j, term) \<Rightarrow>
          (case loop_body js term (respond j) (found t) st of
             (Break, vs2, st2) \<Rightarrow> (\<lparr>waiting = None, pending = pending t, found = vs2\<rparr>, st2)
           | (Continue, vs2, st2) \<Rightarrow> begin_term js topic' i (Suc j) (pending t) vs2 st2))"

fun start_all ::
  "conversions \<Rightarrow> string \<Rightarrow> nat \<Rightarrow> (json \<times> json list) list \<Rightarrow> search_state
     \<Rightarrow> task list \<times> search_state" where
  "start_all js topic' i [] st = ([], st)"
| "start_all js topic' i (sk # sks) st =
     (let (t, st1) = begin_term js topic' i 0 (snd sk) [] st;
          (ts, st2) = start_all js topic' (Suc i) sks st1
      in (t # ts, st2))"

definition arrive ::
  "conversions \<Rightarrow> string \<Rightarrow> (nat \<Rightarrow> nat \<Rightarrow> fetch_result) \<Rightarrow> nat \<Rightarrow> task list \<times> search_state
     \<Rightarrow> task list \<times> search_state" where
  "arrive js topic' world k cfg =
     (if k < length (fst cfg)
      then (let (t, st) = deliver js topic' k (world k) (fst cfg ! k) (snd cfg)
            in ((fst cfg)[k := t], st))
      else cfg)"

fun run ::
  "conversions \<Rightarrow> string \<Rightarrow> (nat \<Rightarrow> nat \<Rightarrow> fetch_result) \<Rightarrow> nat list \<Rightarrow> task list \<times> search_state
     \<Rightarrow> task list \<times> search_state" where
  "run js topic' world [] cfg = cfg"
| "run js topic' world (k # schedule) cfg =
     run js topic' world schedule (arrive js topic' world k cfg)"

definition all_returned :: "task list \<Rightarrow> bool" where
  "all_returned ts \<longleftrightarrow> (\<forall>t \<in> set ts. waiting t = None)"

definition joined :: "(json \<times> json list) list \<Rightarrow> task list \<Rightarrow> json list" where
  "joined sks ts = map (\<lambda>(sk, t). with_videos (fst sk) (found t)) (zip sks ts)"

text \<open>
  \<^verbatim>\<open>await Promise.all(...)\<close>: the callbacks are started, the answers arrive, and the
  handler goes on once every callback has returned. Every search gets its answer, so a
  schedule need not list them all: the answers it leaves out arrive after the listed ones,
  skill by skill (\<open>remaining\<close> has, for each skill, as many answers as the skill has
  terms, and an answer for a callback that has returned changes nothing). The result is
  the skills with their videos, in skill order, and the accumulators.
\<close>

fun remaining :: "nat \<Rightarrow> (json \<times> json list) list \<Rightarrow> nat list" where
  "remaining i [] = []"
| "remaining i (sk # sks) = replicate (length (snd sk)) i @ remaining (Suc i) sks"

definition await_all ::
  "conversions \<Rightarrow> string \<Rightarrow> (nat \<Rightarrow> nat \<Rightarrow> fetch_result) \<Rightarrow> nat list \<Rightarrow> (json \<times> json list) list
     \<Rightarrow> json list \<times> search_state" where
  "await_all js topic' world schedule sks =
     (let (tasks, st) = run js topic' world (schedule @ remaining 0 sks)
                          (start_all js topic' 0 sks initial_state)
      in (joined sks tasks, st))"

text \<open>
  What a task would still do if it ran alone from where it is: the rest of its loop.
\<close>

definition run_alone ::
  "conversions \<Rightarrow> string \<Rightarrow> nat \<Rightarrow> (nat \<Rightarrow> fetch_result) \<Rightarrow> task \<Rightarrow> search_state
     \<Rightarrow> json list \<times> search_state" where
  "run_alone js topic' i respond t st =
     (case waiting t of
        None \<Rightarrow> (found t, st)
      | Some (j, term) \<Rightarrow>
          (case loop_body js term (respond j) (found t) st of
             (Break, vs2, st2) \<Rightarrow> (vs2, st2)
           | (Continue, vs2, st2) \<Rightarrow> term_loop js topic' i respond (Suc j) (pending t) vs2 st2))"

text \<open>
  Two lots of effects on the accumulators put together, the second after the first; and
  what a task, run alone, would still add to them.
\<close>

definition merge :: "search_state \<Rightarrow> search_state \<Rightarrow> search_state" where
  "merge a b =
     \<lparr>totalSearches = totalSearches a + totalSearches b,
      successfulSearches = successfulSearches a + successfulSearches b,
      failedSearches = failedSearches a + failedSearches b,
      youtubeErrors = youtubeErrors a @ youtubeErrors b,
      requests = requests a @ requests b\<rparr>"

definition todo ::
  "conversions \<Rightarrow> string \<Rightarrow> nat \<Rightarrow> (nat \<Rightarrow> fetch_result) \<Rightarrow> task \<Rightarrow> search_state" where
  "todo js topic' i respond t = snd (run_alone js topic' i respond t initial_state)"

text \<open>
  For a quantity \<open>m\<close> read off the accumulators, the sum of what the tasks of a list
  would still add to it; the task at the head of the list belongs to skill \<open>i\<close>.
\<close>

fun sum_todo ::
  "(search_state \<Rightarrow> 'a::cancel_comm_monoid_add) \<Rightarrow> conversions \<Rightarrow> string
     \<Rightarrow> (nat \<Rightarrow> nat \<Rightarrow> fetch_result) \<Rightarrow> nat \<Rightarrow> task list \<Rightarrow> 'a" where
  "sum_todo m js topic' world i [] = 0"
| "sum_todo m js topic' world i (t # ts) =
     m (todo js topic' i (world i) t) + sum_todo m js topic' world (Suc i) ts"

text \<open>The number of answers a task can still take before it has returned.\<close>

definition answers_left :: "task \<Rightarrow> nat" where
  "answers_left t = (case waiting t of None \<Rightarrow> 0 | Some a \<Rightarrow> Suc (length (pending t)))"

subsection \<open>The server without diagnostics\<close>

text \<open>
  The same loop in the server without diagnostics: no counters and no error branch. The
  \<^verbatim>\<open>try\<close> block reads \<^verbatim>\<open>data.items\<close> first, has no log line after the push, and its
  \<^verbatim>\<open>catch\<close> only logs.
\<close>

definition loop_body_plain ::
  "conversions \<Rightarrow> json \<Rightarrow> fetch_result \<Rightarrow> json list \<Rightarrow> json list" where
  "loop_body_plain js term r vs =
     (case r of
        Threw msg \<Rightarrow> vs
      | Data d \<Rightarrow>
          (case get (Some d) ''items'' of
             Inl exn \<Rightarrow> vs
           | Inr items \<Rightarrow>
               (case has_items js items of
                  Inl exn \<Rightarrow> vs
                | Inr False \<Rightarrow> vs
                | Inr True \<Rightarrow>
                    (case make_video (first_item items) term of
                       Inl exn \<Rightarrow> vs
                     | Inr video \<Rightarrow> vs @ [video]))))"

fun term_loop_plain ::
  "conversions \<Rightarrow> (nat \<Rightarrow> fetch_result) \<Rightarrow> nat \<Rightarrow> json list \<Rightarrow> json list \<Rightarrow> json list" where
  "term_loop_plain js respond j [] vs = vs"
| "term_loop_plain js respond j (term # rest) vs =
     term_loop_plain js respond (Suc j) rest (loop_body_plain js term (respond j) vs)"

fun enrich_plain_from ::
  "conversions \<Rightarrow> (nat \<Rightarrow> nat \<Rightarrow> fetch_result) \<Rightarrow> nat \<Rightarrow> (json \<times> json list) list \<Rightarrow> json list" where
  "enrich_plain_from js world i [] = []"
| "enrich_plain_from js world i (sk # sks) =
     with_videos (fst sk) (term_loop_plain js (world i) 0 (snd sk) [])
       # enrich_plain_from js world (Suc i) sks"

definition skillsWithVideos_plain ::
  "conversions \<Rightarrow> (nat \<Rightarrow> nat \<Rightarrow> fetch_result) \<Rightarrow> (json \<times> json list) list \<Rightarrow> json list" where
  "skillsWithVideos_plain js world sks = enrich_plain_from js world 0 sks"

subsection \<open>Kinds of answers\<close>

text \<open>
  A quota-exhaustion answer: a payload whose \<^verbatim>\<open>error\<close> is truthy and has the reason
  \<^verbatim>\<open>quotaExceeded\<close>. And the requests of the searches that a run began for one skill.
\<close>

definition quota_response :: "fetch_result \<Rightarrow> bool" where
  "quota_response r =
     (case r of
        Data d \<Rightarrow> (case property d ''error'' of
                     Some err \<Rightarrow> truthy err \<and> quotaExceeded err
                   | None \<Rightarrow> False)
      | Threw msg \<Rightarrow> False)"



text \<open>
  An answer on which the two servers cannot differ: not an error payload that reports
  quota exhaustion, and not an error payload that also carries results.
\<close>

definition benign :: "conversions \<Rightarrow> fetch_result \<Rightarrow> bool" where
  "benign js r =
     (case r of
        Data d \<Rightarrow>
          (case property d ''error'' of
             Some err \<Rightarrow>
               truthy err \<longrightarrow> \<not> quotaExceeded err \<and> has_items js (property d ''items'') \<noteq> Inr True
           | None \<Rightarrow> True)
      | Threw msg \<Rightarrow> True)"

text \<open>
  Example data: a search result as the service documents it, the same result without its
  thumbnails, an error payload for quota exhaustion and one for an invalid key; a course
  structure of two skills, the first with three terms, the second with one; and a course
  structure of one skill with one term.
\<close>

definition example_item :: json where
  "example_item =
     JObject [(''id'', JObject [(''videoId'', JString ''v1'')]),
              (''snippet'',
               JObject [(''title'', JString ''Video''),
                        (''thumbnails'', JObject [(''medium'', JObject [(''url'', JString ''thumb'')])]),
                        (''channelTitle'', JString ''Channel'')])]"

definition item_without_thumbnails :: json where
  "item_without_thumbnails =
     JObject [(''id'', JObject [(''videoId'', JString ''v1'')]),
              (''snippet'',
               JObject [(''title'', JString ''Video''), (''channelTitle'', JString ''Channel'')])]"

definition quota_payload :: json where
  "quota_payload =
     JObject [(''error'',
               JObject [(''code'', JNumber 403), (''message'', JString ''quota''),
                        (''errors'', JArray [JObject [(''reason'', JString ''quotaExceeded'')]])])]"

definition key_payload :: json where
  "key_payload =
     JObject [(''error'',
               JObject [(''code'', JNumber 400), (''message'', JString ''bad''),
                        (''errors'', JArray [JObject [(''reason'', JString ''keyInvalid'')]])])]"

definition example_world :: "nat \<Rightarrow> nat \<Rightarrow> fetch_result" where
  "example_world i j =
     (if i = 0 \<and> j = 1 then Data quota_payload
      else Data (JObject [(''items'', JArray [example_item])]))"

definition example_world_benign :: "nat \<Rightarrow> nat \<Rightarrow> fetch_result" where
  "example_world_benign i j =
     (if j = 1 then Data key_payload else Data (JObject [(''items'', JArray [example_item])]))"

definition skill_a :: json where
  "skill_a =
     JObject [(''name'', JString ''A''), (''description'', JString ''first''),
              (''searchTerms'', JArray [JString ''t1'', JString ''t2'', JString ''t3''])]"

definition skill_b :: json where
  "skill_b =
     JObject [(''name'', JString ''B''), (''description'', JString ''second''),
              (''searchTerms'', JArray [JString ''u1''])]"

definition example_skills :: "(json \<times> json list) list" where
  "example_skills =
     [(skill_a, [JString ''t1'', JString ''t2'', JString ''t3'']), (skill_b, [JString ''u1''])]"

definition example_structure :: json where
  "example_structure = JObject [(''topic'', JString ''T''), (''skills'', JArray [skill_a, skill_b])]"

definition small_structure :: json where
  "small_structure = JObject [(''topic'', JString ''T''), (''skills'', JArray [skill_b])]"

definition example_js :: conversions where
  "example_js = \<lparr>to_text = (\<lambda>v. []), exceeds_zero = (\<lambda>v. None)\<rparr>"

text \<open>
  The videos of a skill that was sent back, and the video that the example result gives
  for a term.
\<close>

definition found_videos :: "json \<Rightarrow> json list" where
  "found_videos skill = (case property skill ''videos'' of Some (JArray vs) \<Rightarrow> vs | _ \<Rightarrow> [])"

definition example_video_for :: "string \<Rightarrow> json" where
  "example_video_for term =
     JObject [(''id'', JString ''v1''), (''title'', JString ''Video''),
              (''thumbnail'', JString ''thumb''), (''channelTitle'', JString ''Channel''),
              (''searchTerm'', JString term)]"
section \<open>The generation handlers\<close>

text \<open>
  The \<^verbatim>\<open>_debug\<close> object of the response: the three counters and
  \<^verbatim>\<open>youtubeErrors.length > 0 ? youtubeErrors.slice(0, 5) : undefined\<close>.
\<close>

record debug_info =
  debug_totalSearches :: nat
  debug_successfulSearches :: nat
  debug_failedSearches :: nat
  debug_errors :: "error_info list option"

definition make_debug :: "search_state \<Rightarrow> debug_info" where
  "make_debug st =
     \<lparr>debug_totalSearches = totalSearches st,
      debug_successfulSearches = successfulSearches st,
      debug_failedSearches = failedSearches st,
      debug_errors = (if length (youtubeErrors st) > 0 then Some (take 5 (youtubeErrors st))
                      else None)\<rparr>"

text \<open>
  The bodies the full-generation handlers send. Without a search key it is
  \<^verbatim>\<open>{...courseStructure, videos: null, message}\<close>, kept as the structure and the message.
  With a key it is \<^verbatim>\<open>{topic: courseStructure.topic, skills: skillsWithVideos, generatedAt}\<close>,
  in the server with diagnostics with \<^verbatim>\<open>_debug\<close> added.
\<close>

record course_response =
  response_topic :: "json option"
  response_skills :: "json list"
  generatedAt :: string
  debug :: "debug_info option"

datatype full_course_body = Structure_only json string | Course course_response

text \<open>
  \<^verbatim>\<open>POST /api/generate-course\<close> (structure only). \<open>topic'\<close> is \<^verbatim>\<open>req.body.topic\<close>, the
  text of the client's input field; \<open>completion\<close> is the outcome of the completion call,
  \<open>None\<close> when it throws; the prompt sent with the call has no part in what follows.
\<close>

definition generate_course ::
  "(string \<Rightarrow> 'j option) \<Rightarrow> string \<Rightarrow> string option \<Rightarrow> 'j reply" where
  "generate_course json_parse topic' completion =
     (if topic' = [] then Failed 400 \<lparr>error_message = ''Topic is required'', raw = None\<rparr>
      else case completion of
        None \<Rightarrow> Failed 500 \<lparr>error_message = ''Failed to generate course structure'', raw = None\<rparr>
      | Some responseText \<Rightarrow>
          (case extract_structure json_parse responseText of
             Inl parseError \<Rightarrow>
               Failed 500 \<lparr>error_message = ''Failed to parse AI response'',
                           raw = Some responseText\<rparr>
           | Inr courseStructure \<Rightarrow> Sent courseStructure))"

text \<open>
  \<^verbatim>\<open>courseStructure.skills.map(...)\<close> with the start of each callback: the skills with the
  terms their loops iterate. \<^verbatim>\<open>skills\<close> has to be an array (nothing else that
  \<^verbatim>\<open>JSON.parse\<close> gives has a \<^verbatim>\<open>map\<close> function), and every skill has to have terms that can
  be iterated; otherwise a \<^verbatim>\<open>TypeError\<close> is thrown, in the handler or in a callback, whose
  rejection \<^verbatim>\<open>Promise.all\<close> passes on at once. Both end in the outer \<^verbatim>\<open>catch\<close> of the
  handler.
\<close>

fun with_terms :: "json list \<Rightarrow> (json \<times> json list) list option" where
  "with_terms [] = Some []"
| "with_terms (skill # others) =
     (case skill_terms skill of
        None \<Rightarrow> None
      | Some terms \<Rightarrow> map_option ((#) (skill, terms)) (with_terms others))"

definition course_skills :: "json \<Rightarrow> (json \<times> json list) list option" where
  "course_skills courseStructure =
     (case property courseStructure ''skills'' of
        Some (JArray sks) \<Rightarrow> with_terms sks
      | _ \<Rightarrow> None)"

text \<open>
  \<^verbatim>\<open>POST /api/generate-full-course\<close> in the server with diagnostics. \<open>apiKey\<close> is the
  environment's search key (empty when unset), \<open>world\<close> the answers of the search
  service, \<open>schedule\<close> the order in which they arrive, \<open>now\<close> the time stamp of the
  response.
\<close>

definition generate_full_course ::
  "conversions \<Rightarrow> (string \<Rightarrow> json option) \<Rightarrow> string \<Rightarrow> string option \<Rightarrow> string
     \<Rightarrow> (nat \<Rightarrow> nat \<Rightarrow> fetch_result) \<Rightarrow> nat list \<Rightarrow> string \<Rightarrow> full_course_body reply" where
  "generate_full_course js json_parse topic' completion apiKey world schedule now =
     (if topic' = [] then Failed 400 \<lparr>error_message = ''Topic is required'', raw = None\<rparr>
      else case completion of
        None \<Rightarrow> Failed 500 \<lparr>error_message = ''Failed to generate course'', raw = None\<rparr>
      | Some responseText \<Rightarrow>
          (case extract_structure json_parse responseText of
             Inl parseError \<Rightarrow>
               Failed 500 \<lparr>error_message = ''Failed to parse course structure'', raw = None\<rparr>
           | Inr courseStructure \<Rightarrow>
               if apiKey = [] then
                 Sent (Structure_only courseStructure
                         ''No YouTube API key - returning structure only'')
               else
                 (case course_skills courseStructure of
                    None \<Rightarrow>
                      Failed 500 \<lparr>error_message = ''Failed to generate course'', raw = None\<rparr>
                  | Some sks \<Rightarrow>
                      (let (skillsWithVideos, st) = await_all js topic' world schedule sks
                       in Sent (Course \<lparr>response_topic = property courseStructure ''topic'',
                                         response_skills = skillsWithVideos,
                                         generatedAt = now,
                                         debug = Some (make_debug st)\<rparr>)))))"

text \<open>
  The same handler in the server without diagnostics. Its callbacks share nothing, so the
  order in which the answers arrive does not show in the response.
\<close>

definition generate_full_course_plain ::
  "conversions \<Rightarrow> (string \<Rightarrow> json option) \<Rightarrow> string \<Rightarrow> string option \<Rightarrow> string
     \<Rightarrow> (nat \<Rightarrow> nat \<Rightarrow> fetch_result) \<Rightarrow> string \<Rightarrow> full_course_body reply" where
  "generate_full_course_plain js json_parse topic' completion apiKey world now =
     (if topic' = [] then Failed 400 \<lparr>error_message = ''Topic is required'', raw = None\<rparr>
      else case completion of
        None \<Rightarrow> Failed 500 \<lparr>error_message = ''Failed to generate course'', raw = None\<rparr>
      | Some responseText \<Rightarrow>
          (case extract_structure json_parse responseText of
             Inl parseError \<Rightarrow>
               Failed 500 \<lparr>error_message = ''Failed to parse course structure'', raw = None\<rparr>
           | Inr courseStructure \<Rightarrow>
               if apiKey = [] then
                 Sent (Structure_only courseStructure
                         ''No YouTube API key - returning structure only'')
               else
                 (case course_skills courseStructure of
                    None \<Rightarrow>
                      Failed 500 \<lparr>error_message = ''Failed to generate course'', raw = None\<rparr>
                  | Some sks \<Rightarrow>
                      Sent (Course \<lparr>response_topic = property courseStructure ''topic'',
                                     response_skills = skillsWithVideos_plain js world sks,
                                     generatedAt = now,
                                     debug = None\<rparr>))))"

section \<open>EntityGraphExporter (client script: generateUUID, exportToTrainstation)\<close>

text \<open>
  The course the client holds when it exports (\<^verbatim>\<open>currentCourse\<close>), with the shape the
  servers send: a topic and skills, a skill with its name, description, search terms and,
  once enriched, its videos; in courses that were imported the videos may be absent.
\<close>

record video =
  video_id :: string
  video_title :: string
  thumbnail :: string
  channelTitle :: string
  searchTerm :: string

record skill =
  name :: string
  description :: string
  searchTerms :: "string list"
  videos :: "video list option"

record course_structure =
  topic :: string
  skills :: "skill list"

text \<open>
  The videos of a skill (none when the field is absent) and the number of videos in a skill
  and in a list of skills.
\<close>

definition num_videos :: "skill \<Rightarrow> nat" where
  "num_videos sk = (case videos sk of Some vs \<Rightarrow> length vs | None \<Rightarrow> 0)"

definition skill_videos :: "skill \<Rightarrow> video list" where
  "skill_videos sk = (case videos sk of Some vs \<Rightarrow> vs | None \<Rightarrow> [])"

definition video_count :: "skill list \<Rightarrow> nat" where
  "video_count sks = sum_list (map num_videos sks)"

text \<open>
  \<^verbatim>\<open>Math.random() * 16 | 0\<close> is one of the integers 0 to 15. The random source is the
  sequence of these integers in the order the calls are made: \<open>rs n\<close> is the outcome of
  call number \<open>n\<close>. A four-bit word holds exactly these values, and
  \<^verbatim>\<open>r & 0x3 | 0x8\<close> is the same operation on it; \<^verbatim>\<open>toString(16)\<close> of such a value is one
  lower-case hexadecimal digit.
\<close>

type_synonym random_source = "nat \<Rightarrow> 4 word"

definition hex_digit :: "4 word \<Rightarrow> char" where
  "hex_digit v = ''0123456789abcdef'' ! unat v"

text \<open>
  \<^verbatim>\<open>template.replace(/[xy]/g, callback)\<close>: the callback runs once for each \<^verbatim>\<open>x\<close> or \<^verbatim>\<open>y\<close>,
  from left to right, and makes one call of the random source each time. The result is the
  new text and the number of the next call.
\<close>

fun replace_xy :: "random_source \<Rightarrow> nat \<Rightarrow> string \<Rightarrow> string \<times> nat" where
  "replace_xy rs n [] = ([], n)"
| "replace_xy rs n (c # cs) =
     (if c = CHR ''x'' \<or> c = CHR ''y'' then
        (let r = rs n;
             v = (if c = CHR ''x'' then r else (r AND 3) OR 8);
             (out, n') = replace_xy rs (Suc n) cs
         in (hex_digit v # out, n'))
      else
        (let (out, n') = replace_xy rs n cs in (c # out, n')))"

definition generateUUID :: "random_source \<Rightarrow> nat \<Rightarrow> string \<times> nat" where
  "generateUUID rs n = replace_xy rs n ''xxxxxxxx-xxxx-4xxx-yxxx-xxxxxxxxxxxx''"

record entity =
  entity_id :: string
  entity_type :: string
  status :: string
  labels :: "string list"
  children :: "string list"
  attributes :: "(string \<times> string) list"

record trainstation_export =
  export_root :: string
  entities :: "entity list"
  exportedAt :: string
  source :: string

text \<open>
  The inner \<^verbatim>\<open>skill.videos.forEach((video, videoIndex) => ...)\<close>: one identifier and one
  entity per video, pushed in order. \<open>tot\<close> is \<^verbatim>\<open>skill.videos.length\<close>. The result is the
  entities pushed, the \<^verbatim>\<open>videoIds\<close> collected and the number of the next random call.
\<close>

fun export_videos ::
  "random_source \<Rightarrow> (rat \<Rightarrow> rat) \<Rightarrow> string \<Rightarrow> 'a skill_scheme \<Rightarrow> nat \<Rightarrow> nat \<Rightarrow> nat \<Rightarrow> video list
     \<Rightarrow> entity list \<times> string list \<times> nat" where
  "export_videos rs rnd topic' sk tot videoIndex n [] = ([], [], n)"
| "export_videos rs rnd topic' sk tot videoIndex n (v # vs) =
     (let (videoId, n1) = generateUUID rs n;
          videoEntity =
            \<lparr>entity_id = videoId, entity_type = ''video'', status = ''public'',
             labels = [topic', name sk], children = [],
             attributes =
               [(''title'', video_title v),
                (''description'', if searchTerm v \<noteq> [] then searchTerm v else description sk),
                (''url'', ''https://www.youtube.com/watch?v='' @ video_id v),
                (''level'', getTrainstationLevel rnd videoIndex tot),
                (''thumbnail'', thumbnail v)]\<rparr>;
          (es, videoIds, n2) = export_videos rs rnd topic' sk tot (Suc videoIndex) n1 vs
      in (videoEntity # es, videoId # videoIds, n2))"

text \<open>
  The outer \<^verbatim>\<open>currentCourse.skills.forEach\<close>: the section identifier first, then the videos
  (when \<^verbatim>\<open>skill.videos && skill.videos.length > 0\<close>), then the section entity.
\<close>

fun export_skills ::
  "random_source \<Rightarrow> (rat \<Rightarrow> rat) \<Rightarrow> string \<Rightarrow> nat \<Rightarrow> skill list
     \<Rightarrow> entity list \<times> string list \<times> nat" where
  "export_skills rs rnd topic' n [] = ([], [], n)"
| "export_skills rs rnd topic' n (sk # sks) =
     (let (sectionId, n1) = generateUUID rs n;
          (ves, videoIds, n2) =
            (case videos sk of
               Some vs \<Rightarrow>
                 if length vs > 0 then export_videos rs rnd topic' sk (length vs) 0 n1 vs
                 else ([], [], n1)
             | None \<Rightarrow> ([], [], n1));
          sectionEntity =
            \<lparr>entity_id = sectionId, entity_type = ''section'', status = ''public'',
             labels = [topic'], children = videoIds,
             attributes = [(''title'', name sk), (''description'', description sk)]\<rparr>;
          (es, sectionIds, n3) = export_skills rs rnd topic' n2 sks
      in (ves @ [sectionEntity] @ es, sectionId # sectionIds, n3))"

text \<open>
  \<open>exportToTrainstation\<close> builds the export object (the download and the alert that follow
  do not change it). \<open>rs\<close> holds the random outcomes of this call, \<open>now\<close> its time stamp;
  without a current course nothing is built.
\<close>

definition exportToTrainstation ::
  "random_source \<Rightarrow> (rat \<Rightarrow> rat) \<Rightarrow> string \<Rightarrow> 'a course_structure_scheme option
     \<Rightarrow> trainstation_export option" where
  "exportToTrainstation rs rnd now currentCourse =
     (case currentCourse of
        None \<Rightarrow> None
      | Some c \<Rightarrow>
          (let (rootId, n1) = generateUUID rs 0;
               (es, sectionIds, n2) = export_skills rs rnd (topic c) n1 (skills c);
               rootEntity =
                 \<lparr>entity_id = rootId, entity_type = ''root'', status = ''public'',
                  labels = [], children = sectionIds,
                  attributes =
                    [(''title'', topic c),
                     (''description'', ''AI-genererad kurs om '' @ topic c)]\<rparr>
           in Some \<lparr>export_root = rootId, entities = es @ [rootEntity], exportedAt = now,
                     source = ''CourseCreator''\<rparr>))"

text \<open>
  \<open>displayCourse\<close>, as far as the difficulty goes: for each skill the cards of its videos
  in order, each video with the difficulty that \<^verbatim>\<open>createVideoCard\<close> is given for its badge
  (\<^verbatim>\<open>getDifficultyLevel(videoIndex, skill.videos.length)\<close>); a skill without videos has no
  cards.
\<close>

definition video_cards :: "(rat \<Rightarrow> rat) \<Rightarrow> skill \<Rightarrow> (video \<times> string) list" where
  "video_cards rnd sk =
     (case videos sk of
        Some vs \<Rightarrow>
          if length vs > 0
          then map (\<lambda>(videoIndex, video). (video, getDifficultyLevel rnd videoIndex (length vs)))
                 (enumerate 0 vs)
          else []
      | None \<Rightarrow> [])"

definition displayCourse :: "(rat \<Rightarrow> rat) \<Rightarrow> course_structure \<Rightarrow> (video \<times> string) list list" where
  "displayCourse rnd course = map (video_cards rnd) (skills course)"

text \<open>
  The shape of an identifier: 36 characters, hyphens at positions 8, 13, 18 and 23, the
  digit 4 at position 14, lower-case hexadecimal digits elsewhere.
\<close>

definition uuid_shape :: "string \<Rightarrow> bool" where
  "uuid_shape s \<longleftrightarrow>
     length s = 36
     \<and> (\<forall>i<36. if i \<in> {8, 13, 18, 23} then s ! i = CHR ''-''
               else if i = 14 then s ! i = CHR ''4''
               else s ! i \<in> set ''0123456789abcdef'')"

text \<open>
  The entities of a kind, in the order of the export; and the two readings of ``matches an
  entity'': some entity has the identifier, or exactly one has.
\<close>

definition of_type :: "string \<Rightarrow> trainstation_export \<Rightarrow> entity list" where
  "of_type ty g = filter (\<lambda>e. entity_type e = ty) (entities g)"

definition matches :: "trainstation_export \<Rightarrow> string \<Rightarrow> nat" where
  "matches g ident = length (filter (\<lambda>e. entity_id e = ident) (entities g))"

definition no_orphans :: "trainstation_export \<Rightarrow> bool" where
  "no_orphans g \<longleftrightarrow> (\<forall>e \<in> set (entities g). \<forall>ident \<in> set (children e). 1 \<le> matches g ident)"

definition exactly_one_match :: "trainstation_export \<Rightarrow> bool" where
  "exactly_one_match g \<longleftrightarrow>
     (\<forall>e \<in> set (entities g). \<forall>ident \<in> set (children e). matches g ident = 1)"

text \<open>
  The identifiers that \<open>k\<close> successive calls of \<open>generateUUID\<close> give, the first call
  starting at random call \<open>n\<close>; and when two calls, starting at random calls \<open>a\<close> and
  \<open>b\<close>, see the same draws as far as the identifier shows them (the draw for \<^verbatim>\<open>y\<close> only
  in its two low bits).
\<close>

definition uuids :: "random_source \<Rightarrow> nat \<Rightarrow> nat \<Rightarrow> string list" where
  "uuids rs n k = map (\<lambda>j. fst (generateUUID rs (n + 31 * j))) [0..<k]"

definition same_draws :: "random_source \<Rightarrow> nat \<Rightarrow> nat \<Rightarrow> bool" where
  "same_draws rs a b \<longleftrightarrow>
     (\<forall>i<31. if i = 15 then rs (a + i) AND 3 = rs (b + i) AND 3 else rs (a + i) = rs (b + i))"

text \<open>
  Example courses: one skill without videos; and the spec's example of skill A with three
  videos and skill B with none.
\<close>

text \<open>
  Two random sources for the examples: every draw 0; and draws that are 0 for the first
  identifier, 1 for the second, and so on. And exact arithmetic as the rounding.
\<close>

definition all_zero :: random_source where
  "all_zero n = 0"

definition counting :: random_source where
  "counting n = of_nat (n div 31)"

definition exact :: "rat \<Rightarrow> rat" where
  "exact x = x"

definition example_video :: video where
  "example_video =
     \<lparr>video_id = ''v1'', video_title = ''Video'', thumbnail = ''thumb'',
      channelTitle = ''Channel'', searchTerm = ''t1''\<rparr>"

definition example_course_ab :: course_structure where
  "example_course_ab =
     \<lparr>topic = ''T'',
      skills =
        [\<lparr>name = ''A'', description = ''first'', searchTerms = [],
          videos = Some [example_video, example_video, example_video]\<rparr>,
         \<lparr>name = ''B'', description = ''second'', searchTerms = [], videos = Some []\<rparr>]\<rparr>"


definition example_course :: course_structure where
  "example_course =
     \<lparr>topic = ''T'',
      skills = [\<lparr>name = ''A'', description = ''first'', searchTerms = [], videos = None\<rparr>]\<rparr>"

section \<open>Import of a course file (client script: handleImport)\<close>

text \<open>
  The \<^verbatim>\<open>try\<close> block of the \<^verbatim>\<open>reader.onload\<close> callback up to the point where the course is
  stored or sent: \<^verbatim>\<open>JSON.parse\<close> of the file text (a parameter, \<open>None\<close> when it throws),
  the check, and the \<^verbatim>\<open>savedAt\<close> stamp. Reading \<^verbatim>\<open>course.topic\<close> of \<^verbatim>\<open>null\<close> throws; every
  throw ends in the \<^verbatim>\<open>catch\<close> that reports the failure and stores nothing.
\<close>

datatype import_failure = Parse_error | Type_error | Invalid_structure

definition handleImport ::
  "(string \<Rightarrow> json option) \<Rightarrow> string \<Rightarrow> string \<Rightarrow> import_failure + json" where
  "handleImport json_parse fileText now =
     (case json_parse fileText of
        None \<Rightarrow> Inl Parse_error
      | Some course \<Rightarrow>
          if course = JNull then Inl Type_error
          else if \<not> truthy_prop (property course ''topic'') \<or> \<not> truthy_prop (property course ''skills'')
                  \<or> \<not> isArray (property course ''skills'')
          then Inl Invalid_structure
          else Inr (set_prop course ''savedAt'' (JString now)))"

section \<open>The course store (server: the \<^verbatim>\<open>courses\<close> table and its endpoints)\<close>

text \<open>
  The table of \<^verbatim>\<open>initDb\<close>: \<^verbatim>\<open>id SERIAL PRIMARY KEY\<close>, \<^verbatim>\<open>topic VARCHAR(255) NOT NULL\<close>,
  \<^verbatim>\<open>data JSONB NOT NULL\<close> and the two time stamps (numbers here). The database
  is the rows and the next value of the \<^verbatim>\<open>id\<close> sequence.
\<close>

record row =
  row_id :: nat
  row_topic :: string
  row_data :: json
  created_at :: nat
  updated_at :: nat

record database =
  rows :: "row list"
  next_id :: nat

definition empty_database :: database where
  "empty_database = \<lparr>rows = [], next_id = 1\<rparr>"

text \<open>
  Storing a text in the \<^verbatim>\<open>VARCHAR(255)\<close> column: a text of at most 255 characters is
  stored as it is; a longer one is an error of the statement, except that excess
  characters that are all spaces are cut off.
\<close>

definition varchar255 :: "string \<Rightarrow> string option" where
  "varchar255 s =
     (if length s \<le> 255 then Some s
      else if \<forall>c \<in> set (drop 255 s). c = CHR '' '' then Some (take 255 s)
      else None)"

text \<open>
  The statements of the endpoints: \<^verbatim>\<open>SELECT ... FROM courses ORDER BY updated_at DESC\<close>
  of the listing, and \<^verbatim>\<open>SELECT id ... WHERE topic = $1\<close>,
  \<^verbatim>\<open>UPDATE ... SET data = $1, updated_at ... WHERE topic = $2 RETURNING id\<close> and
  \<^verbatim>\<open>INSERT ... (topic, data) VALUES ($1, $2) RETURNING id\<close> of the save, each with its
  parameters (the topic as text, the course as the document that \<^verbatim>\<open>JSON.stringify\<close>
  writes).
\<close>

datatype statement =
  Select_all
| Select_id string
| Update_data json string
| Insert_row string json

text \<open>
  What belongs to the database server and its driver, and not to this program, is kept in
  three parameters: the text the driver makes of a topic that is not a string; whether
  the server carries out a statement at a given time (it does not when the connection
  fails, the table is missing or a limit of the server is reached); and the document that
  the \<^verbatim>\<open>jsonb\<close> column gives back for a document stored (the same JSON value, with the
  members of its objects in the column's own order).
\<close>

record database_server =
  parameter_text :: "json \<Rightarrow> string"
  accepts :: "nat \<Rightarrow> statement \<Rightarrow> bool"
  jsonb :: "json \<Rightarrow> json"

definition sql_text :: "database_server \<Rightarrow> json \<Rightarrow> string" where
  "sql_text pg v = (case v of JString s \<Rightarrow> s | _ \<Rightarrow> parameter_text pg v)"

text \<open>
  Two refusals of the server are fixed and written out. A text parameter must not hold the
  character U+0000; and a document for a \<^verbatim>\<open>jsonb\<close> column must not hold it in any string or
  member name (\<^verbatim>\<open>JSON.stringify\<close> writes it as the escape \<^verbatim>\<open>\u0000\<close>, which the column
  refuses). A refused statement fails like any other.
\<close>

fun holds_nul :: "json \<Rightarrow> bool" where
  "holds_nul JNull = False"
| "holds_nul (JBool b) = False"
| "holds_nul (JNumber r) = False"
| "holds_nul (JString s) = (CHR 0x00 \<in> set s)"
| "holds_nul (JArray xs) = (\<exists>x \<in> set xs. holds_nul x)"
| "holds_nul (JObject kvs) = (\<exists>p \<in> set kvs. CHR 0x00 \<in> set (fst p) \<or> holds_nul (snd p))"

fun refused :: "statement \<Rightarrow> bool" where
  "refused Select_all = False"
| "refused (Select_id key) = (CHR 0x00 \<in> set key)"
| "refused (Update_data c key) = (holds_nul c \<or> CHR 0x00 \<in> set key)"
| "refused (Insert_row key c) = (CHR 0x00 \<in> set key \<or> holds_nul c)"

definition carried_out :: "database_server \<Rightarrow> nat \<Rightarrow> statement \<Rightarrow> bool" where
  "carried_out pg now s \<longleftrightarrow> accepts pg now s \<and> \<not> refused s"

record save_body =
  success :: bool
  saved_id :: "nat option"
  useLocalStorage :: bool

text \<open>
  \<^verbatim>\<open>POST /api/courses\<close>. \<open>available\<close> is the outcome of the availability probe, \<open>now\<close>
  the time of the request and the value of \<^verbatim>\<open>CURRENT_TIMESTAMP\<close>, \<open>course\<close> is
  \<^verbatim>\<open>req.body.course\<close> (\<open>None\<close> when the body has none). The handler selects the rows of
  the topic, then updates them when there are any and inserts a row otherwise; a statement
  that fails throws, which ends in the \<^verbatim>\<open>catch\<close>, and changes nothing in the table.
\<close>

definition post_courses ::
  "bool \<Rightarrow> database_server \<Rightarrow> nat \<Rightarrow> json option \<Rightarrow> database \<Rightarrow> save_body reply \<times> database" where
  "post_courses available pg now course db =
     (if \<not> available then
        (Sent \<lparr>success = True, saved_id = None, useLocalStorage = True\<rparr>, db)
      else if \<not> truthy_prop course
                \<or> \<not> truthy_prop (case course of Some c \<Rightarrow> property c ''topic'' | None \<Rightarrow> None)
      then (Failed 400 \<lparr>error_message = ''Course data required'', raw = None\<rparr>, db)
      else
        (case course of
           None \<Rightarrow> (Failed 400 \<lparr>error_message = ''Course data required'', raw = None\<rparr>, db)
         | Some c \<Rightarrow>
             (case property c ''topic'' of
                None \<Rightarrow> (Failed 400 \<lparr>error_message = ''Course data required'', raw = None\<rparr>, db)
              | Some t \<Rightarrow>
                  (let key = sql_text pg t;
                       existing = filter (\<lambda>r. row_topic r = key) (rows db)
                   in if \<not> carried_out pg now (Select_id key) then
                        (Failed 500 \<lparr>error_message = ''Failed to save course'', raw = None\<rparr>, db)
                      else if length existing > 0 then
                        (if \<not> carried_out pg now (Update_data c key) then
                           (Failed 500 \<lparr>error_message = ''Failed to save course'',
                                         raw = None\<rparr>, db)
                         else
                           (Sent \<lparr>success = True, saved_id = Some (row_id (hd existing)),
                                  useLocalStorage = False\<rparr>,
                            db\<lparr>rows := map (\<lambda>r. if row_topic r = key
                                                 then r\<lparr>row_data := jsonb pg c, updated_at := now\<rparr>
                                                 else r) (rows db)\<rparr>))
                      else if \<not> carried_out pg now (Insert_row key c) then
                        (Failed 500 \<lparr>error_message = ''Failed to save course'', raw = None\<rparr>, db)
                      else
                        (case varchar255 key of
                           None \<Rightarrow>
                             (Failed 500 \<lparr>error_message = ''Failed to save course'',
                                           raw = None\<rparr>, db)
                         | Some stored \<Rightarrow>
                             (Sent \<lparr>success = True, saved_id = Some (next_id db),
                                    useLocalStorage = False\<rparr>,
                              \<lparr>rows = rows db @ [\<lparr>row_id = next_id db, row_topic = stored,
                                                   row_data = jsonb pg c, created_at = now,
                                                   updated_at = now\<rparr>],
                               next_id = next_id db + 1\<rparr>))))))"

text \<open>
  \<^verbatim>\<open>GET /api/courses\<close>: the rows, most recently updated first (the order among rows of the
  same stamp is the server's; here the later row comes first), each as
  \<^verbatim>\<open>{id: row.id, ...row.data, savedAt: row.updated_at}\<close>. The statement can fail like those
  of the save.
\<close>

definition row_course :: "row \<Rightarrow> json" where
  "row_course r =
     JObject ((''id'', JNumber (of_nat (row_id r)))
              # (case row_data r of JObject kvs \<Rightarrow> kvs | _ \<Rightarrow> [])
              @ [(''savedAt'', JNumber (of_nat (updated_at r)))])"

definition listing :: "database \<Rightarrow> json list" where
  "listing db = map row_course (rev (sort_key updated_at (rows db)))"

definition get_courses ::
  "bool \<Rightarrow> database_server \<Rightarrow> nat \<Rightarrow> database \<Rightarrow> (json list \<times> bool) reply" where
  "get_courses available pg now db =
     (if \<not> available then Sent ([], True)
      else if \<not> carried_out pg now Select_all then
        Failed 500 \<lparr>error_message = ''Failed to get courses'', raw = None\<rparr>
      else Sent (listing db, False))"

text \<open>
  A save request for the course \<open>c\<close>, with the database available, as used in the
  properties below; a sequence of such saves at successive times; the well-formed stores:
  no topic twice; a course whose topic is a non-empty string that fits the column; and
  such a course at a time when the server carries out the statements of its save.
\<close>

definition save :: "database_server \<Rightarrow> nat \<Rightarrow> json \<Rightarrow> database \<Rightarrow> database" where
  "save pg now c db = snd (post_courses True pg now (Some c) db)"

fun saves :: "database_server \<Rightarrow> nat \<Rightarrow> json list \<Rightarrow> database \<Rightarrow> database" where
  "saves pg now [] db = db"
| "saves pg now (c # cs) db = saves pg (Suc now) cs (save pg now c db)"

definition one_row_per_topic :: "database \<Rightarrow> bool" where
  "one_row_per_topic db \<longleftrightarrow> distinct (map row_topic (rows db))"

definition has_topic :: "json \<Rightarrow> string \<Rightarrow> bool" where
  "has_topic c t \<longleftrightarrow> property c ''topic'' = Some (JString t) \<and> t \<noteq> [] \<and> length t \<le> 255"

definition storable :: "database_server \<Rightarrow> nat \<Rightarrow> json \<Rightarrow> string \<Rightarrow> bool" where
  "storable pg now c t \<longleftrightarrow>
     has_topic c t \<and> carried_out pg now (Select_id t)
     \<and> carried_out pg now (Update_data c t) \<and> carried_out pg now (Insert_row t c)"

text \<open>
  Example data for the store: a server that makes the empty text of every topic that is not
  a string, carries out what it does not refuse and keeps documents as they are; two courses
  on the topic X and one on the topic Y; a course whose topic has 256 characters; and a
  course on the topic Y one of whose skills holds the character U+0000.
\<close>

definition example_server :: database_server where
  "example_server = \<lparr>parameter_text = (\<lambda>v. []), accepts = (\<lambda>now s. True), jsonb = (\<lambda>c. c)\<rparr>"

definition course_x :: json where
  "course_x = JObject [(''topic'', JString ''X''), (''skills'', JArray [])]"

definition course_y :: json where
  "course_y = JObject [(''topic'', JString ''Y''), (''skills'', JArray [])]"

definition course_x2 :: json where
  "course_x2 = JObject [(''topic'', JString ''X''), (''skills'', JArray [JString ''s''])]"

definition long_course :: json where
  "long_course = JObject [(''topic'', JString (replicate 256 CHR ''a'')), (''skills'', JArray [])]"

definition nul_course :: json where
  "nul_course =
     JObject [(''topic'', JString ''Y''), (''skills'', JArray [JString [CHR ''a'', CHR 0x00]])]"

text \<open>
  Example data for the import: a file whose course has a number as topic, and the parser
  that reads it.
\<close>

definition numeric_topic_course :: json where
  "numeric_topic_course = JObject [(''topic'', JNumber 5), (''skills'', JArray [])]"

definition parse_numeric_topic :: "string \<Rightarrow> json option" where
  "parse_numeric_topic fileText = Some numeric_topic_course"
section \<open>Properties: difficulty banding\<close>

text \<open>
  Two different ratios \<open>i / t\<close> and \<open>c / 100\<close> with \<open>t < 2\<^sup>3\<^sup>2\<close> are at least
  \<open>1 / (100 t)\<close> apart, far more than twice the rounding error, so the rounded
  comparison agrees with the exact one.
\<close>

lemma gap_below:
  fixes i t c :: nat
  assumes t: "t < 2 ^ 32" and t0: "0 < t" and lt: "100 * i < c * t"
  shows "(of_nat i / of_nat t :: rat) + 2 / 2 ^ 53 < of_nat c / 100"
proof -
  have "100 * i + 1 \<le> c * t" using lt by simp
  then have "(of_nat (100 * i + 1) :: rat) \<le> of_nat (c * t)" by (simp only: of_nat_le_iff)
  then have a: "100 * (of_nat i :: rat) + 1 \<le> of_nat c * of_nat t" by simp
  have tr: "(of_nat t :: rat) < 2 ^ 32" using t by (metis of_nat_less_iff of_nat_numeral of_nat_power)
  have tp: "(0::rat) < of_nat t" using t0 by simp
  have "(200 :: rat) * of_nat t < 2 ^ 53" using tr by simp
  then have b: "(of_nat t :: rat) * (2 / 2 ^ 53) < 1 / 100" by (simp add: field_simps)
  have "(of_nat i :: rat) + of_nat t * (2 / 2 ^ 53) < of_nat c * of_nat t / 100" using a b by (simp add: field_simps)
  then have "((of_nat i :: rat) + of_nat t * (2 / 2 ^ 53)) / of_nat t < (of_nat c * of_nat t / 100) / of_nat t"
    using tp by (simp only: divide_strict_right_mono)
  then show ?thesis using tp by (simp add: field_simps)
qed

lemma gap_above:
  fixes i t c :: nat
  assumes t: "t < 2 ^ 32" and t0: "0 < t" and lt: "c * t < 100 * i"
  shows "(of_nat c / 100 :: rat) + 2 / 2 ^ 53 < of_nat i / of_nat t"
proof -
  have "c * t + 1 \<le> 100 * i" using lt by simp
  then have "(of_nat (c * t + 1) :: rat) \<le> of_nat (100 * i)" by (simp only: of_nat_le_iff)
  then have a: "of_nat c * of_nat t + 1 \<le> 100 * (of_nat i :: rat)" by simp
  have tr: "(of_nat t :: rat) < 2 ^ 32" using t by (metis of_nat_less_iff of_nat_numeral of_nat_power)
  have tp: "(0::rat) < of_nat t" using t0 by simp
  have "(200 :: rat) * of_nat t < 2 ^ 53" using tr by simp
  then have b: "(of_nat t :: rat) * (2 / 2 ^ 53) < 1 / 100" by (simp add: field_simps)
  have "(of_nat c / 100 + 2 / 2 ^ 53) * of_nat t < (of_nat i :: rat)"
    using a b by (simp add: algebra_simps)
  then show ?thesis using tp by (simp only: pos_less_divide_eq)
qed

lemma band_exact:
  fixes i t c :: nat
  assumes acc: "accurate rnd" and t: "t < 2 ^ 32" and it: "i < t" and c: "c \<le> 100"
  shows "rnd (of_nat i / of_nat t) < rnd (of_nat c / 100) \<longleftrightarrow> 100 * i < c * t"
proof -
  have t0: "0 < t" using it by simp
  have q01: "0 \<le> (of_nat i / of_nat t :: rat) \<and> (of_nat i / of_nat t :: rat) \<le> 1"
    using it by simp
  have c01: "0 \<le> (of_nat c / 100 :: rat) \<and> (of_nat c / 100 :: rat) \<le> 1"
    using c by simp
  have eq: "\<bar>rnd (of_nat i / of_nat t) - of_nat i / of_nat t\<bar> \<le> 1 / 2 ^ 53"
    using acc q01 unfolding accurate_def by blast
  have ec: "\<bar>rnd (of_nat c / 100) - of_nat c / 100\<bar> \<le> 1 / 2 ^ 53"
    using acc c01 unfolding accurate_def by blast
  consider (lt) "100 * i < c * t" | (eq) "100 * i = c * t" | (gt) "c * t < 100 * i"
    by linarith
  then show ?thesis
  proof cases
    case lt
    from gap_below [OF t t0 lt] eq ec show ?thesis using lt by linarith
  next
    case eq
    then have "(of_nat (100 * i) :: rat) = of_nat (c * t)" by (simp only:)
    then have "(of_nat i / of_nat t :: rat) = of_nat c / 100"
      using t0 by (simp add: field_simps)
    then have "rnd (of_nat i / of_nat t) = rnd (of_nat c / 100)"
      by (simp only:)
    then show ?thesis using eq by simp
  next
    case gt
    from gap_above [OF t t0 gt] eq ec show ?thesis using gt by linarith
  qed
qed

lemma ratio_less:
  fixes i t c :: nat
  assumes "0 < t"
  shows "(of_nat i / of_nat t :: rat) < of_nat c / 100 \<longleftrightarrow> 100 * i < c * t"
proof -
  have "(of_nat i / of_nat t :: rat) < of_nat c / 100 \<longleftrightarrow> (of_nat (100 * i) :: rat) < of_nat (c * t)"
    using assms by (simp add: field_simps)
  then show ?thesis by (simp only: of_nat_less_iff)
qed

section \<open>Properties: the search of the regular expression\<close>











section \<open>Properties: search enrichment\<close>

lemma merge_initial: "merge st initial_state = st" "merge initial_state st = st"
  by (simp_all add: merge_def initial_state_def)

lemma merge_assoc: "merge (merge a b) c = merge a (merge b c)"
  by (simp add: merge_def)


lemma get_Some:
  "get (Some d) k = (if d = JNull then Inl (Cannot_read k) else Inr (property d k))"
  by (cases d) simp_all

lemma items_branch_effect:
  "items_branch js term items vs st =
     (case items_branch js term items [] initial_state of
        Inl (e, vs', b) \<Rightarrow> Inl (e, vs @ vs', merge st b)
      | Inr (f, vs', b) \<Rightarrow> Inr (f, vs @ vs', merge st b))"
  by (simp add: items_branch_def merge_def initial_state_def Let_def
           split: sum.splits bool.splits option.splits)

lemma items_branch_flow:
  "items_branch js term items vs st = Inr (f, vs', st') \<Longrightarrow> f = Continue"
  by (auto simp: items_branch_def Let_def split: sum.splits bool.splits option.splits)

lemma try_block_effect:
  "try_block js term r vs st =
     (case try_block js term r [] initial_state of
        Inl (e, vs', b) \<Rightarrow> Inl (e, vs @ vs', merge st b)
      | Inr (f, vs', b) \<Rightarrow> Inr (f, vs @ vs', merge st b))"
proof (cases r)
  case (Threw msg)
  then show ?thesis by (simp add: try_block_def merge_def initial_state_def)
next
  case (Data d)
  note ib = items_branch_effect [of js "term" "property d ''items''" vs st]
  show ?thesis
  proof (cases "get (Some d) ''error''")
    case (Inl exn)
    with Data show ?thesis by (simp add: try_block_def merge_def initial_state_def)
  next
    case (Inr e)
    show ?thesis
    proof (cases e)
      case None
      with Data Inr ib show ?thesis by (simp add: try_block_def)
    next
      case (Some err)
      show ?thesis
      proof (cases "truthy err")
        case True
        with Data Inr Some show ?thesis
          by (simp add: try_block_def merge_def initial_state_def Let_def)
      next
        case False
        with Data Inr Some ib show ?thesis by (simp add: try_block_def)
      qed
    qed
  qed
qed

lemma try_block_flow:
  "try_block js term r vs st = Inr (f, vs', st')
     \<Longrightarrow> f = (if quota_response r then Break else Continue)"
  by (auto simp: try_block_def quota_response_def get_Some Let_def
           split: fetch_result.splits option.splits if_splits dest: items_branch_flow)

lemma try_block_throw:
  "try_block js term r vs st = Inl (e, vs', st') \<Longrightarrow> \<not> quota_response r"
  by (auto simp: try_block_def quota_response_def get_Some Let_def
           split: fetch_result.splits option.splits if_splits)

lemma loop_body_flow:
  "fst (loop_body js term r vs st) = (if quota_response r then Break else Continue)"
proof (cases "try_block js term r vs st")
  case (Inl a)
  obtain e vs' st' where a: "a = (e, vs', st')" by (cases a)
  from Inl a try_block_throw [of js "term" r vs st e vs' st'] show ?thesis
    by (simp add: loop_body_def)
next
  case (Inr b)
  obtain f vs' st' where b: "b = (f, vs', st')" by (cases b)
  from Inr b try_block_flow [of js "term" r vs st f vs' st'] show ?thesis
    by (simp add: loop_body_def)
qed

lemma loop_body_eq:
  "loop_body js term r vs st
     = (if quota_response r then Break else Continue, vs @ body_videos js term r,
        merge st (body_effect js term r))"
proof (cases "try_block js term r [] initial_state")
  case (Inl a)
  obtain e vs' b where a: "a = (e, vs', b)" by (cases a) auto
  have t: "try_block js term r vs st = Inl (e, vs @ vs', merge st b)"
    using try_block_effect [of js "term" r vs st] Inl a by simp
  from try_block_throw [OF t] have "\<not> quota_response r" .
  with Inl a t show ?thesis
    by (simp add: loop_body_def body_videos_def body_effect_def merge_def)
next
  case (Inr c)
  obtain f vs' b where c: "c = (f, vs', b)" by (cases c) auto
  have t: "try_block js term r vs st = Inr (f, vs @ vs', merge st b)"
    using try_block_effect [of js "term" r vs st] Inr c by simp
  from try_block_flow [OF t] have "f = (if quota_response r then Break else Continue)" .
  with Inr c t show ?thesis
    by (simp add: loop_body_def body_videos_def body_effect_def)
qed

lemma term_loop_Cons:
  "term_loop js t i r j (term # rest) vs st =
     (if quota_response (r j)
      then (vs @ body_videos js term (r j),
            merge (st\<lparr>totalSearches := totalSearches st + 1,
                       requests := requests st @ [(i, searchQuery (text_of js term) t)]\<rparr>)
                  (body_effect js term (r j)))
      else term_loop js t i r (Suc j) rest (vs @ body_videos js term (r j))
             (merge (st\<lparr>totalSearches := totalSearches st + 1,
                        requests := requests st @ [(i, searchQuery (text_of js term) t)]\<rparr>)
                    (body_effect js term (r j))))"
  by (simp add: loop_body_eq Let_def)

declare term_loop.simps(2) [simp del]






lemma term_loop_videos_indep:
  "fst (term_loop js t i r j ts vs st) = fst (term_loop js t' i' r j ts vs st0)"
proof (induction ts arbitrary: j vs st st0)
  case Nil
  then show ?case by simp
next
  case (Cons a ts)
  show ?case
    by (simp add: term_loop_Cons Cons.IH [of "Suc j" _ _ "_"])
qed












lemma enrich_from_nth:
  "m < length sks \<Longrightarrow>
     fst (enrich_from js t w i sks st) ! m
       = with_videos (fst (sks ! m))
           (fst (term_loop js t (i + m) (w (i + m)) 0 (snd (sks ! m)) [] initial_state))"
proof (induction sks arbitrary: i st m)
  case Nil
  then show ?case by simp
next
  case (Cons sk sks)
  show ?case
  proof (cases m)
    case 0
    then show ?thesis
      using term_loop_videos_indep [of js t i "w i" 0 "snd sk" "[]" st t i initial_state]
      by (simp add: case_prod_beta)
  next
    case (Suc m')
    with Cons.prems have "m' < length sks" by simp
    from Cons.IH [OF this, of "Suc i"] Suc show ?thesis by (simp add: case_prod_beta)
  qed
qed

lemma enrich_from_length: "length (fst (enrich_from js t w i sks st)) = length sks"
  by (induction sks arbitrary: i st) (simp_all add: case_prod_beta)


lemma body_videos_plain:
  "benign js r \<Longrightarrow> loop_body_plain js term r vs = vs @ body_videos js term r"
  by (auto simp: benign_def loop_body_plain_def body_videos_def loop_body_def try_block_def
                 items_branch_def get_Some Let_def
           split: fetch_result.splits option.splits if_splits sum.splits bool.splits)

lemma benign_no_quota: "benign js r \<Longrightarrow> \<not> quota_response r"
  by (auto simp: benign_def quota_response_def split: fetch_result.splits option.splits)

lemma term_loop_plain_eq:
  "\<forall>m<length ts. benign js (r (j + m)) \<Longrightarrow>
     fst (term_loop js t i r j ts vs st) = term_loop_plain js r j ts vs"
proof (induction ts arbitrary: j vs st)
  case Nil
  then show ?case by simp
next
  case (Cons a ts)
  from Cons.prems have b: "benign js (r j)" by force
  have ih: "\<And>vs st. fst (term_loop js t i r (Suc j) ts vs st) = term_loop_plain js r (Suc j) ts vs"
  proof (rule Cons.IH, intro allI impI)
    fix m assume "m < length ts"
    then have "Suc m < length (a # ts)" by simp
    with Cons.prems have "benign js (r (j + Suc m))" by blast
    then show "benign js (r (Suc j + m))" by simp
  qed
  from b show ?case
    by (simp add: term_loop_Cons ih benign_no_quota body_videos_plain)
qed

lemma enrich_plain_from_nth:
  "m < length sks \<Longrightarrow>
     enrich_plain_from js w i sks ! m
       = with_videos (fst (sks ! m)) (term_loop_plain js (w (i + m)) 0 (snd (sks ! m)) [])"
proof (induction sks arbitrary: i m)
  case Nil
  then show ?case by simp
next
  case (Cons sk sks)
  show ?case
  proof (cases m)
    case 0
    then show ?thesis by simp
  next
    case (Suc m')
    with Cons.prems have "m' < length sks" by simp
    from Cons.IH [OF this, of "Suc i"] Suc show ?thesis by simp
  qed
qed

lemma enrich_plain_from_length: "length (enrich_plain_from js w i sks) = length sks"
  by (induction sks arbitrary: i) simp_all
section \<open>Properties: the loops as interleaved tasks\<close>

lemma run_alone_begin_term:
  "run_alone js t i r (fst (begin_term js t i j terms vs st))
       (snd (begin_term js t i j terms vs st))
     = term_loop js t i r j terms vs st"
  by (cases terms)
     (simp_all add: begin_term_def run_alone_def term_loop.simps(2) Let_def
               split: prod.splits flow.splits)

lemma run_alone_returned: "waiting tk = None \<Longrightarrow> run_alone js t i r tk st = (found tk, st)"
  by (simp add: run_alone_def)

lemma run_alone_deliver:
  "run_alone js t i r (fst (deliver js t i r tk st)) (snd (deliver js t i r tk st))
     = run_alone js t i r tk st"
proof (cases "waiting tk")
  case None
  then show ?thesis by (simp add: deliver_def)
next
  case (Some a)
  obtain j tm where a: "a = (j, tm)" by (cases a)
  note w = Some [unfolded a]
  obtain f vs2 st2 where b: "loop_body js tm (r j) (found tk) st = (f, vs2, st2)"
    by (cases "loop_body js tm (r j) (found tk) st") auto
  show ?thesis
  proof (cases f)
    case Break
    with w b show ?thesis by (simp add: deliver_def run_alone_def)
  next
    case Continue
    with w b show ?thesis
      by (simp add: deliver_def run_alone_begin_term run_alone_def [of js t i r tk])
  qed
qed

lemma merge_search:
  "(merge a b)\<lparr>totalSearches := Suc (totalSearches (merge a b)),
                requests := requests (merge a b) @ [q]\<rparr>
     = merge a (b\<lparr>totalSearches := Suc (totalSearches b), requests := requests b @ [q]\<rparr>)"
  by (simp add: merge_def)

lemma term_loop_merge:
  "term_loop js t i r j ts vs (merge a b) =
     (fst (term_loop js t i r j ts vs b), merge a (snd (term_loop js t i r j ts vs b)))"
proof (induction ts arbitrary: j vs b)
  case Nil
  then show ?case by simp
next
  case (Cons x ts)
  show ?case
    by (simp add: term_loop_Cons merge_search merge_assoc Cons.IH)
qed

lemma begin_term_merge:
  "begin_term js t i j terms vs (merge a b) =
     (fst (begin_term js t i j terms vs b), merge a (snd (begin_term js t i j terms vs b)))"
  by (cases terms) (simp_all add: begin_term_def merge_search)

lemma run_alone_merge:
  "run_alone js t i r tk (merge a b) =
     (fst (run_alone js t i r tk b), merge a (snd (run_alone js t i r tk b)))"
proof (cases "waiting tk")
  case None
  then show ?thesis by (simp add: run_alone_def)
next
  case (Some p)
  obtain j tm where p: "p = (j, tm)" by (cases p)
  show ?thesis
    by (simp add: run_alone_def Some p loop_body_eq merge_assoc term_loop_merge)
qed

lemma run_alone_todo:
  "run_alone js t i r tk st
     = (fst (run_alone js t i r tk initial_state), merge st (todo js t i r tk))"
  using run_alone_merge [of js t i r tk st initial_state] by (simp add: merge_initial todo_def)

lemma deliver_todo:
  "merge (snd (deliver js t i r tk st)) (todo js t i r (fst (deliver js t i r tk st)))
     = merge st (todo js t i r tk)"
  and deliver_videos:
  "fst (run_alone js t i r (fst (deliver js t i r tk st)) initial_state)
     = fst (run_alone js t i r tk initial_state)"
proof -
  let ?tk' = "fst (deliver js t i r tk st)" and ?st' = "snd (deliver js t i r tk st)"
  have "run_alone js t i r ?tk' ?st' = run_alone js t i r tk st" by (rule run_alone_deliver)
  then have "(fst (run_alone js t i r ?tk' initial_state), merge ?st' (todo js t i r ?tk'))
           = (fst (run_alone js t i r tk initial_state), merge st (todo js t i r tk))"
    by (simp only: run_alone_todo [symmetric])
  then show "merge ?st' (todo js t i r ?tk') = merge st (todo js t i r tk)"
    and "fst (run_alone js t i r ?tk' initial_state) = fst (run_alone js t i r tk initial_state)"
    by simp_all
qed

lemma begin_term_todo:
  "merge (snd (begin_term js t i j terms vs st))
         (todo js t i r (fst (begin_term js t i j terms vs st)))
     = merge st (snd (term_loop js t i r j terms vs initial_state))"
  and begin_term_videos:
  "fst (run_alone js t i r (fst (begin_term js t i j terms vs st)) initial_state)
     = fst (term_loop js t i r j terms vs initial_state)"
proof -
  let ?tk = "fst (begin_term js t i j terms vs st)"
  let ?st1 = "snd (begin_term js t i j terms vs st)"
  have "run_alone js t i r ?tk ?st1 = term_loop js t i r j terms vs st"
    by (rule run_alone_begin_term)
  moreover have "term_loop js t i r j terms vs st
      = (fst (term_loop js t i r j terms vs initial_state),
         merge st (snd (term_loop js t i r j terms vs initial_state)))"
    using term_loop_merge [of js t i r j terms vs st initial_state] by (simp add: merge_initial)
  ultimately have "(fst (run_alone js t i r ?tk initial_state), merge ?st1 (todo js t i r ?tk))
      = (fst (term_loop js t i r j terms vs initial_state),
         merge st (snd (term_loop js t i r j terms vs initial_state)))"
    by (simp only: run_alone_todo [symmetric])
  then show "merge ?st1 (todo js t i r ?tk)
               = merge st (snd (term_loop js t i r j terms vs initial_state))"
    and "fst (run_alone js t i r ?tk initial_state)
           = fst (term_loop js t i r j terms vs initial_state)"
    by simp_all
qed


lemma sum_todo_update:
  "k < length tks \<Longrightarrow>
     sum_todo m js t w i (tks[k := tk']) + m (todo js t (i + k) (w (i + k)) (tks ! k))
       = sum_todo m js t w i tks + m (todo js t (i + k) (w (i + k)) tk')"
proof (induction tks arbitrary: i k)
  case Nil
  then show ?case by simp
next
  case (Cons x tks)
  show ?case
  proof (cases k)
    case 0
    then show ?thesis by (simp add: ac_simps)
  next
    case (Suc k')
    with Cons.prems have "k' < length tks" by simp
    from Cons.IH [OF this, of "Suc i"] Suc show ?thesis by (simp add: ac_simps)
  qed
qed

lemma sum_todo_returned:
  "all_returned tks \<Longrightarrow> m initial_state = 0 \<Longrightarrow> sum_todo m js t w i tks = 0"
  by (induction tks arbitrary: i)
     (simp_all add: all_returned_def todo_def run_alone_returned)

lemma length_arrive: "length (fst (arrive js t w k cfg)) = length (fst cfg)"
  by (simp add: arrive_def case_prod_beta)

lemma arrive_potential:
  assumes hm: "\<And>a b. m (merge a b) = m a + m b"
  shows "m (snd (arrive js t w k cfg)) + sum_todo m js t w 0 (fst (arrive js t w k cfg))
           = m (snd cfg) + sum_todo m js t w 0 (fst cfg)"
proof (cases "k < length (fst cfg)")
  case False
  then show ?thesis by (simp add: arrive_def)
next
  case True
  let ?tk = "fst cfg ! k"
  let ?d = "deliver js t k (w k) ?tk (snd cfg)"
  have a: "arrive js t w k cfg = ((fst cfg)[k := fst ?d], snd ?d)"
    using True by (simp add: arrive_def case_prod_beta)
  have "m (merge (snd ?d) (todo js t k (w k) (fst ?d))) = m (merge (snd cfg) (todo js t k (w k) ?tk))"
    by (simp only: deliver_todo)
  then have 1: "m (snd ?d) + m (todo js t k (w k) (fst ?d)) = m (snd cfg) + m (todo js t k (w k) ?tk)"
    by (simp only: hm)
  have 2: "sum_todo m js t w 0 ((fst cfg)[k := fst ?d]) + m (todo js t k (w k) ?tk)
         = sum_todo m js t w 0 (fst cfg) + m (todo js t k (w k) (fst ?d))"
    using sum_todo_update [OF True, of m js t w 0 "fst ?d"] by simp
  have "(m (snd ?d) + sum_todo m js t w 0 ((fst cfg)[k := fst ?d]))
          + (m (todo js t k (w k) (fst ?d)) + m (todo js t k (w k) ?tk))
      = (m (snd ?d) + m (todo js t k (w k) (fst ?d)))
          + (sum_todo m js t w 0 ((fst cfg)[k := fst ?d]) + m (todo js t k (w k) ?tk))"
    by (simp only: ac_simps)
  also have "\<dots> = (m (snd cfg) + m (todo js t k (w k) ?tk))
          + (sum_todo m js t w 0 (fst cfg) + m (todo js t k (w k) (fst ?d)))"
    by (simp only: 1 2)
  also have "\<dots> = (m (snd cfg) + sum_todo m js t w 0 (fst cfg))
          + (m (todo js t k (w k) (fst ?d)) + m (todo js t k (w k) ?tk))"
    by (simp only: ac_simps)
  finally have "m (snd ?d) + sum_todo m js t w 0 ((fst cfg)[k := fst ?d])
      = m (snd cfg) + sum_todo m js t w 0 (fst cfg)"
    by (simp only: add_right_cancel)
  then show ?thesis unfolding a by simp
qed

lemma arrive_videos:
  "p < length (fst cfg) \<Longrightarrow>
     fst (run_alone js t p (w p) (fst (arrive js t w k cfg) ! p) initial_state)
       = fst (run_alone js t p (w p) (fst cfg ! p) initial_state)"
  by (cases "p = k") (simp_all add: arrive_def case_prod_beta deliver_videos)

lemma length_run: "length (fst (run js t w schedule cfg)) = length (fst cfg)"
  by (induction schedule arbitrary: cfg) (simp_all add: length_arrive)

lemma run_potential:
  assumes hm: "\<And>a b. m (merge a b) = m a + m b"
  shows "m (snd (run js t w schedule cfg)) + sum_todo m js t w 0 (fst (run js t w schedule cfg))
           = m (snd cfg) + sum_todo m js t w 0 (fst cfg)"
  by (induction schedule arbitrary: cfg) (simp_all add: arrive_potential [OF hm])

lemma run_videos:
  "p < length (fst cfg) \<Longrightarrow>
     fst (run_alone js t p (w p) (fst (run js t w schedule cfg) ! p) initial_state)
       = fst (run_alone js t p (w p) (fst cfg ! p) initial_state)"
  by (induction schedule arbitrary: cfg) (simp_all add: arrive_videos length_arrive)


lemma start_all_merge:
  "start_all js t i sks (merge a b) =
     (fst (start_all js t i sks b), merge a (snd (start_all js t i sks b)))"
proof (induction sks arbitrary: i b)
  case Nil
  then show ?case by simp
next
  case (Cons sk sks)
  show ?case
    by (simp add: case_prod_beta begin_term_merge [of js t i 0 "snd sk" "[]" a b] Cons.IH)
qed

lemma enrich_from_merge:
  "enrich_from js t w i sks (merge a b) =
     (fst (enrich_from js t w i sks b), merge a (snd (enrich_from js t w i sks b)))"
proof (induction sks arbitrary: i b)
  case Nil
  then show ?case by simp
next
  case (Cons sk sks)
  show ?case
    by (simp add: case_prod_beta term_loop_merge [of js t i "w i" 0 "snd sk" "[]" a b]
                  Cons.IH)
qed

lemma length_start_all: "length (fst (start_all js t i sks st)) = length sks"
  by (induction sks arbitrary: i st) (simp_all add: case_prod_beta)

lemma start_potential:
  assumes hm: "\<And>a b. m (merge a b) = m a + m b"
  shows "m (snd (start_all js t i sks st)) + sum_todo m js t w i (fst (start_all js t i sks st))
           = m (snd (enrich_from js t w i sks st))"
proof (induction sks arbitrary: i st)
  case Nil
  then show ?case by simp
next
  case (Cons sk sks)
  let ?b = "begin_term js t i 0 (snd sk) [] st"
  let ?l = "term_loop js t i (w i) 0 (snd sk) [] st"
  let ?d = "snd (term_loop js t i (w i) 0 (snd sk) [] initial_state)"
  have l: "snd ?l = merge st ?d"
    using term_loop_merge [of js t i "w i" 0 "snd sk" "[]" st initial_state]
    by (simp add: merge_initial)
  have s: "start_all js t (Suc i) sks (snd ?b)
         = (fst (start_all js t (Suc i) sks initial_state),
            merge (snd ?b) (snd (start_all js t (Suc i) sks initial_state)))"
    using start_all_merge [of js t "Suc i" sks "snd ?b" initial_state] by (simp add: merge_initial)
  have e: "enrich_from js t w (Suc i) sks (snd ?l)
         = (fst (enrich_from js t w (Suc i) sks initial_state),
            merge (snd ?l) (snd (enrich_from js t w (Suc i) sks initial_state)))"
    using enrich_from_merge [of js t w "Suc i" sks "snd ?l" initial_state]
    by (simp add: merge_initial)
  have b: "m (snd ?b) + m (todo js t i (w i) (fst ?b)) = m st + m ?d"
    using arg_cong [OF begin_term_todo [of js t i 0 "snd sk" "[]" st "w i"], of m]
    by (simp only: hm)
  have ih: "m (snd (start_all js t (Suc i) sks initial_state))
              + sum_todo m js t w (Suc i) (fst (start_all js t (Suc i) sks initial_state))
           = m (snd (enrich_from js t w (Suc i) sks initial_state))"
    by (rule Cons.IH)
  have "m (snd (start_all js t i (sk # sks) st)) + sum_todo m js t w i (fst (start_all js t i (sk # sks) st))
      = (m (snd ?b) + m (snd (start_all js t (Suc i) sks initial_state)))
        + (m (todo js t i (w i) (fst ?b))
           + sum_todo m js t w (Suc i) (fst (start_all js t (Suc i) sks initial_state)))"
    by (simp add: case_prod_beta s hm)
  also have "\<dots> = (m (snd ?b) + m (todo js t i (w i) (fst ?b)))
        + (m (snd (start_all js t (Suc i) sks initial_state))
           + sum_todo m js t w (Suc i) (fst (start_all js t (Suc i) sks initial_state)))"
    by (simp only: ac_simps)
  also have "\<dots> = (m st + m ?d) + m (snd (enrich_from js t w (Suc i) sks initial_state))"
    by (simp only: b ih)
  also have "\<dots> = m (merge st ?d) + m (snd (enrich_from js t w (Suc i) sks initial_state))"
    by (simp only: hm)
  also have "\<dots> = m (merge (snd ?l) (snd (enrich_from js t w (Suc i) sks initial_state)))"
    by (simp only: hm l)
  also have "\<dots> = m (snd (enrich_from js t w (Suc i) sks (snd ?l)))"
    by (simp only: e snd_conv)
  also have "\<dots> = m (snd (enrich_from js t w i (sk # sks) st))"
    by (simp add: case_prod_beta)
  finally show ?case .
qed

lemma start_videos:
  "p < length sks \<Longrightarrow>
     fst (run_alone js t (i + p) (w (i + p)) (fst (start_all js t i sks st) ! p) initial_state)
       = fst (term_loop js t (i + p) (w (i + p)) 0 (snd (sks ! p)) [] initial_state)"
proof (induction sks arbitrary: i st p)
  case Nil
  then show ?case by simp
next
  case (Cons sk sks)
  show ?case
  proof (cases p)
    case 0
    then show ?thesis by (simp add: case_prod_beta begin_term_videos)
  next
    case (Suc p')
    with Cons.prems have "p' < length sks" by simp
    from Cons.IH [OF this, of "Suc i"] Suc show ?thesis by (simp add: case_prod_beta)
  qed
qed

text \<open>
  In whatever order the answers arrive, once every callback has returned the joined
  result and the counters are those of the loops composed in skill order, and the error
  and request lists hold the same entries, possibly in another order.
\<close>

theorem every_schedule_agrees:
  assumes r: "run js t w schedule (start_all js t 0 sks initial_state) = (tasks, st)"
      and fin: "all_returned tasks"
  shows "joined sks tasks = fst (skillsWithVideos js t w sks)"
    and "totalSearches st = totalSearches (snd (skillsWithVideos js t w sks))"
    and "successfulSearches st = successfulSearches (snd (skillsWithVideos js t w sks))"
    and "failedSearches st = failedSearches (snd (skillsWithVideos js t w sks))"
    and "mset (youtubeErrors st) = mset (youtubeErrors (snd (skillsWithVideos js t w sks)))"
    and "mset (requests st) = mset (requests (snd (skillsWithVideos js t w sks)))"
proof -
  let ?c0 = "start_all js t 0 sks initial_state"
  have tasks: "tasks = fst (run js t w schedule ?c0)" and st: "st = snd (run js t w schedule ?c0)"
    using r by simp_all
  have len: "length tasks = length sks"
    by (simp add: tasks length_run length_start_all)
  have pot: "\<And>m :: search_state \<Rightarrow> 'a::cancel_comm_monoid_add.
      (\<And>a b. m (merge a b) = m a + m b) \<Longrightarrow> m initial_state = 0
        \<Longrightarrow> m st = m (snd (skillsWithVideos js t w sks))"
  proof -
    fix m :: "search_state \<Rightarrow> 'a::cancel_comm_monoid_add"
    assume hm: "\<And>a b. m (merge a b) = m a + m b" and z: "m initial_state = 0"
    have "m st + sum_todo m js t w 0 tasks = m (snd ?c0) + sum_todo m js t w 0 (fst ?c0)"
      unfolding tasks st by (rule run_potential [OF hm])
    also have "\<dots> = m (snd (enrich_from js t w 0 sks initial_state))"
      by (rule start_potential [OF hm])
    finally show "m st = m (snd (skillsWithVideos js t w sks))"
      by (simp add: sum_todo_returned [of tasks m js t w 0, OF fin z] skillsWithVideos_def)
  qed
  show "totalSearches st = totalSearches (snd (skillsWithVideos js t w sks))"
    by (rule pot [of totalSearches]) (simp_all add: merge_def initial_state_def)
  show "successfulSearches st = successfulSearches (snd (skillsWithVideos js t w sks))"
    by (rule pot [of successfulSearches]) (simp_all add: merge_def initial_state_def)
  show "failedSearches st = failedSearches (snd (skillsWithVideos js t w sks))"
    by (rule pot [of failedSearches]) (simp_all add: merge_def initial_state_def)
  show "mset (youtubeErrors st) = mset (youtubeErrors (snd (skillsWithVideos js t w sks)))"
    by (rule pot [of "\<lambda>s. mset (youtubeErrors s)"]) (simp_all add: merge_def initial_state_def)
  show "mset (requests st) = mset (requests (snd (skillsWithVideos js t w sks)))"
    by (rule pot [of "\<lambda>s. mset (requests s)"]) (simp_all add: merge_def initial_state_def)
  show "joined sks tasks = fst (skillsWithVideos js t w sks)"
  proof (rule nth_equalityI)
    show "length (joined sks tasks) = length (fst (skillsWithVideos js t w sks))"
      by (simp add: joined_def len skillsWithVideos_def enrich_from_length)
  next
    fix p assume "p < length (joined sks tasks)"
    then have p: "p < length sks" by (simp add: joined_def len)
    then have pt: "p < length tasks" by (simp add: len)
    with fin have "waiting (tasks ! p) = None" by (simp add: all_returned_def)
    then have "found (tasks ! p) = fst (run_alone js t p (w p) (tasks ! p) initial_state)"
      by (simp add: run_alone_returned)
    also have "\<dots> = fst (run_alone js t p (w p) (fst ?c0 ! p) initial_state)"
      unfolding tasks using p by (simp add: run_videos length_start_all)
    also have "\<dots> = fst (term_loop js t p (w p) 0 (snd (sks ! p)) [] initial_state)"
      using start_videos [OF p, of js t 0 w initial_state] by simp
    finally show "joined sks tasks ! p = fst (skillsWithVideos js t w sks) ! p"
      using p pt by (simp add: joined_def skillsWithVideos_def enrich_from_nth)
  qed
qed

lemma answers_left_begin_term:
  "answers_left (fst (begin_term js t i j terms vs st)) = length terms"
  by (cases terms) (simp_all add: begin_term_def answers_left_def)

lemma answers_left_deliver:
  "answers_left (fst (deliver js t i r tk st)) \<le> answers_left tk - 1"
proof (cases "waiting tk")
  case None
  then show ?thesis by (simp add: deliver_def answers_left_def)
next
  case (Some a)
  obtain j tm where a: "a = (j, tm)" by (cases a)
  have l: "answers_left tk - 1 = length (pending tk)"
    by (simp add: answers_left_def Some)
  obtain f vs2 st2 where b: "loop_body js tm (r j) (found tk) st = (f, vs2, st2)"
    by (cases "loop_body js tm (r j) (found tk) st") auto
  show ?thesis
  proof (cases f)
    case Break
    with b show ?thesis by (simp add: deliver_def Some a answers_left_def)
  next
    case Continue
    with b show ?thesis unfolding l by (simp add: deliver_def Some a answers_left_begin_term)
  qed
qed

lemma answers_left_arrive:
  "p < length (fst cfg) \<Longrightarrow>
     answers_left (fst (arrive js t w k cfg) ! p)
       \<le> answers_left (fst cfg ! p) - (if p = k then 1 else 0)"
  using answers_left_deliver [of js t k "w k" "fst cfg ! k" "snd cfg"]
  by (cases "p = k") (simp_all add: arrive_def case_prod_beta)

lemma answers_left_run:
  "p < length (fst cfg) \<Longrightarrow>
     answers_left (fst (run js t w schedule cfg) ! p)
       \<le> answers_left (fst cfg ! p) - count_list schedule p"
proof (induction schedule arbitrary: cfg)
  case Nil
  then show ?case by simp
next
  case (Cons k schedule)
  have p: "p < length (fst (arrive js t w k cfg))" using Cons.prems by (simp add: length_arrive)
  have "answers_left (fst (run js t w (k # schedule) cfg) ! p)
          \<le> answers_left (fst (arrive js t w k cfg) ! p) - count_list schedule p"
    using Cons.IH [OF p] by simp
  also have "\<dots> \<le> (answers_left (fst cfg ! p) - (if p = k then 1 else 0))
                    - count_list schedule p"
    using answers_left_arrive [OF Cons.prems, of js t w k] by (rule diff_le_mono)
  also have "\<dots> = answers_left (fst cfg ! p) - count_list (k # schedule) p"
    by simp
  finally show ?case .
qed

lemma answers_left_start:
  "p < length sks \<Longrightarrow>
     answers_left (fst (start_all js t i sks st) ! p) = length (snd (sks ! p))"
proof (induction sks arbitrary: i st p)
  case Nil
  then show ?case by simp
next
  case (Cons sk sks)
  show ?case
  proof (cases p)
    case 0
    then show ?thesis by (simp add: case_prod_beta answers_left_begin_term)
  next
    case (Suc p')
    with Cons.prems have "p' < length sks" by simp
    from Cons.IH [OF this, of "Suc i"] Suc show ?thesis by (simp add: case_prod_beta)
  qed
qed

text \<open>
  Every callback returns: once each skill has had as many answers as it has terms, no task
  waits any more.
\<close>

theorem enough_answers_return:
  assumes "\<forall>p<length sks. length (snd (sks ! p)) \<le> count_list schedule p"
  shows "all_returned (fst (run js t w schedule (start_all js t 0 sks initial_state)))"
  unfolding all_returned_def
proof
  fix tk assume "tk \<in> set (fst (run js t w schedule (start_all js t 0 sks initial_state)))"
  then obtain p where p: "p < length sks"
    and tk: "tk = fst (run js t w schedule (start_all js t 0 sks initial_state)) ! p"
    by (auto simp: in_set_conv_nth length_run length_start_all)
  have "answers_left tk
          \<le> answers_left (fst (start_all js t 0 sks initial_state) ! p) - count_list schedule p"
    unfolding tk using p by (intro answers_left_run) (simp add: length_start_all)
  also have "\<dots> = 0" using assms p by (simp add: answers_left_start)
  finally show "waiting tk = None" by (simp add: answers_left_def split: option.splits)
qed


lemma count_list_replicate: "count_list (replicate n x) y = (if x = y then n else 0)"
  by (induction n) auto

lemma count_list_remaining:
  "count_list (remaining i sks) p
     = (if i \<le> p \<and> p < i + length sks then length (snd (sks ! (p - i))) else 0)"
proof (induction sks arbitrary: i)
  case Nil
  then show ?case by auto
next
  case (Cons sk sks)
  consider (before) "p < i" | (here) "p = i" | (after) "i < p" by linarith
  then show ?case
  proof cases
    case before
    then show ?thesis by (simp add: count_list_replicate Cons.IH)
  next
    case here
    with Cons.IH [of "Suc i"] show ?thesis by (simp add: count_list_replicate)
  next
    case after
    then obtain d where d: "p - i = Suc d" "p - Suc i = d"
      by (metis Suc_diff_Suc diff_Suc_eq_diff_pred diff_Suc_1)
    from after show ?thesis by (auto simp: count_list_replicate Cons.IH d)
  qed
qed

text \<open>
  The handler's wait ends with every callback returned, whatever the schedule; so its
  result is that of the loops composed in skill order, but for the order of the entries
  in the error and request lists.
\<close>

lemma await_all_returned:
  "all_returned (fst (run js t w (schedule @ remaining 0 sks)
                        (start_all js t 0 sks initial_state)))"
  by (rule enough_answers_return) (simp add: count_list_remaining)

lemma await_all_agrees:
  "fst (await_all js t w schedule sks) = fst (skillsWithVideos js t w sks)"
  "totalSearches (snd (await_all js t w schedule sks))
     = totalSearches (snd (skillsWithVideos js t w sks))"
  "successfulSearches (snd (await_all js t w schedule sks))
     = successfulSearches (snd (skillsWithVideos js t w sks))"
  "failedSearches (snd (await_all js t w schedule sks))
     = failedSearches (snd (skillsWithVideos js t w sks))"
  "mset (youtubeErrors (snd (await_all js t w schedule sks)))
     = mset (youtubeErrors (snd (skillsWithVideos js t w sks)))"
  "mset (requests (snd (await_all js t w schedule sks)))
     = mset (requests (snd (skillsWithVideos js t w sks)))"
proof -
  let ?cfg = "run js t w (schedule @ remaining 0 sks) (start_all js t 0 sks initial_state)"
  have r: "?cfg = (fst ?cfg, snd ?cfg)" by simp
  have a: "await_all js t w schedule sks = (joined sks (fst ?cfg), snd ?cfg)"
    by (simp add: await_all_def case_prod_beta)
  note agree = every_schedule_agrees [OF r await_all_returned]
  show "fst (await_all js t w schedule sks) = fst (skillsWithVideos js t w sks)"
    unfolding a using agree(1) by simp
  show "totalSearches (snd (await_all js t w schedule sks))
     = totalSearches (snd (skillsWithVideos js t w sks))"
    unfolding a using agree(2) by simp
  show "successfulSearches (snd (await_all js t w schedule sks))
     = successfulSearches (snd (skillsWithVideos js t w sks))"
    unfolding a using agree(3) by simp
  show "failedSearches (snd (await_all js t w schedule sks))
     = failedSearches (snd (skillsWithVideos js t w sks))"
    unfolding a using agree(4) by simp
  show "mset (youtubeErrors (snd (await_all js t w schedule sks)))
     = mset (youtubeErrors (snd (skillsWithVideos js t w sks)))"
    unfolding a using agree(5) by simp
  show "mset (requests (snd (await_all js t w schedule sks)))
     = mset (requests (snd (skillsWithVideos js t w sks)))"
    unfolding a using agree(6) by simp
qed
section \<open>Properties: the quota stop and the counters\<close>

lemma property_set_prop: "property (set_prop (JObject kvs) k v) k = Some v"
proof (cases "k \<in> fst ` set kvs")
  case False
  then show ?thesis by simp
next
  case True
  have "k \<in> fst ` set xs \<Longrightarrow>
          map_of (rev (map (\<lambda>(k', v'). if k' = k then (k', v) else (k', v')) xs)) k = Some v"
    for xs :: "(string \<times> json) list"
  proof (induction xs)
    case Nil
    then show ?case by simp
  next
    case (Cons x xs)
    obtain k' v' where x: "x = (k', v')" by (cases x)
    show ?case
    proof (cases "k \<in> fst ` set xs")
      case True
      with Cons.IH show ?thesis by (simp add: x map_add_def)
    next
      case False
      with Cons.prems have kk: "k' = k" by (simp add: x)
      from False have "map_of (rev (map (\<lambda>(k', v'). if k' = k then (k', v) else (k', v')) xs)) k
                         = None"
        by (simp add: map_of_eq_None_iff image_image case_prod_beta)
           (force simp: image_iff)
      with kk show ?thesis by (simp add: x map_add_def)
    qed
  qed
  with True show ?thesis by simp
qed

lemma found_videos_with_videos: "found_videos (with_videos (JObject kvs) vs) = vs"
  unfolding found_videos_def with_videos_def by (simp only: property_set_prop) simp



text \<open>
  Claim C8. The claim has \<open>totalSearches = successfulSearches + failedSearches\<close> on
  completion. The handler counts a success as soon as the answer holds a result, before it
  reads the result; when that read throws (here the result has no thumbnails), the \<^verbatim>\<open>catch\<close>
  counts a failure for the same search. One search, answered with such a result, is sent
  back counted once as a search, once as a success and once as a failure, with no video.
\<close>

theorem unreadable_result_counted_twice:
  "generate_full_course example_js (\<lambda>s. Some small_structure) ''T'' (Some ''{}'') ''key''
       (\<lambda>i j. Data (JObject [(''items'', JArray [item_without_thumbnails])])) [] ''now''
     = Sent (Course
         \<lparr>response_topic = Some (JString ''T''),
          response_skills = [with_videos skill_b []],
          generatedAt = ''now'',
          debug = Some \<lparr>debug_totalSearches = 1, debug_successfulSearches = 1,
                          debug_failedSearches = 1,
                          debug_errors = Some [Fetch_error (JString ''u1'')
                                                 (Cannot_read ''medium'')]\<rparr>\<rparr>)"
  by code_simp

text \<open>
  Claim C10, as amended. When no answer to a search of the run is an error payload that
  reports quota exhaustion or that also carries results, the two servers produce the same
  list of skills with videos, in whatever order the answers arrive.
\<close>

theorem variants_agree_without_quota:
  assumes "\<forall>i<length sks. \<forall>j<length (snd (sks ! i)). benign js (world i j)"
  shows "fst (skillsWithVideos js t world sks) = skillsWithVideos_plain js world sks
       \<and> (\<forall>schedule. fst (await_all js t world schedule sks) = skillsWithVideos_plain js world sks)"
proof -
  have "fst (skillsWithVideos js t world sks) = skillsWithVideos_plain js world sks"
  proof (rule nth_equalityI)
    show "length (fst (skillsWithVideos js t world sks))
            = length (skillsWithVideos_plain js world sks)"
      by (simp add: skillsWithVideos_def skillsWithVideos_plain_def enrich_from_length
                    enrich_plain_from_length)
  next
    fix m assume "m < length (fst (skillsWithVideos js t world sks))"
    then have m: "m < length sks" by (simp add: skillsWithVideos_def enrich_from_length)
    with assms have "\<forall>j<length (snd (sks ! m)). benign js (world m (0 + j))" by simp
    then have "fst (term_loop js t m (world m) 0 (snd (sks ! m)) [] initial_state)
                 = term_loop_plain js (world m) 0 (snd (sks ! m)) []"
      by (rule term_loop_plain_eq)
    with m
    show "fst (skillsWithVideos js t world sks) ! m = skillsWithVideos_plain js world sks ! m"
      by (simp add: skillsWithVideos_def skillsWithVideos_plain_def enrich_from_nth
                    enrich_plain_from_nth)
  qed
  then show ?thesis by (simp add: await_all_agrees(1))
qed

theorem variants_agree_without_quota_witness:
  "benign example_js (example_world_benign 0 0) \<and> benign example_js (example_world_benign 0 1)
   \<and> benign example_js (example_world_benign 0 2) \<and> benign example_js (example_world_benign 1 0)
   \<and> fst (skillsWithVideos example_js ''T'' example_world_benign example_skills)
     = skillsWithVideos_plain example_js example_world_benign example_skills
   \<and> map found_videos (skillsWithVideos_plain example_js example_world_benign example_skills)
     = [[example_video_for ''t1'', example_video_for ''t3''], [example_video_for ''u1'']]"
proof -
  have b: "\<And>i j. benign example_js (example_world_benign i j)"
    by (simp add: benign_def quotaExceeded_def example_world_benign_def key_payload_def
                  error_reason_def has_items_def)
  then have h: "\<forall>i<length example_skills. \<forall>j<length (snd (example_skills ! i)).
             benign example_js (example_world_benign i j)"
    by simp
  have c: "map found_videos (skillsWithVideos_plain example_js example_world_benign example_skills)
     = [[example_video_for ''t1'', example_video_for ''t3''], [example_video_for ''u1'']]"
    by code_simp
  from variants_agree_without_quota [of example_skills example_js example_world_benign "''T''",
      OF h] b c
  show ?thesis by simp
qed

text \<open>
  The claim as stated fails on the example run: after the quota-exhaustion answer to the
  second term, the server without diagnostics goes on to the third term and keeps its
  result, the server with diagnostics stops.
\<close>

theorem variants_differ_counterexample:
  "map found_videos (fst (skillsWithVideos example_js ''T'' example_world example_skills))
     = [[example_video_for ''t1''], [example_video_for ''u1'']]
   \<and> map found_videos (skillsWithVideos_plain example_js example_world example_skills)
     = [[example_video_for ''t1'', example_video_for ''t3''], [example_video_for ''u1'']]
   \<and> fst (skillsWithVideos example_js ''T'' example_world example_skills)
     \<noteq> skillsWithVideos_plain example_js example_world example_skills"
  by code_simp
section \<open>Properties: StructureParser and the replies of the generation handlers\<close>


lemma with_terms_None:
  "with_terms xs = None \<longleftrightarrow> (\<exists>x \<in> set xs. skill_terms x = None)"
  by (induction xs) (auto split: option.splits)




text \<open>
  Claim C7. A completion text without a JSON object, sent through the full-generation
  handler, is answered with status 500 and an error body that holds no raw text; the
  structure-only handler answers the same text with the raw text attached.
\<close>

theorem full_course_parse_failure_has_no_raw:
  "generate_full_course js parse_structure ''x'' (Some ''no json here'') apiKey world schedule now
     = Failed 500 \<lparr>error_message = ''Failed to parse course structure'', raw = None\<rparr>
   \<and> generate_full_course_plain js parse_structure ''x'' (Some ''no json here'') apiKey world now
     = Failed 500 \<lparr>error_message = ''Failed to parse course structure'', raw = None\<rparr>
   \<and> generate_course json_parse ''x'' (Some ''no json here'')
     = Failed 500 \<lparr>error_message = ''Failed to parse AI response'',
                    raw = Some ''no json here''\<rparr>"
  by (simp add: generate_full_course_def generate_full_course_plain_def generate_course_def
                extract_structure_def)
section \<open>Properties: the counters of one pass, and examples of answers and runs\<close>

text \<open>
  One pass of the loop body counts at most one success and at most one failure, and at
  least one of the two. The error list of the response holds the first five entries
  recorded.
\<close>

lemma items_branch_counts:
  "items_branch js term items [] initial_state = Inl (e, vs', b)
     \<Longrightarrow> successfulSearches b \<le> 1 \<and> failedSearches b = 0"
  "items_branch js term items [] initial_state = Inr (f, vs', b)
     \<Longrightarrow> successfulSearches b + failedSearches b = 1"
  by (auto simp: items_branch_def initial_state_def Let_def
           split: sum.splits bool.splits option.splits)

lemma body_effect_counts:
  "successfulSearches (body_effect js term r) \<le> 1"
  "failedSearches (body_effect js term r) \<le> 1"
  "1 \<le> successfulSearches (body_effect js term r) + failedSearches (body_effect js term r)"
proof -
  have "successfulSearches (body_effect js term r) \<le> 1
      \<and> failedSearches (body_effect js term r) \<le> 1
      \<and> 1 \<le> successfulSearches (body_effect js term r) + failedSearches (body_effect js term r)"
  proof (cases r)
    case (Threw msg)
    then show ?thesis
      by (simp add: body_effect_def loop_body_def try_block_def initial_state_def)
  next
    case (Data d)
    show ?thesis
    proof (cases "d = JNull")
      case True
      with Data show ?thesis
        by (simp add: body_effect_def loop_body_def try_block_def initial_state_def)
    next
      case False
      have items: ?thesis
        if t: "try_block js term r [] initial_state
                 = items_branch js term (property d ''items'') [] initial_state"
      proof (cases "items_branch js term (property d ''items'') [] initial_state")
        case (Inl a)
        obtain e vs' b where a: "a = (e, vs', b)" by (cases a) auto
        from items_branch_counts(1) [of js "term" "property d ''items''" e vs' b] Inl a
        show ?thesis by (simp add: body_effect_def loop_body_def t)
      next
        case (Inr c)
        obtain f vs' b where c: "c = (f, vs', b)" by (cases c) auto
        from items_branch_counts(2) [of js "term" "property d ''items''" f vs' b] Inr c
        show ?thesis by (simp add: body_effect_def loop_body_def t)
      qed
      show ?thesis
      proof (cases "property d ''error''")
        case None
        with Data False show ?thesis by (intro items) (simp add: try_block_def get_Some)
      next
        case (Some err)
        show ?thesis
        proof (cases "truthy err")
          case True
          with Data False Some show ?thesis
            by (simp add: body_effect_def loop_body_def try_block_def get_Some
                          initial_state_def Let_def)
        next
          case no: False
          with Data False Some show ?thesis
            by (intro items) (simp add: try_block_def get_Some)
        qed
      qed
    qed
  qed
  then show "successfulSearches (body_effect js term r) \<le> 1"
    "failedSearches (body_effect js term r) \<le> 1"
    "1 \<le> successfulSearches (body_effect js term r) + failedSearches (body_effect js term r)"
    by simp_all
qed

lemma debug_errors_first_five:
  "debug_errors (make_debug st)
     = (if youtubeErrors st = [] then None else Some (take 5 (youtubeErrors st)))"
  "debug_errors (make_debug st) = Some es \<Longrightarrow>
     length es \<le> 5 \<and> length es = min 5 (length (youtubeErrors st))"
  by (auto simp: make_debug_def split: if_splits)

text \<open>
  One pass of the loop body for a term, on answers of several kinds: a rejected request;
  a body that is \<^verbatim>\<open>null\<close>; no results; a text where the results should be; a result whose
  title is a number (the video is pushed, and the log line throws after it); an error
  payload without a reason; and the quota payload.
\<close>

lemma loop_body_examples:
  "loop_body js (JString ''t'') (Threw ''fetch failed'') [] initial_state
     = (Continue, [],
        \<lparr>totalSearches = 0, successfulSearches = 0, failedSearches = 1,
         youtubeErrors = [Fetch_error (JString ''t'') (Rejected ''fetch failed'')],
         requests = []\<rparr>)"
  "loop_body js (JString ''t'') (Data JNull) [] initial_state
     = (Continue, [],
        \<lparr>totalSearches = 0, successfulSearches = 0, failedSearches = 1,
         youtubeErrors = [Fetch_error (JString ''t'') (Cannot_read ''error'')],
         requests = []\<rparr>)"
  "loop_body js (JString ''t'') (Data (JObject [(''items'', JArray [])])) [] initial_state
     = (Continue, [],
        \<lparr>totalSearches = 0, successfulSearches = 0, failedSearches = 1,
         youtubeErrors = [], requests = []\<rparr>)"
  "loop_body js (JString ''t'') (Data (JObject [(''items'', JString ''ab'')])) [] initial_state
     = (Continue, [],
        \<lparr>totalSearches = 0, successfulSearches = 1, failedSearches = 1,
         youtubeErrors = [Fetch_error (JString ''t'') (Cannot_read ''videoId'')],
         requests = []\<rparr>)"
  "loop_body js (JString ''t'')
       (Data (JObject [(''items'',
          JArray [JObject [(''id'', JObject [(''videoId'', JString ''v1'')]),
                           (''snippet'',
                            JObject [(''title'', JNumber 5),
                                     (''thumbnails'',
                                      JObject [(''medium'', JObject [(''url'', JString ''u'')])])])]])]))
       [] initial_state
     = (Continue,
        [JObject [(''id'', JString ''v1''), (''title'', JNumber 5), (''thumbnail'', JString ''u''),
                  (''searchTerm'', JString ''t'')]],
        \<lparr>totalSearches = 0, successfulSearches = 1, failedSearches = 1,
         youtubeErrors = [Fetch_error (JString ''t'') (Not_a_function ''substring'')],
         requests = []\<rparr>)"
  "loop_body js (JString ''t'') (Data (JObject [(''error'', JObject [(''code'', JNumber 500)])]))
       [] initial_state
     = (Continue, [],
        \<lparr>totalSearches = 0, successfulSearches = 0, failedSearches = 1,
         youtubeErrors = [Api_error (JString ''t'') (Some (JNumber 500)) None
                            (JString ''unknown'')],
         requests = []\<rparr>)"
  "loop_body js (JString ''t'') (Data quota_payload) [] initial_state
     = (Break, [],
        \<lparr>totalSearches = 0, successfulSearches = 0, failedSearches = 1,
         youtubeErrors = [Api_error (JString ''t'') (Some (JNumber 403)) (Some (JString ''quota''))
                            (JString ''quotaExceeded'')],
         requests = []\<rparr>)"
  by code_simp+

text \<open>
  The terms of a skill: the elements of an array, the characters of a text, and no terms
  to iterate otherwise.
\<close>

lemma skill_terms_examples:
  "skill_terms skill_a = Some [JString ''t1'', JString ''t2'', JString ''t3'']"
  "skill_terms (JObject [(''searchTerms'', JString ''ab'')]) = Some [JString ''a'', JString ''b'']"
  "skill_terms (JObject [(''name'', JString ''A'')]) = None"
  "skill_terms JNull = None"
  "course_skills (JObject [(''skills'', JObject [])]) = None"
  "course_skills (JObject [(''skills'', JArray [skill_a, JNumber 5])]) = None"
  by code_simp+

text \<open>
  A full generation on the example structure, with the quota answer to the second term
  of the first skill; and two generations that differ only in the order in which two
  error answers arrive, and so in the order of the error list sent.
\<close>

lemma generation_example:
  "generate_full_course example_js (\<lambda>s. Some example_structure) ''T'' (Some ''{}'') ''key''
       example_world [1, 0, 0] ''now''
     = Sent (Course
         \<lparr>response_topic = Some (JString ''T''),
          response_skills = [with_videos skill_a [example_video_for ''t1''],
                             with_videos skill_b [example_video_for ''u1'']],
          generatedAt = ''now'',
          debug = Some \<lparr>debug_totalSearches = 3, debug_successfulSearches = 2,
                          debug_failedSearches = 1,
                          debug_errors = Some [Api_error (JString ''t2'') (Some (JNumber 403))
                                                 (Some (JString ''quota''))
                                                 (JString ''quotaExceeded'')]\<rparr>\<rparr>)"
  by code_simp

lemma errors_in_arrival_order:
  "map_option debug_errors
     (case generate_full_course example_js (\<lambda>s. Some example_structure) ''T'' (Some ''{}'')
             ''key'' (\<lambda>i j. if i = 0 then Data quota_payload else Data key_payload) [0, 1] ''now''
      of Sent (Course c) \<Rightarrow> debug c | _ \<Rightarrow> None)
     = Some (Some [Api_error (JString ''t1'') (Some (JNumber 403)) (Some (JString ''quota''))
                     (JString ''quotaExceeded''),
                   Api_error (JString ''u1'') (Some (JNumber 400)) (Some (JString ''bad''))
                     (JString ''keyInvalid'')])"
  "map_option debug_errors
     (case generate_full_course example_js (\<lambda>s. Some example_structure) ''T'' (Some ''{}'')
             ''key'' (\<lambda>i j. if i = 0 then Data quota_payload else Data key_payload) [1, 0] ''now''
      of Sent (Course c) \<Rightarrow> debug c | _ \<Rightarrow> None)
     = Some (Some [Api_error (JString ''u1'') (Some (JNumber 400)) (Some (JString ''bad''))
                     (JString ''keyInvalid''),
                   Api_error (JString ''t1'') (Some (JNumber 403)) (Some (JString ''quota''))
                     (JString ''quotaExceeded'')])"
  by code_simp+
section \<open>Properties: the entity graph export and its identifiers\<close>

lemma unat4_less: "unat (v :: 4 word) < 16"
proof -
  have "unat v < 2 ^ LENGTH(4)" by (rule unsigned_less)
  then show ?thesis by simp
qed

lemma hex_digit_in: "hex_digit v \<in> set ''0123456789abcdef''"
proof -
  have "unat v < length ''0123456789abcdef''" using unat4_less [of v] by simp
  then show ?thesis unfolding hex_digit_def by (rule nth_mem)
qed

lemma hex_digit_inj: "hex_digit a = hex_digit b \<longleftrightarrow> a = b"
proof -
  have a: "unat a < length ''0123456789abcdef''" using unat4_less [of a] by simp
  have b: "unat b < length ''0123456789abcdef''" using unat4_less [of b] by simp
  have d: "distinct ''0123456789abcdef''" by simp
  from nth_eq_iff_index_eq [OF d a b] show ?thesis
    by (simp add: hex_digit_def word_unat_eq_iff)
qed

lemma y_digit_eq:
  fixes a b :: "4 word"
  shows "(a AND 3) OR 8 = (b AND 3) OR 8 \<longleftrightarrow> a AND 3 = b AND 3"
proof
  assume h: "(a AND 3) OR 8 = (b AND 3) OR 8"
  then have "((a AND 3) OR 8) AND 3 = ((b AND 3) OR 8) AND 3" by simp
  then show "a AND 3 = b AND 3"
    by (simp add: bit.conj_disj_distrib2 and.assoc)
next
  assume "a AND 3 = b AND 3"
  then show "(a AND 3) OR 8 = (b AND 3) OR 8" by simp
qed

lemma generateUUID_explicit:
  "generateUUID rs n =
    ([hex_digit (rs (n + 0)), hex_digit (rs (n + 1)), hex_digit (rs (n + 2)),
      hex_digit (rs (n + 3)), hex_digit (rs (n + 4)), hex_digit (rs (n + 5)),
      hex_digit (rs (n + 6)), hex_digit (rs (n + 7)), CHR ''-'', hex_digit (rs (n + 8)),
      hex_digit (rs (n + 9)), hex_digit (rs (n + 10)), hex_digit (rs (n + 11)), CHR ''-'',
      CHR ''4'', hex_digit (rs (n + 12)), hex_digit (rs (n + 13)), hex_digit (rs (n + 14)),
      CHR ''-'', hex_digit ((rs (n + 15) AND 3) OR 8), hex_digit (rs (n + 16)),
      hex_digit (rs (n + 17)), hex_digit (rs (n + 18)), CHR ''-'', hex_digit (rs (n + 19)),
      hex_digit (rs (n + 20)), hex_digit (rs (n + 21)), hex_digit (rs (n + 22)),
      hex_digit (rs (n + 23)), hex_digit (rs (n + 24)), hex_digit (rs (n + 25)),
      hex_digit (rs (n + 26)), hex_digit (rs (n + 27)), hex_digit (rs (n + 28)),
      hex_digit (rs (n + 29)), hex_digit (rs (n + 30))],
     n + 31)"
  by (simp add: generateUUID_def Let_def case_prod_beta eval_nat_numeral)

lemma generateUUID_next: "snd (generateUUID rs n) = n + 31"
  by (simp add: generateUUID_explicit)

lemma generateUUID_shape: "uuid_shape (fst (generateUUID rs n))"
  unfolding uuid_shape_def generateUUID_explicit
  by (simp add: hex_digit_in eval_nat_numeral All_less_Suc del: set_simps)


lemma generateUUID_eq_iff:
  "fst (generateUUID rs a) = fst (generateUUID rs b) \<longleftrightarrow> same_draws rs a b"
  unfolding generateUUID_explicit same_draws_def
  by (simp add: hex_digit_inj y_digit_eq eval_nat_numeral All_less_Suc) blast

lemma uuids_0: "uuids rs n 0 = []"
  by (simp add: uuids_def)

lemma uuids_Suc: "uuids rs n (Suc k) = fst (generateUUID rs n) # uuids rs (n + 31) k"
proof -
  have "[0..<Suc k] = 0 # map Suc [0..<k]"
    by (simp add: upt_conv_Cons map_Suc_upt del: upt_Suc)
  then show ?thesis by (simp add: uuids_def comp_def add.assoc del: upt_Suc)
qed

lemma uuids_add: "uuids rs n (a + b) = uuids rs n a @ uuids rs (n + 31 * a) b"
proof (induction a arbitrary: n)
  case 0
  then show ?case by (simp add: uuids_0)
next
  case (Suc a)
  show ?case by (simp add: uuids_Suc Suc.IH add.assoc)
qed

lemma length_uuids: "length (uuids rs n k) = k"
  by (simp add: uuids_def)


lemma export_videos_next:
  "snd (snd (export_videos rs rnd t sk tot ix n vs)) = n + 31 * length vs"
  by (induction vs arbitrary: ix n)
     (simp_all add: case_prod_beta Let_def generateUUID_next)

lemma export_videos_ids:
  "fst (snd (export_videos rs rnd t sk tot ix n vs)) = uuids rs n (length vs)"
  by (induction vs arbitrary: ix n)
     (simp_all add: case_prod_beta Let_def generateUUID_next uuids_0 uuids_Suc)

lemma export_videos_entity_ids:
  "map entity_id (fst (export_videos rs rnd t sk tot ix n vs)) = uuids rs n (length vs)"
  by (induction vs arbitrary: ix n)
     (simp_all add: case_prod_beta Let_def generateUUID_next uuids_0 uuids_Suc)

lemma export_videos_kind:
  "e \<in> set (fst (export_videos rs rnd t sk tot ix n vs))
     \<Longrightarrow> entity_type e = ''video'' \<and> children e = []"
  by (induction vs arbitrary: ix n)
     (auto simp: case_prod_beta Let_def)

lemma num_videos_skill_videos: "num_videos sk = length (skill_videos sk)"
  by (simp add: num_videos_def skill_videos_def split: option.splits)

lemma export_skills_step:
  "export_skills rs rnd t n (sk # sks) =
     (let ves = fst (export_videos rs rnd t sk (num_videos sk) 0 (n + 31) (skill_videos sk));
          n2 = n + 31 + 31 * num_videos sk;
          sectionEntity =
            \<lparr>entity_id = fst (generateUUID rs n), entity_type = ''section'', status = ''public'',
             labels = [t], children = uuids rs (n + 31) (num_videos sk),
             attributes = [(''title'', name sk), (''description'', description sk)]\<rparr>;
          r = export_skills rs rnd t n2 sks
      in (ves @ [sectionEntity] @ fst r, fst (generateUUID rs n) # fst (snd r), snd (snd r)))"
proof (cases "videos sk")
  case None
  then show ?thesis
    by (simp add: case_prod_beta Let_def generateUUID_next num_videos_def skill_videos_def
                  uuids_0)
next
  case (Some vs)
  show ?thesis
  proof (cases vs)
    case Nil
    with Some show ?thesis
      by (simp add: case_prod_beta Let_def generateUUID_next num_videos_def skill_videos_def
                    uuids_0)
  next
    case (Cons v vs')
    with Some have "length vs > 0" by simp
    with Some show ?thesis
      by (simp add: case_prod_beta Let_def generateUUID_next num_videos_def skill_videos_def
                    export_videos_next export_videos_ids del: export_videos.simps)
  qed
qed


lemma export_skills_next:
  "snd (snd (export_skills rs rnd t n sks)) = n + 31 * (length sks + video_count sks)"
proof (induction sks arbitrary: n)
  case Nil
  then show ?case by (simp add: video_count_def)
next
  case (Cons sk sks)
  show ?case
    by (simp add: export_skills_step Let_def Cons.IH video_count_def algebra_simps
             del: export_skills.simps)
qed

lemma export_skills_length:
  "length (fst (export_skills rs rnd t n sks)) = length sks + video_count sks"
proof (induction sks arbitrary: n)
  case Nil
  then show ?case by (simp add: video_count_def)
next
  case (Cons sk sks)
  have "length (fst (export_videos rs rnd t sk (num_videos sk) 0 (n + 31) (skill_videos sk)))
          = num_videos sk"
    using export_videos_entity_ids [of rs rnd t sk "num_videos sk" 0 "n + 31" "skill_videos sk"]
    by (metis length_map length_uuids num_videos_skill_videos)
  then show ?case
    by (simp add: export_skills_step Let_def Cons.IH video_count_def
             del: export_skills.simps)
qed

lemma export_skills_mset:
  "mset (map entity_id (fst (export_skills rs rnd t n sks)))
     = mset (uuids rs n (length sks + video_count sks))"
proof (induction sks arbitrary: n)
  case Nil
  then show ?case by (simp add: video_count_def uuids_0)
next
  case (Cons sk sks)
  let ?v = "num_videos sk"
  let ?k = "length sks + video_count sks"
  let ?n2 = "n + 31 + 31 * ?v"
  have v: "map entity_id (fst (export_videos rs rnd t sk ?v 0 (n + 31) (skill_videos sk)))
             = uuids rs (n + 31) ?v"
    by (simp add: export_videos_entity_ids num_videos_skill_videos)
  have lhs: "map entity_id (fst (export_skills rs rnd t n (sk # sks)))
          = uuids rs (n + 31) ?v @ [fst (generateUUID rs n)]
            @ map entity_id (fst (export_skills rs rnd t ?n2 sks))"
    by (simp add: export_skills_step Let_def v del: export_skills.simps)
  have u: "uuids rs n (Suc (?v + ?k))
          = fst (generateUUID rs n) # uuids rs (n + 31) ?v @ uuids rs ?n2 ?k"
    by (simp add: uuids_Suc uuids_add)
  have cnt: "length (sk # sks) + video_count (sk # sks) = Suc (?v + ?k)"
    by (simp add: video_count_def)
  have ih: "mset (map entity_id (fst (export_skills rs rnd t ?n2 sks))) = mset (uuids rs ?n2 ?k)"
    by (rule Cons.IH)
  have "mset (map entity_id (fst (export_skills rs rnd t n (sk # sks))))
          = mset (uuids rs (n + 31) ?v) + {#fst (generateUUID rs n)#}
            + mset (map entity_id (fst (export_skills rs rnd t ?n2 sks)))"
    unfolding lhs by simp
  also have "\<dots> = mset (uuids rs n (Suc (?v + ?k)))"
    unfolding ih u by simp
  finally show ?case unfolding cnt .
qed

lemma export_skills_no_root:
  "e \<in> set (fst (export_skills rs rnd t n sks)) \<Longrightarrow> entity_type e \<noteq> ''root''"
proof (induction sks arbitrary: n)
  case Nil
  then show ?case by simp
next
  case (Cons sk sks)
  from Cons.prems show ?case
    by (auto simp: export_skills_step Let_def simp del: export_skills.simps
             dest: export_videos_kind Cons.IH)
qed

lemma export_skills_sections:
  "map (\<lambda>e. (entity_id e, attributes e, length (children e)))
       (filter (\<lambda>e. entity_type e = ''section'') (fst (export_skills rs rnd t n sks)))
     = map (\<lambda>(ident, sk). (ident, [(''title'', name sk), (''description'', description sk)],
                             num_videos sk))
           (zip (fst (snd (export_skills rs rnd t n sks))) sks)
   \<and> length (fst (snd (export_skills rs rnd t n sks))) = length sks"
proof (induction sks arbitrary: n)
  case Nil
  then show ?case by simp
next
  case (Cons sk sks)
  have "filter (\<lambda>e. entity_type e = ''section'')
          (fst (export_videos rs rnd t sk (num_videos sk) 0 (n + 31) (skill_videos sk))) = []"
    by (auto simp: filter_empty_conv dest: export_videos_kind)
  then show ?case
    by (simp add: export_skills_step Let_def Cons.IH length_uuids del: export_skills.simps)
qed

lemma export_skills_children:
  "e \<in> set (fst (export_skills rs rnd t n sks)) \<Longrightarrow>
     set (children e) \<subseteq> entity_id ` set (fst (export_skills rs rnd t n sks))"
proof (induction sks arbitrary: n)
  case Nil
  then show ?case by simp
next
  case (Cons sk sks)
  let ?ves = "fst (export_videos rs rnd t sk (num_videos sk) 0 (n + 31) (skill_videos sk))"
  have v: "entity_id ` set ?ves = set (uuids rs (n + 31) (num_videos sk))"
    using export_videos_entity_ids [of rs rnd t sk "num_videos sk" 0 "n + 31" "skill_videos sk"]
    by (metis num_videos_skill_videos set_map)
  from Cons.prems show ?case
    by (auto simp: export_skills_step Let_def v image_Un simp del: export_skills.simps
             dest: export_videos_kind Cons.IH)
qed

lemma export_skills_section_ids:
  "set (fst (snd (export_skills rs rnd t n sks)))
     \<subseteq> entity_id ` set (fst (export_skills rs rnd t n sks))"
proof (induction sks arbitrary: n)
  case Nil
  then show ?case by simp
next
  case (Cons sk sks)
  show ?case
    using Cons.IH [of "n + 31 + 31 * num_videos sk"]
    by (auto simp: export_skills_step Let_def simp del: export_skills.simps)
qed


lemma exportToTrainstation_Some:
  "exportToTrainstation rs rnd now (Some c) = Some g \<Longrightarrow>
     export_root g = fst (generateUUID rs 0)
     \<and> entities g = fst (export_skills rs rnd (topic c) 31 (skills c))
           @ [\<lparr>entity_id = fst (generateUUID rs 0), entity_type = ''root'', status = ''public'',
               labels = [], children = fst (snd (export_skills rs rnd (topic c) 31 (skills c))),
               attributes = [(''title'', topic c),
                             (''description'', ''AI-genererad kurs om '' @ topic c)]\<rparr>]"
  by (auto simp: exportToTrainstation_def case_prod_beta Let_def generateUUID_next)

lemma matches_ge_1: "1 \<le> matches g ident \<longleftrightarrow> ident \<in> entity_id ` set (entities g)"
proof -
  have "1 \<le> matches g ident \<longleftrightarrow> filter (\<lambda>e. entity_id e = ident) (entities g) \<noteq> []"
    by (cases "filter (\<lambda>e. entity_id e = ident) (entities g)") (simp_all add: matches_def)
  also have "\<dots> \<longleftrightarrow> ident \<in> entity_id ` set (entities g)"
    by (auto simp: filter_empty_conv)
  finally show ?thesis .
qed

lemma distinct_single_match:
  "distinct (map f xs) \<Longrightarrow> y \<in> f ` set xs \<Longrightarrow> length (filter (\<lambda>e. f e = y) xs) = 1"
proof (induction xs)
  case Nil
  then show ?case by simp
next
  case (Cons x xs)
  show ?case
  proof (cases "f x = y")
    case True
    with Cons.prems have "\<forall>e \<in> set xs. f e \<noteq> y" by (auto simp: image_iff)
    then have "filter (\<lambda>e. f e = y) xs = []" by (simp add: filter_empty_conv)
    with True show ?thesis by simp
  next
    case False
    with Cons show ?thesis by auto
  qed
qed


lemma map_snd_zip_fun:
  "length xs = length ys \<Longrightarrow> map (\<lambda>x. F (snd x)) (zip xs ys) = map F ys"
  by (induction rule: list_induct2) simp_all

text \<open>
  Claim C3, as amended. For a course with \<open>n\<close> skills, skill \<open>i\<close> having \<open>v\<^sub>i\<close> videos
  (none when the field is absent), the export has \<open>1 + n + (v\<^sub>1 + \<dots> + v\<^sub>n)\<close> entities; its
  one root entity carries the export's root identifier and has as children the identifiers
  of the section entities, which are one per skill in skill order, each with the skill's
  name and description and with as many children as the skill has videos (none for a
  skill without videos); and every identifier in a children list is the identifier of at
  least one entity, of exactly one when the identifiers of the entities are pairwise
  distinct.
\<close>

theorem export_entity_graph:
  assumes "exportToTrainstation rs rnd now (Some c) = Some g"
  shows "length (entities g) = 1 + length (skills c) + video_count (skills c)
       \<and> (\<exists>r. of_type ''root'' g = [r] \<and> entity_id r = export_root g
              \<and> children r = map entity_id (of_type ''section'' g)
              \<and> length (children r) = length (skills c))
       \<and> map (\<lambda>e. (attributes e, length (children e))) (of_type ''section'' g)
           = map (\<lambda>sk. ([(''title'', name sk), (''description'', description sk)], num_videos sk))
                 (skills c)
       \<and> (\<forall>i<length (skills c). num_videos (skills c ! i) = 0
              \<longrightarrow> children (of_type ''section'' g ! i) = [])
       \<and> no_orphans g
       \<and> (distinct (map entity_id (entities g)) \<longrightarrow> exactly_one_match g)"
proof -
  let ?r = "export_skills rs rnd (topic c) 31 (skills c)"
  let ?es = "fst ?r"
  let ?sids = "fst (snd ?r)"
  let ?root = "\<lparr>entity_id = fst (generateUUID rs 0), entity_type = ''root'', status = ''public'',
               labels = [], children = ?sids,
               attributes = [(''title'', topic c),
                             (''description'', ''AI-genererad kurs om '' @ topic c)]\<rparr>"
  from exportToTrainstation_Some [OF assms]
  have rt: "export_root g = fst (generateUUID rs 0)" and en: "entities g = ?es @ [?root]"
    by simp_all
  have 1: "length (entities g) = 1 + length (skills c) + video_count (skills c)"
    by (simp add: en export_skills_length)
  have noroot: "filter (\<lambda>e. entity_type e = ''root'') ?es = []"
    by (auto simp: filter_empty_conv dest: export_skills_no_root)
  have sec: "of_type ''section'' g = filter (\<lambda>e. entity_type e = ''section'') ?es"
    by (simp add: of_type_def en)
  note S = export_skills_sections [of rs rnd "topic c" 31 "skills c"]
  from S have len: "length ?sids = length (skills c)" by simp
  from S have "map (fst \<circ> (\<lambda>e. (entity_id e, attributes e, length (children e))))
                 (of_type ''section'' g)
             = map (fst \<circ> (\<lambda>(ident, sk). (ident, [(''title'', name sk),
                      (''description'', description sk)], num_videos sk))) (zip ?sids (skills c))"
    unfolding sec map_map [symmetric] by simp
  then have ids: "map entity_id (of_type ''section'' g) = ?sids"
    using len by (simp add: comp_def case_prod_beta map_fst_zip)
  from S have "map (snd \<circ> (\<lambda>e. (entity_id e, attributes e, length (children e))))
                 (of_type ''section'' g)
             = map (snd \<circ> (\<lambda>(ident, sk). (ident, [(''title'', name sk),
                      (''description'', description sk)], num_videos sk))) (zip ?sids (skills c))"
    unfolding sec map_map [symmetric] by simp
  then have "map (\<lambda>e. (attributes e, length (children e))) (of_type ''section'' g)
           = map (\<lambda>x. ([(''title'', name (snd x)), (''description'', description (snd x))],
                        num_videos (snd x))) (zip ?sids (skills c))"
    by (simp add: comp_def case_prod_beta)
  also have "\<dots> = map (\<lambda>sk. ([(''title'', name sk), (''description'', description sk)],
                              num_videos sk)) (skills c)"
    by (rule map_snd_zip_fun [OF len])
  finally have 3: "map (\<lambda>e. (attributes e, length (children e))) (of_type ''section'' g)
           = map (\<lambda>sk. ([(''title'', name sk), (''description'', description sk)], num_videos sk))
                 (skills c)" .
  have 2: "\<exists>r. of_type ''root'' g = [r] \<and> entity_id r = export_root g
              \<and> children r = map entity_id (of_type ''section'' g)
              \<and> length (children r) = length (skills c)"
    by (rule exI [of _ ?root]) (simp add: of_type_def en noroot rt ids [unfolded sec] len)
  have 4: "\<forall>i<length (skills c). num_videos (skills c ! i) = 0
              \<longrightarrow> children (of_type ''section'' g ! i) = []"
  proof (intro allI impI)
    fix i assume i: "i < length (skills c)" and z: "num_videos (skills c ! i) = 0"
    have l: "length (of_type ''section'' g) = length (skills c)"
      using arg_cong [OF 3, of length] by simp
    from 3 have "map (\<lambda>e. (attributes e, length (children e))) (of_type ''section'' g) ! i
           = map (\<lambda>sk. ([(''title'', name sk), (''description'', description sk)], num_videos sk))
                 (skills c) ! i" by simp
    with i l have "length (children (of_type ''section'' g ! i)) = num_videos (skills c ! i)"
      by simp
    with z show "children (of_type ''section'' g ! i) = []" by simp
  qed
  have sub: "\<And>e ident. e \<in> set (entities g) \<Longrightarrow> ident \<in> set (children e)
               \<Longrightarrow> ident \<in> entity_id ` set (entities g)"
  proof -
    fix e ident assume e: "e \<in> set (entities g)" and c: "ident \<in> set (children e)"
    from e have "e \<in> set ?es \<or> e = ?root" by (auto simp: en)
    then have "ident \<in> entity_id ` set ?es"
    proof
      assume "e \<in> set ?es"
      from export_skills_children [OF this] c show ?thesis by blast
    next
      assume "e = ?root"
      with c have "ident \<in> set ?sids" by simp
      with export_skills_section_ids [of rs rnd "topic c" 31 "skills c"] show ?thesis by blast
    qed
    then show "ident \<in> entity_id ` set (entities g)" by (auto simp: en)
  qed
  have 5: "no_orphans g"
    unfolding no_orphans_def matches_ge_1
  proof (intro ballI)
    fix e ident assume "e \<in> set (entities g)" and "ident \<in> set (children e)"
    then show "ident \<in> entity_id ` set (entities g)" by (rule sub)
  qed
  have 6: "distinct (map entity_id (entities g)) \<longrightarrow> exactly_one_match g"
  proof
    assume d: "distinct (map entity_id (entities g))"
    show "exactly_one_match g"
      unfolding exactly_one_match_def matches_def
    proof (intro ballI)
      fix e ident assume "e \<in> set (entities g)" and "ident \<in> set (children e)"
      then have "ident \<in> entity_id ` set (entities g)" by (rule sub)
      with d show "length (filter (\<lambda>e. entity_id e = ident) (entities g)) = 1"
        by (rule distinct_single_match)
    qed
  qed
  show ?thesis
    apply (intro conjI)
         apply (rule 1)
        apply (rule 2)
       apply (rule 3)
      apply (rule 4)
     apply (rule 5)
    apply (rule 6)
    done
qed


theorem export_entity_graph_witness:
  "exportToTrainstation counting exact ''now'' (Some example_course_ab)
     = Some (the (exportToTrainstation counting exact ''now'' (Some example_course_ab)))
   \<and> length (entities (the (exportToTrainstation counting exact ''now''
                                (Some example_course_ab)))) = 6
   \<and> no_orphans (the (exportToTrainstation counting exact ''now'' (Some example_course_ab)))
   \<and> exactly_one_match (the (exportToTrainstation counting exact ''now''
                                (Some example_course_ab)))"
proof -
  let ?g = "the (exportToTrainstation counting exact ''now'' (Some example_course_ab))"
  have h: "exportToTrainstation counting exact ''now'' (Some example_course_ab) = Some ?g"
    by (simp add: exportToTrainstation_def case_prod_beta)
  have d: "distinct (map entity_id (entities ?g))"
    by code_simp
  have v: "1 + length (skills example_course_ab) + video_count (skills example_course_ab) = 6"
    by (simp add: example_course_ab_def video_count_def num_videos_def)
  from export_entity_graph [OF h] d v h show ?thesis by simp
qed

text \<open>
  The claim as stated asks for exactly one match and fails when the random source repeats
  itself: with every draw 0 the root and the one section get the same identifier, and the
  root's child matches two entities.
\<close>

theorem export_entity_graph_counterexample:
  "\<not> exactly_one_match (the (exportToTrainstation all_zero exact ''now'' (Some example_course)))"
  by code_simp

lemma nth_uuids: "k < m \<Longrightarrow> uuids rs n m ! k = fst (generateUUID rs (n + 31 * k))"
  by (simp add: uuids_def)

lemma distinct_uuids:
  "distinct (uuids rs 0 m)
     \<longleftrightarrow> (\<forall>k<m. \<forall>l<m. k \<noteq> l \<longrightarrow> \<not> same_draws rs (31 * k) (31 * l))"
  by (simp add: distinct_conv_nth length_uuids nth_uuids generateUUID_eq_iff)

text \<open>
  Claim C9, as amended. In every export, the root identifier and the identifier of every
  entity have the 36-character shape; the identifiers of the entities are, up to order,
  those of successive calls of the generator, one per entity; and they are pairwise distinct
  exactly when no two of these calls see the same draws, which depends on the outcome of
  the random source.
\<close>

theorem export_identifiers:
  assumes "exportToTrainstation rs rnd now (Some c) = Some g"
  shows "uuid_shape (export_root g)
       \<and> (\<forall>e \<in> set (entities g). uuid_shape (entity_id e))
       \<and> mset (map entity_id (entities g)) = mset (uuids rs 0 (length (entities g)))
       \<and> (distinct (map entity_id (entities g))
            \<longleftrightarrow> (\<forall>k<length (entities g). \<forall>l<length (entities g).
                   k \<noteq> l \<longrightarrow> \<not> same_draws rs (31 * k) (31 * l)))"
proof -
  let ?r = "export_skills rs rnd (topic c) 31 (skills c)"
  let ?k = "length (skills c) + video_count (skills c)"
  from exportToTrainstation_Some [OF assms]
  have rt: "export_root g = fst (generateUUID rs 0)"
    and en: "map entity_id (entities g) = map entity_id (fst ?r) @ [fst (generateUUID rs 0)]"
    by simp_all
  have len: "length (entities g) = Suc ?k"
    using arg_cong [OF en, of length] by (simp add: export_skills_length)
  have 1: "uuid_shape (export_root g)"
    unfolding rt by (rule generateUUID_shape)
  have "mset (map entity_id (entities g))
          = mset (uuids rs 31 ?k) + {#fst (generateUUID rs 0)#}"
    unfolding en using export_skills_mset [of rs rnd "topic c" 31 "skills c"] by simp
  also have "\<dots> = mset (uuids rs 0 (Suc ?k))"
    by (simp add: uuids_Suc)
  finally have 3: "mset (map entity_id (entities g)) = mset (uuids rs 0 (length (entities g)))"
    unfolding len .
  have 2: "\<forall>e \<in> set (entities g). uuid_shape (entity_id e)"
  proof
    fix e assume "e \<in> set (entities g)"
    then have "entity_id e \<in> set (map entity_id (entities g))" by simp
    also have "set (map entity_id (entities g)) = set (uuids rs 0 (length (entities g)))"
      using 3 by (rule mset_eq_setD)
    finally obtain j where "entity_id e = fst (generateUUID rs (0 + 31 * j))"
      unfolding uuids_def by auto
    then show "uuid_shape (entity_id e)" by (simp add: generateUUID_shape)
  qed
  have 4: "distinct (map entity_id (entities g))
            \<longleftrightarrow> (\<forall>k<length (entities g). \<forall>l<length (entities g).
                   k \<noteq> l \<longrightarrow> \<not> same_draws rs (31 * k) (31 * l))"
    using mset_eq_imp_distinct_iff [OF 3] distinct_uuids [of rs "length (entities g)"]
    by simp
  show ?thesis
    apply (intro conjI)
       apply (rule 1)
      apply (rule 2)
     apply (rule 3)
    apply (rule 4)
    done
qed

theorem export_identifiers_witness:
  "exportToTrainstation counting exact ''now'' (Some example_course_ab)
     = Some (the (exportToTrainstation counting exact ''now'' (Some example_course_ab)))
   \<and> uuid_shape (export_root (the (exportToTrainstation counting exact ''now''
                                   (Some example_course_ab))))
   \<and> export_root (the (exportToTrainstation counting exact ''now'' (Some example_course_ab)))
       = ''00000000-0000-4000-8000-000000000000''"
proof -
  let ?g = "the (exportToTrainstation counting exact ''now'' (Some example_course_ab))"
  have h: "exportToTrainstation counting exact ''now'' (Some example_course_ab) = Some ?g"
    by (simp add: exportToTrainstation_def case_prod_beta)
  have r: "export_root ?g = ''00000000-0000-4000-8000-000000000000''"
    by code_simp
  from export_identifiers [OF h] h r show ?thesis by simp
qed

text \<open>
  The claim as stated promises distinct identifiers for every outcome of the random source.
  With every draw 0 all identifiers of an export are the same.
\<close>

theorem export_identifiers_counterexample:
  "\<not> distinct (map entity_id
       (entities (the (exportToTrainstation all_zero exact ''now'' (Some example_course)))))"
  by code_simp

section \<open>Properties: the difficulty of a video, shown and exported\<close>

lemma export_videos_level:
  "map (\<lambda>e. map_of (attributes e) ''level'') (fst (export_videos rs rnd tp sk tot ix n vs))
     = map (\<lambda>j. Some (getTrainstationLevel rnd j tot)) [ix..<ix + length vs]"
proof (induction vs arbitrary: ix n)
  case Nil
  then show ?case by simp
next
  case (Cons v vs)
  have u: "[ix..<ix + length (v # vs)] = ix # [Suc ix..<Suc ix + length vs]"
    using upt_conv_Cons [of ix "ix + length (v # vs)"] by simp
  show ?case unfolding u by (simp add: case_prod_beta Let_def Cons.IH)
qed

lemma filter_videos_export_videos:
  "filter (\<lambda>e. entity_type e = ''video'') (fst (export_videos rs rnd tp sk tot ix n vs))
     = fst (export_videos rs rnd tp sk tot ix n vs)"
  by (rule filter_True) (simp add: export_videos_kind)

lemma levels_getTrainstationLevel: "getTrainstationLevel rnd j tot = getDifficultyLevel rnd j tot"
  by (simp add: getTrainstationLevel_def getDifficultyLevel_def)

lemma video_cards_levels:
  "map (\<lambda>card. Some (snd card)) (video_cards rnd sk)
     = map (\<lambda>j. Some (getDifficultyLevel rnd j (num_videos sk))) [0..<num_videos sk]"
proof (cases "videos sk")
  case None
  then show ?thesis by (simp add: video_cards_def num_videos_def)
next
  case (Some vs)
  have "map (\<lambda>p. Some (getDifficultyLevel rnd (fst p) (length vs))) (enumerate 0 vs)
      = map (\<lambda>j. Some (getDifficultyLevel rnd j (length vs))) (map fst (enumerate 0 vs))"
    by (simp only: map_map comp_def)
  also have "\<dots> = map (\<lambda>j. Some (getDifficultyLevel rnd j (length vs))) [0..<length vs]"
    by simp
  finally show ?thesis using Some
    by (simp add: video_cards_def num_videos_def case_prod_beta comp_def)
qed

lemma video_cards_nth:
  assumes "i < length (skill_videos sk)"
  shows "video_cards rnd sk ! i
           = (skill_videos sk ! i, getDifficultyLevel rnd i (length (skill_videos sk)))"
proof (cases "videos sk")
  case None
  with assms show ?thesis by (simp add: skill_videos_def)
next
  case (Some vs)
  with assms have i: "i < length vs" by (simp add: skill_videos_def)
  then have "enumerate 0 vs ! i = (i, vs ! i)" by (simp add: nth_enumerate_eq)
  with i Some show ?thesis by (auto simp: video_cards_def skill_videos_def)
qed

lemma export_skills_levels:
  "map (\<lambda>e. map_of (attributes e) ''level'')
       (filter (\<lambda>e. entity_type e = ''video'') (fst (export_skills rs rnd tp n sks)))
     = map (\<lambda>card. Some (snd card)) (concat (map (video_cards rnd) sks))"
proof (induction sks arbitrary: n)
  case Nil
  then show ?case by simp
next
  case (Cons sk sks)
  show ?case
    unfolding export_skills_step Let_def
    by (simp add: filter_videos_export_videos export_videos_level Cons.IH video_cards_levels
                  levels_getTrainstationLevel num_videos_skill_videos
             del: export_skills.simps)
qed

lemma export_levels:
  assumes "exportToTrainstation rs rnd stamp (Some c) = Some g"
  shows "map (\<lambda>e. map_of (attributes e) ''level'') (of_type ''video'' g)
           = map (\<lambda>card. Some (snd card)) (concat (displayCourse rnd c))"
proof -
  from assms have "entities g
      = fst (export_skills rs rnd (topic c) (snd (generateUUID rs 0)) (skills c))
        @ [\<lparr>entity_id = fst (generateUUID rs 0), entity_type = ''root'', status = ''public'',
             labels = [],
             children = fst (snd (export_skills rs rnd (topic c) (snd (generateUUID rs 0))
                                    (skills c))),
             attributes = [(''title'', topic c),
                           (''description'', ''AI-genererad kurs om '' @ topic c)]\<rparr>]"
    by (auto simp: exportToTrainstation_def case_prod_beta Let_def)
  then show ?thesis
    by (simp add: of_type_def displayCourse_def export_skills_levels)
qed

text \<open>
  Claim C4. For a video at position \<open>index\<close> of a list of \<open>tot\<close> videos (so
  \<open>index < tot\<close>, and a JavaScript array holds fewer than \<open>2\<^sup>3\<^sup>2\<close> elements), under any
  accurate rounding: the label is ``beginner'' exactly when \<open>index / tot < 0.33\<close>,
  ``intermediate'' exactly when \<open>0.33 \<le> index / tot < 0.66\<close>, ``advanced'' otherwise, the
  ratios being the exact ones; the export's level function gives the same label as the
  display's; and of 10 videos, index 3 is ``beginner'', 4 and 6 are ``intermediate''. The
  display gives the card of the video at position \<open>i\<close> of a skill the label for \<open>i\<close> and
  the number of videos of the skill; and in every export the \<open>level\<close> attributes of the
  video entities, in the order of the export, are the labels of the cards of the display, in
  the order of the skills and their videos.
\<close>

theorem difficulty_bands:
  assumes acc: "accurate rnd" and it: "index < tot" and t: "tot < 2 ^ 32"
  shows "(getDifficultyLevel rnd index tot = ''beginner''
            \<longleftrightarrow> (of_nat index / of_nat tot :: rat) < 33 / 100)
       \<and> (getDifficultyLevel rnd index tot = ''intermediate''
            \<longleftrightarrow> 33 / 100 \<le> (of_nat index / of_nat tot :: rat) \<and> (of_nat index / of_nat tot :: rat) < 66 / 100)
       \<and> (getDifficultyLevel rnd index tot = ''advanced''
            \<longleftrightarrow> 66 / 100 \<le> (of_nat index / of_nat tot :: rat))
       \<and> getTrainstationLevel rnd index tot = getDifficultyLevel rnd index tot
       \<and> getDifficultyLevel rnd 3 10 = ''beginner''
       \<and> getDifficultyLevel rnd 4 10 = ''intermediate''
       \<and> getDifficultyLevel rnd 6 10 = ''intermediate''
       \<and> (\<forall>sk i. i < length (skill_videos sk) \<longrightarrow>
              video_cards rnd sk ! i
                = (skill_videos sk ! i, getDifficultyLevel rnd i (length (skill_videos sk))))
       \<and> (\<forall>rs stamp c g. exportToTrainstation rs rnd stamp (Some c) = Some g \<longrightarrow>
              map (\<lambda>e. map_of (attributes e) ''level'') (of_type ''video'' g)
                = map (\<lambda>card. Some (snd card)) (concat (displayCourse rnd c)))"
proof -
  have t0: "0 < tot" using it by simp
  have b1: "rnd (of_nat index / of_nat tot) < rnd (33 / 100) \<longleftrightarrow> 100 * index < 33 * tot"
    using band_exact [OF acc t it, of 33] by simp
  have b2: "rnd (of_nat index / of_nat tot) < rnd (66 / 100) \<longleftrightarrow> 100 * index < 66 * tot"
    using band_exact [OF acc t it, of 66] by simp
  have r1: "(of_nat index / of_nat tot :: rat) < 33 / 100 \<longleftrightarrow> 100 * index < 33 * tot"
    using ratio_less [OF t0, of index 33] by simp
  have r2: "(of_nat index / of_nat tot :: rat) < 66 / 100 \<longleftrightarrow> 100 * index < 66 * tot"
    using ratio_less [OF t0, of index 66] by simp
  have e3: "rnd (3 / 10) < rnd (33 / 100)"
    using band_exact [OF acc, of 10 3 33] by simp
  have e4: "\<not> rnd (4 / 10) < rnd (33 / 100)" "rnd (4 / 10) < rnd (66 / 100)"
    using band_exact [OF acc, of 10 4 33] band_exact [OF acc, of 10 4 66] by simp_all
  have e6: "\<not> rnd (6 / 10) < rnd (33 / 100)" "rnd (6 / 10) < rnd (66 / 100)"
    using band_exact [OF acc, of 10 6 33] band_exact [OF acc, of 10 6 66] by simp_all
  have g: "getDifficultyLevel rnd index tot =
      (if 100 * index < 33 * tot then ''beginner''
       else if 100 * index < 66 * tot then ''intermediate'' else ''advanced'')"
    using t0 b1 b2 by (simp add: getDifficultyLevel_def Let_def)
  have c1: "getDifficultyLevel rnd index tot = ''beginner'' \<longleftrightarrow> (of_nat index / of_nat tot :: rat) < 33 / 100"
    unfolding g r1 by simp
  have c2: "getDifficultyLevel rnd index tot = ''intermediate''
            \<longleftrightarrow> 33 / 100 \<le> (of_nat index / of_nat tot :: rat) \<and> (of_nat index / of_nat tot :: rat) < 66 / 100"
    unfolding g r2 not_less [symmetric] r1 by auto
  have c3: "getDifficultyLevel rnd index tot = ''advanced'' \<longleftrightarrow> 66 / 100 \<le> (of_nat index / of_nat tot :: rat)"
    unfolding g not_less [symmetric] r2 by auto
  have c4: "getTrainstationLevel rnd index tot = getDifficultyLevel rnd index tot"
    by (simp add: getTrainstationLevel_def getDifficultyLevel_def)
  have c5: "getDifficultyLevel rnd 3 10 = ''beginner''"
    using e3 by (simp add: getDifficultyLevel_def)
  have c6: "getDifficultyLevel rnd 4 10 = ''intermediate''"
    using e4 by (simp add: getDifficultyLevel_def)
  have c7: "getDifficultyLevel rnd 6 10 = ''intermediate''"
    using e6 by (simp add: getDifficultyLevel_def)
  have c8: "\<forall>sk i. i < length (skill_videos sk) \<longrightarrow>
              video_cards rnd sk ! i
                = (skill_videos sk ! i, getDifficultyLevel rnd i (length (skill_videos sk)))"
    by (intro allI impI video_cards_nth)
  have c9: "\<forall>rs stamp c g. exportToTrainstation rs rnd stamp (Some c) = Some g \<longrightarrow>
              map (\<lambda>e. map_of (attributes e) ''level'') (of_type ''video'' g)
                = map (\<lambda>card. Some (snd card)) (concat (displayCourse rnd c))"
    by (intro allI impI export_levels)
  show ?thesis
    apply (intro conjI)
            apply (rule c1)
           apply (rule c2)
          apply (rule c3)
         apply (rule c4)
        apply (rule c5)
       apply (rule c6)
      apply (rule c7)
     apply (rule c8)
    apply (rule c9)
    done
qed


theorem difficulty_bands_witness:
  "accurate exact \<and> (3::nat) < 10 \<and> (10::nat) < 2 ^ 32
   \<and> getDifficultyLevel exact 3 10 = ''beginner''
   \<and> getTrainstationLevel exact 3 10 = ''beginner''
   \<and> exportToTrainstation counting exact ''now'' (Some example_course_ab)
        = Some (the (exportToTrainstation counting exact ''now'' (Some example_course_ab)))
   \<and> map (\<lambda>e. map_of (attributes e) ''level'')
        (of_type ''video''
           (the (exportToTrainstation counting exact ''now'' (Some example_course_ab))))
       = [Some ''beginner'', Some ''intermediate'', Some ''advanced'']
   \<and> map snd (concat (displayCourse exact example_course_ab))
       = [''beginner'', ''intermediate'', ''advanced'']"
proof -
  have a: "accurate exact" by (simp add: accurate_def exact_def)
  have b: "(3::nat) < 10" by simp
  have c: "(10::nat) < 2 ^ 32" by simp
  let ?g = "the (exportToTrainstation counting exact ''now'' (Some example_course_ab))"
  have e: "exportToTrainstation counting exact ''now'' (Some example_course_ab) = Some ?g"
    by (simp add: exportToTrainstation_def case_prod_beta Let_def)
  have d: "map snd (concat (displayCourse exact example_course_ab))
             = [''beginner'', ''intermediate'', ''advanced'']"
    by code_simp
  note main = difficulty_bands [OF a b c]
  from main e have "map (\<lambda>e. map_of (attributes e) ''level'') (of_type ''video'' ?g)
      = map (\<lambda>card. Some (snd card)) (concat (displayCourse exact example_course_ab))"
    by blast
  also have "\<dots> = map Some (map snd (concat (displayCourse exact example_course_ab)))"
    by (simp add: comp_def)
  finally have l: "map (\<lambda>e. map_of (attributes e) ''level'') (of_type ''video'' ?g)
      = [Some ''beginner'', Some ''intermediate'', Some ''advanced'']"
    by (simp only: d) simp
  from main have m: "getDifficultyLevel exact 3 10 = ''beginner''"
    "getTrainstationLevel exact 3 10 = ''beginner''" by simp_all
  from a b c m e l d show ?thesis by simp
qed
section \<open>Properties: the course store\<close>

lemma property_Some_truthy: "property c k = Some v \<Longrightarrow> truthy c"
  by (cases c) simp_all

lemma post_courses_has_topic:
  assumes "has_topic c t"
  shows "post_courses True pg now (Some c) db =
     (if \<not> carried_out pg now (Select_id t) then
        (Failed 500 \<lparr>error_message = ''Failed to save course'', raw = None\<rparr>, db)
      else if t \<in> row_topic ` set (rows db) then
        (if \<not> carried_out pg now (Update_data c t) then
           (Failed 500 \<lparr>error_message = ''Failed to save course'', raw = None\<rparr>, db)
         else
           (Sent \<lparr>success = True,
                  saved_id = Some (row_id (hd (filter (\<lambda>r. row_topic r = t) (rows db)))),
                  useLocalStorage = False\<rparr>,
            db\<lparr>rows := map (\<lambda>r. if row_topic r = t
                                 then r\<lparr>row_data := jsonb pg c, updated_at := now\<rparr>
                                 else r) (rows db)\<rparr>))
      else if \<not> carried_out pg now (Insert_row t c) then
        (Failed 500 \<lparr>error_message = ''Failed to save course'', raw = None\<rparr>, db)
      else
        (Sent \<lparr>success = True, saved_id = Some (next_id db), useLocalStorage = False\<rparr>,
         \<lparr>rows = rows db @ [\<lparr>row_id = next_id db, row_topic = t, row_data = jsonb pg c,
                              created_at = now, updated_at = now\<rparr>],
          next_id = next_id db + 1\<rparr>))"
proof -
  from assms have p: "property c ''topic'' = Some (JString t)" and t: "t \<noteq> []"
    and l: "length t \<le> 255" by (simp_all add: has_topic_def)
  from p have tc: "truthy c" by (rule property_Some_truthy)
  have f: "filter (\<lambda>r. row_topic r = t) (rows db) = [] \<longleftrightarrow> t \<notin> row_topic ` set (rows db)"
    by (auto simp: filter_empty_conv)
  show ?thesis
    by (simp add: post_courses_def truthy_prop_def p t tc l sql_text_def varchar255_def
                  Let_def f)
qed

lemma save_has_topic:
  assumes "storable pg now c t"
  shows "save pg now c db =
     (if t \<in> row_topic ` set (rows db)
      then db\<lparr>rows := map (\<lambda>r. if row_topic r = t
                                 then r\<lparr>row_data := jsonb pg c, updated_at := now\<rparr>
                                 else r) (rows db)\<rparr>
      else \<lparr>rows = rows db @ [\<lparr>row_id = next_id db, row_topic = t, row_data = jsonb pg c,
                                 created_at = now, updated_at = now\<rparr>],
            next_id = next_id db + 1\<rparr>)"
  using assms post_courses_has_topic [of c t pg now db] by (simp add: save_def storable_def)

lemma save_fails_or_stores:
  assumes "has_topic c t"
  shows "save pg now c db = db
       \<or> save pg now c db =
           (if t \<in> row_topic ` set (rows db)
            then db\<lparr>rows := map (\<lambda>r. if row_topic r = t
                                       then r\<lparr>row_data := jsonb pg c, updated_at := now\<rparr>
                                       else r) (rows db)\<rparr>
            else \<lparr>rows = rows db @ [\<lparr>row_id = next_id db, row_topic = t,
                                       row_data = jsonb pg c, created_at = now,
                                       updated_at = now\<rparr>],
                  next_id = next_id db + 1\<rparr>)"
  by (simp add: save_def post_courses_has_topic [OF assms])

lemma failed_save_stores_nothing:
  "fst (post_courses available pg now course db) = Failed code b
     \<Longrightarrow> snd (post_courses available pg now course db) = db"
  by (auto simp: post_courses_def Let_def split: if_splits option.splits)

lemma save_keeps_topics_known:
  assumes "storable pg now c t" and "t \<in> row_topic ` set (rows db)"
  shows "map row_topic (rows (save pg now c db)) = map row_topic (rows db)"
    and "map row_id (rows (save pg now c db)) = map row_id (rows db)"
    and "map created_at (rows (save pg now c db)) = map created_at (rows db)"
  using assms(2) by (simp_all add: save_has_topic [OF assms(1)] comp_def)

lemma save_one_row_per_topic:
  assumes "has_topic c t" and "one_row_per_topic db"
  shows "one_row_per_topic (save pg now c db)"
proof -
  let ?stored = "if t \<in> row_topic ` set (rows db)
            then db\<lparr>rows := map (\<lambda>r. if row_topic r = t
                                       then r\<lparr>row_data := jsonb pg c, updated_at := now\<rparr>
                                       else r) (rows db)\<rparr>
            else \<lparr>rows = rows db @ [\<lparr>row_id = next_id db, row_topic = t,
                                       row_data = jsonb pg c, created_at = now,
                                       updated_at = now\<rparr>],
                  next_id = next_id db + 1\<rparr>"
  have m: "map row_topic (map (\<lambda>r. if row_topic r = t
                                 then r\<lparr>row_data := jsonb pg c, updated_at := now\<rparr>
                                 else r) (rows db)) = map row_topic (rows db)"
    by (simp add: comp_def)
  have "one_row_per_topic ?stored"
    using assms(2) by (simp add: one_row_per_topic_def m del: map_map)
  with save_fails_or_stores [OF assms(1), of pg now db] assms(2) show ?thesis
    by (elim disjE) simp_all
qed

lemma saves_one_row_per_topic:
  "\<forall>c \<in> set cs. \<exists>t. has_topic c t \<Longrightarrow> one_row_per_topic db
     \<Longrightarrow> one_row_per_topic (saves pg now cs db)"
proof (induction cs arbitrary: now db)
  case Nil
  then show ?case by simp
next
  case (Cons c cs)
  from Cons.prems obtain t where "has_topic c t" by auto
  with Cons.prems have "one_row_per_topic (save pg now c db)"
    by (intro save_one_row_per_topic)
  with Cons show ?case by simp
qed

lemma reply_has_topic:
  assumes "storable pg now c t"
  shows "fst (post_courses True pg now (Some c) db) =
     Sent \<lparr>success = True,
           saved_id = Some (if t \<in> row_topic ` set (rows db)
                            then row_id (hd (filter (\<lambda>r. row_topic r = t) (rows db)))
                            else next_id db),
           useLocalStorage = False\<rparr>"
  using assms post_courses_has_topic [of c t pg now db] by (simp add: storable_def)

lemma length_listing: "length (listing db) = length (rows db)"
  by (simp add: listing_def)

lemma get_courses_listing:
  "get_courses True pg now db =
     (if carried_out pg now Select_all then Sent (listing db, False)
      else Failed 500 \<lparr>error_message = ''Failed to get courses'', raw = None\<rparr>)"
  by (simp add: get_courses_def)

lemma save_known_rows:
  assumes "storable pg now c t" and "t \<in> row_topic ` set (rows db)" and "i < length (rows db)"
  shows "rows (save pg now c db) ! i =
           (if row_topic (rows db ! i) = t
            then (rows db ! i)\<lparr>row_data := jsonb pg c, updated_at := now\<rparr> else rows db ! i)"
  using assms(2,3) by (simp add: save_has_topic [OF assms(1)])

lemma save_topic_rows:
  assumes "storable pg now c t"
  shows "(\<exists>r \<in> set (rows (save pg now c db)). row_topic r = t)
       \<and> (\<forall>r \<in> set (rows (save pg now c db)).
            row_topic r = t \<longrightarrow> row_data r = jsonb pg c \<and> updated_at r = now)"
proof (cases "t \<in> row_topic ` set (rows db)")
  case True
  let ?f = "\<lambda>r. if row_topic r = t then r\<lparr>row_data := jsonb pg c, updated_at := now\<rparr> else r"
  have rs: "rows (save pg now c db) = map ?f (rows db)"
    using True by (simp add: save_has_topic [OF assms])
  from True obtain r where r: "r \<in> set (rows db)" "row_topic r = t" by auto
  have "r\<lparr>row_data := jsonb pg c, updated_at := now\<rparr> \<in> ?f ` set (rows db)"
    by (rule image_eqI [where x = r]) (use r in simp_all)
  then have "r\<lparr>row_data := jsonb pg c, updated_at := now\<rparr> \<in> set (map ?f (rows db))"
    by (simp only: set_map)
  moreover have "row_topic (r\<lparr>row_data := jsonb pg c, updated_at := now\<rparr>) = t"
    using r by simp
  ultimately have 1: "\<exists>r \<in> set (rows (save pg now c db)). row_topic r = t"
    unfolding rs by blast
  have 2: "\<forall>r \<in> set (rows (save pg now c db)).
            row_topic r = t \<longrightarrow> row_data r = jsonb pg c \<and> updated_at r = now"
  proof (intro ballI impI)
    fix r' assume "r' \<in> set (rows (save pg now c db))" and t': "row_topic r' = t"
    then have "r' \<in> ?f ` set (rows db)" unfolding rs by (simp only: set_map)
    then obtain r0 where r0: "r' = ?f r0" by (rule imageE)
    show "row_data r' = jsonb pg c \<and> updated_at r' = now"
    proof (cases "row_topic r0 = t")
      case True
      with r0 show ?thesis by simp
    next
      case False
      with r0 t' show ?thesis by simp
    qed
  qed
  show ?thesis
    apply (rule conjI)
     apply (rule 1)
    apply (rule 2)
    done
next
  case False
  then show ?thesis by (auto simp: save_has_topic [OF assms])
qed

lemma save_length_known:
  assumes "storable pg now c t" and "t \<in> row_topic ` set (rows db)"
  shows "length (rows (save pg now c db)) = length (rows db)"
  using assms(2) by (simp add: save_has_topic [OF assms(1)])

lemma save_has_row:
  assumes "storable pg now c t"
  shows "t \<in> row_topic ` set (rows (save pg now c db))"
  using save_topic_rows [OF assms, of db] by auto

text \<open>
  Claim C5, as amended. With the database available, for a course whose topic is a
  non-empty string of at most 255 characters, at a time when the server carries out the
  statements of the save (it refuses them, for one, when the topic or the course holds the
  character U+0000), saved into a store that has no topic twice: when a row with that
  topic exists, the save keeps the number of rows, their identifiers, topics and creation
  stamps, gives that row the new payload and the current time as update stamp, leaves all
  other rows as they are and answers with that row's identifier; when no such row exists,
  the save appends one new row with a fresh identifier. A save that is answered with an
  error stores nothing. The store still has no topic twice after one save and after any
  sequence of saves of courses with such topics, whether their statements are carried out or
  not; and a second save for the same topic leaves the length of the listing unchanged, the
  row of that topic holding the second payload. The listing endpoint sends the listing when
  its statement is carried out.
\<close>

theorem upsert_by_topic:
  assumes c: "storable pg now c t" and inv: "one_row_per_topic db"
  shows "(t \<in> row_topic ` set (rows db) \<longrightarrow>
            length (rows (save pg now c db)) = length (rows db)
          \<and> map row_id (rows (save pg now c db)) = map row_id (rows db)
          \<and> map row_topic (rows (save pg now c db)) = map row_topic (rows db)
          \<and> map created_at (rows (save pg now c db)) = map created_at (rows db)
          \<and> (\<forall>i<length (rows db).
                 rows (save pg now c db) ! i =
                   (if row_topic (rows db ! i) = t
                    then (rows db ! i)\<lparr>row_data := jsonb pg c, updated_at := now\<rparr>
                    else rows db ! i))
          \<and> fst (post_courses True pg now (Some c) db)
              = Sent \<lparr>success = True,
                      saved_id = Some (row_id (hd (filter (\<lambda>r. row_topic r = t) (rows db)))),
                      useLocalStorage = False\<rparr>)
       \<and> (t \<notin> row_topic ` set (rows db) \<longrightarrow>
            rows (save pg now c db)
              = rows db @ [\<lparr>row_id = next_id db, row_topic = t, row_data = jsonb pg c,
                             created_at = now, updated_at = now\<rparr>]
          \<and> fst (post_courses True pg now (Some c) db)
              = Sent \<lparr>success = True, saved_id = Some (next_id db), useLocalStorage = False\<rparr>)
       \<and> one_row_per_topic (save pg now c db)
       \<and> (\<forall>cs n pg'. (\<forall>c' \<in> set cs. \<exists>t'. has_topic c' t')
              \<longrightarrow> one_row_per_topic (saves pg' n cs db))
       \<and> (\<forall>c' now'. storable pg now' c' t \<longrightarrow>
              length (listing (save pg now' c' (save pg now c db)))
                = length (listing (save pg now c db))
            \<and> (\<exists>r \<in> set (rows (save pg now' c' (save pg now c db))). row_topic r = t)
            \<and> (\<forall>r \<in> set (rows (save pg now' c' (save pg now c db))).
                  row_topic r = t \<longrightarrow> row_data r = jsonb pg c' \<and> updated_at r = now'))
       \<and> (\<forall>pg' n course code b.
              fst (post_courses True pg' n course db) = Failed code b
              \<longrightarrow> snd (post_courses True pg' n course db) = db)
       \<and> (\<forall>pg' n db'. carried_out pg' n Select_all
              \<longrightarrow> get_courses True pg' n db' = Sent (listing db', False))"
proof -
  from c have h: "has_topic c t" by (simp add: storable_def)
  have 1: "t \<in> row_topic ` set (rows db) \<longrightarrow>
            length (rows (save pg now c db)) = length (rows db)
          \<and> map row_id (rows (save pg now c db)) = map row_id (rows db)
          \<and> map row_topic (rows (save pg now c db)) = map row_topic (rows db)
          \<and> map created_at (rows (save pg now c db)) = map created_at (rows db)
          \<and> (\<forall>i<length (rows db).
                 rows (save pg now c db) ! i =
                   (if row_topic (rows db ! i) = t
                    then (rows db ! i)\<lparr>row_data := jsonb pg c, updated_at := now\<rparr>
                    else rows db ! i))
          \<and> fst (post_courses True pg now (Some c) db)
              = Sent \<lparr>success = True,
                      saved_id = Some (row_id (hd (filter (\<lambda>r. row_topic r = t) (rows db)))),
                      useLocalStorage = False\<rparr>"
  proof
    assume k: "t \<in> row_topic ` set (rows db)"
    show "length (rows (save pg now c db)) = length (rows db)
          \<and> map row_id (rows (save pg now c db)) = map row_id (rows db)
          \<and> map row_topic (rows (save pg now c db)) = map row_topic (rows db)
          \<and> map created_at (rows (save pg now c db)) = map created_at (rows db)
          \<and> (\<forall>i<length (rows db).
                 rows (save pg now c db) ! i =
                   (if row_topic (rows db ! i) = t
                    then (rows db ! i)\<lparr>row_data := jsonb pg c, updated_at := now\<rparr>
                    else rows db ! i))
          \<and> fst (post_courses True pg now (Some c) db)
              = Sent \<lparr>success = True,
                      saved_id = Some (row_id (hd (filter (\<lambda>r. row_topic r = t) (rows db)))),
                      useLocalStorage = False\<rparr>"
      apply (intro conjI allI impI)
           apply (rule save_length_known [OF c k])
          apply (rule save_keeps_topics_known(2) [OF c k])
         apply (rule save_keeps_topics_known(1) [OF c k])
        apply (rule save_keeps_topics_known(3) [OF c k])
       apply (erule save_known_rows [OF c k])
      apply (simp add: reply_has_topic [OF c] k)
      done
  qed
  have 2: "t \<notin> row_topic ` set (rows db) \<longrightarrow>
            rows (save pg now c db)
              = rows db @ [\<lparr>row_id = next_id db, row_topic = t, row_data = jsonb pg c,
                             created_at = now, updated_at = now\<rparr>]
          \<and> fst (post_courses True pg now (Some c) db)
              = Sent \<lparr>success = True, saved_id = Some (next_id db), useLocalStorage = False\<rparr>"
    by (simp add: save_has_topic [OF c] reply_has_topic [OF c])
  have 3: "one_row_per_topic (save pg now c db)"
    using h inv by (rule save_one_row_per_topic)
  have 4: "\<forall>cs n pg'. (\<forall>c' \<in> set cs. \<exists>t'. has_topic c' t')
              \<longrightarrow> one_row_per_topic (saves pg' n cs db)"
    using inv by (intro allI impI saves_one_row_per_topic)
  have 5: "\<forall>c' now'. storable pg now' c' t \<longrightarrow>
              length (listing (save pg now' c' (save pg now c db)))
                = length (listing (save pg now c db))
            \<and> (\<exists>r \<in> set (rows (save pg now' c' (save pg now c db))). row_topic r = t)
            \<and> (\<forall>r \<in> set (rows (save pg now' c' (save pg now c db))).
                  row_topic r = t \<longrightarrow> row_data r = jsonb pg c' \<and> updated_at r = now')"
  proof (intro allI impI)
    fix c' now' assume c': "storable pg now' c' t"
    let ?db1 = "save pg now c db"
    have k: "t \<in> row_topic ` set (rows ?db1)" using c by (rule save_has_row)
    have a: "length (listing (save pg now' c' ?db1)) = length (listing ?db1)"
      by (simp add: length_listing save_length_known [OF c' k])
    note b = save_topic_rows [OF c', of ?db1]
    from a b show "length (listing (save pg now' c' ?db1)) = length (listing ?db1)
            \<and> (\<exists>r \<in> set (rows (save pg now' c' ?db1)). row_topic r = t)
            \<and> (\<forall>r \<in> set (rows (save pg now' c' ?db1)).
                  row_topic r = t \<longrightarrow> row_data r = jsonb pg c' \<and> updated_at r = now')"
      by (intro conjI) simp_all
  qed
  have 6: "\<forall>pg' n course code b.
              fst (post_courses True pg' n course db) = Failed code b
              \<longrightarrow> snd (post_courses True pg' n course db) = db"
    by (intro allI impI failed_save_stores_nothing)
  have 7: "\<forall>pg' n db'. carried_out pg' n Select_all
              \<longrightarrow> get_courses True pg' n db' = Sent (listing db', False)"
    by (simp add: get_courses_listing)
  show ?thesis
    apply (intro conjI)
          apply (rule 1)
         apply (rule 2)
        apply (rule 3)
       apply (rule 4)
      apply (rule 5)
     apply (rule 6)
    apply (rule 7)
    done
qed

theorem upsert_by_topic_witness:
  "storable example_server 5 course_x ''X'' \<and> storable example_server 9 course_x2 ''X''
   \<and> one_row_per_topic empty_database
   \<and> rows (save example_server 5 course_x empty_database)
       = [\<lparr>row_id = 1, row_topic = ''X'', row_data = course_x, created_at = 5, updated_at = 5\<rparr>]
   \<and> rows (save example_server 9 course_x2 (save example_server 5 course_x empty_database))
       = [\<lparr>row_id = 1, row_topic = ''X'', row_data = course_x2, created_at = 5,
           updated_at = 9\<rparr>]
   \<and> get_courses True example_server 10
         (save example_server 9 course_x2 (save example_server 5 course_x empty_database))
       = Sent ([JObject [(''id'', JNumber 1), (''topic'', JString ''X''),
                         (''skills'', JArray [JString ''s'']), (''savedAt'', JNumber 9)]],
               False)"
proof -
  have h1: "storable example_server 5 course_x ''X''"
    by (simp add: storable_def has_topic_def carried_out_def course_x_def example_server_def)
  have h2: "storable example_server 9 course_x2 ''X''"
    by (simp add: storable_def has_topic_def carried_out_def course_x2_def example_server_def)
  have e: "one_row_per_topic empty_database"
    by (simp add: one_row_per_topic_def empty_database_def)
  have j: "jsonb example_server = (\<lambda>c. c)" by (simp add: example_server_def)
  have a: "carried_out example_server 10 Select_all"
    by (simp add: carried_out_def example_server_def)
  let ?db1 = "save example_server 5 course_x empty_database"
  let ?db2 = "save example_server 9 course_x2 ?db1"
  have fresh: "''X'' \<notin> row_topic ` set (rows empty_database)"
    by (simp add: empty_database_def)
  from upsert_by_topic [OF h1 e] fresh
  have r1: "rows ?db1 = [\<lparr>row_id = 1, row_topic = ''X'', row_data = course_x, created_at = 5,
                         updated_at = 5\<rparr>]"
    and i1: "one_row_per_topic ?db1"
    by (simp_all add: empty_database_def j)
  have known: "''X'' \<in> row_topic ` set (rows ?db1)" using r1 by simp
  note second = upsert_by_topic [OF h2 i1]
  from second known
  have "\<forall>i<length (rows ?db1). rows ?db2 ! i =
          (if row_topic (rows ?db1 ! i) = ''X''
           then (rows ?db1 ! i)\<lparr>row_data := jsonb example_server course_x2, updated_at := 9\<rparr>
           else rows ?db1 ! i)"
    and "length (rows ?db2) = length (rows ?db1)"
    by simp_all
  then have r2: "rows ?db2
       = [\<lparr>row_id = 1, row_topic = ''X'', row_data = course_x2, created_at = 5,
           updated_at = 9\<rparr>]"
    using r1 by (simp add: list_eq_iff_nth_eq j)
  from second a have "get_courses True example_server 10 ?db2 = Sent (listing ?db2, False)"
    by blast
  moreover have "listing ?db2
       = [JObject [(''id'', JNumber 1), (''topic'', JString ''X''),
                   (''skills'', JArray [JString ''s'']), (''savedAt'', JNumber 9)]]"
    unfolding listing_def r2 by (simp add: row_course_def course_x2_def)
  ultimately have g: "get_courses True example_server 10 ?db2
       = Sent ([JObject [(''id'', JNumber 1), (''topic'', JString ''X''),
                         (''skills'', JArray [JString ''s'']), (''savedAt'', JNumber 9)]],
               False)"
    by (simp only:)
  from h1 h2 e r1 r2 g show ?thesis by simp
qed

text \<open>
  The listing after saves on the topics X, Y and X again: one entry for each topic, the
  one saved last first.
\<close>

lemma listing_example:
  "listing (save example_server 9 course_x2
             (save example_server 7 course_y (save example_server 5 course_x empty_database)))
     = [JObject [(''id'', JNumber 1), (''topic'', JString ''X''),
                 (''skills'', JArray [JString ''s'']), (''savedAt'', JNumber 9)],
        JObject [(''id'', JNumber 2), (''topic'', JString ''Y''), (''skills'', JArray []),
                 (''savedAt'', JNumber 7)]]"
  by code_simp

text \<open>
  The claim as stated has every fresh topic inserted. A topic of 256 characters does not
  fit the column: the insert fails, the answer is status 500 and the store stays empty. So
  does the save of a course one of whose skills holds the character U+0000.
\<close>

theorem upsert_by_topic_counterexample:
  "post_courses True example_server 1 (Some long_course) empty_database
     = (Failed 500 \<lparr>error_message = ''Failed to save course'', raw = None\<rparr>, empty_database)
   \<and> post_courses True example_server 1 (Some nul_course) empty_database
     = (Failed 500 \<lparr>error_message = ''Failed to save course'', raw = None\<rparr>, empty_database)"
  by (simp add: post_courses_def long_course_def nul_course_def empty_database_def
                truthy_prop_def sql_text_def varchar255_def carried_out_def example_server_def
                Let_def)
section \<open>Properties: validation of course data from outside\<close>

lemma isArray_truthy: "isArray p \<Longrightarrow> truthy_prop p"
  by (cases p rule: isArray.cases) (simp_all add: truthy_prop_def)

lemma property_Some_not_null: "property c k = Some v \<Longrightarrow> c \<noteq> JNull"
  by (cases c) simp_all

lemma handleImport_accepts_iff:
  "(\<exists>c'. handleImport json_parse fileText now = Inr c')
     \<longleftrightarrow> (\<exists>course. json_parse fileText = Some course
            \<and> truthy_prop (property course ''topic'') \<and> isArray (property course ''skills''))"
proof (cases "json_parse fileText")
  case None
  then show ?thesis by (simp add: handleImport_def)
next
  case (Some course)
  show ?thesis
  proof (cases "course = JNull")
    case True
    with Some show ?thesis by (simp add: handleImport_def truthy_prop_def)
  next
    case False
    with Some show ?thesis
      by (auto simp: handleImport_def dest: isArray_truthy)
  qed
qed

lemma post_courses_rejects_falsy_topic:
  "\<not> truthy_prop (property course ''topic'') \<Longrightarrow>
     post_courses True pg now (Some course) db
       = (Failed 400 \<lparr>error_message = ''Course data required'', raw = None\<rparr>, db)"
  by (simp add: post_courses_def)

lemma post_courses_truthy_topic:
  assumes "property course ''topic'' = Some t" and "truthy t"
  shows "fst (post_courses True pg now (Some course) db)
           \<noteq> Failed 400 \<lparr>error_message = ''Course data required'', raw = None\<rparr>"
proof -
  from assms(1) have "truthy course" by (cases course) simp_all
  with assms show ?thesis
    by (simp add: post_courses_def truthy_prop_def Let_def split: option.splits)
qed

lemma save_does_not_check_skills:
  "storable pg now (JObject [(''topic'', JString ''X'')]) ''X'' \<Longrightarrow>
     \<exists>b. fst (post_courses True pg now (Some (JObject [(''topic'', JString ''X'')])) db) = Sent b"
  by (simp add: reply_has_topic)

text \<open>
  Claim C6, as amended. The client-side import accepts a file exactly when it parses to a
  value whose topic is truthy (not missing, and not null, false, 0 or the empty string)
  and whose skills is a sequence. A course with the empty topic and a course without topic
  are rejected by the import and, when the database is available, by the server-side save;
  a course with topic X and a skills sequence is accepted by the import and passes the
  check of the save: it is not answered as invalid course data, and it is saved when the
  server carries out the statements of the save. The save rejects every course whose topic
  is missing or falsy.
\<close>

theorem import_validation:
  "((\<exists>c'. handleImport json_parse fileText stamp = Inr c')
      \<longleftrightarrow> (\<exists>course. json_parse fileText = Some course
             \<and> truthy_prop (property course ''topic'') \<and> isArray (property course ''skills'')))
   \<and> (json_parse fileText = Some (JObject [(''topic'', JString []), (''skills'', JArray [])])
        \<longrightarrow> handleImport json_parse fileText stamp = Inl Invalid_structure)
   \<and> (json_parse fileText = Some (JObject [(''skills'', JArray [])])
        \<longrightarrow> handleImport json_parse fileText stamp = Inl Invalid_structure)
   \<and> (json_parse fileText = Some (JObject [(''topic'', JString ''X''), (''skills'', JArray xs)])
        \<longrightarrow> handleImport json_parse fileText stamp
              = Inr (JObject [(''topic'', JString ''X''), (''skills'', JArray xs),
                              (''savedAt'', JString stamp)]))
   \<and> post_courses True pg now
         (Some (JObject [(''topic'', JString []), (''skills'', JArray [])])) db
       = (Failed 400 \<lparr>error_message = ''Course data required'', raw = None\<rparr>, db)
   \<and> post_courses True pg now (Some (JObject [(''skills'', JArray [])])) db
       = (Failed 400 \<lparr>error_message = ''Course data required'', raw = None\<rparr>, db)
   \<and> fst (post_courses True pg now
            (Some (JObject [(''topic'', JString ''X''), (''skills'', JArray xs)])) db)
       \<noteq> Failed 400 \<lparr>error_message = ''Course data required'', raw = None\<rparr>
   \<and> (storable pg now (JObject [(''topic'', JString ''X''), (''skills'', JArray xs)]) ''X''
        \<longrightarrow> (\<exists>b. fst (post_courses True pg now
                      (Some (JObject [(''topic'', JString ''X''), (''skills'', JArray xs)])) db)
                  = Sent b))
   \<and> (\<forall>course. \<not> truthy_prop (property course ''topic'') \<longrightarrow>
          post_courses True pg now (Some course) db
            = (Failed 400 \<lparr>error_message = ''Course data required'', raw = None\<rparr>, db))"
proof -
  have 1: "(\<exists>c'. handleImport json_parse fileText stamp = Inr c')
      \<longleftrightarrow> (\<exists>course. json_parse fileText = Some course
             \<and> truthy_prop (property course ''topic'') \<and> isArray (property course ''skills''))"
    by (rule handleImport_accepts_iff)
  have 2: "json_parse fileText = Some (JObject [(''topic'', JString []), (''skills'', JArray [])])
        \<longrightarrow> handleImport json_parse fileText stamp = Inl Invalid_structure"
    by (simp add: handleImport_def truthy_prop_def)
  have 3: "json_parse fileText = Some (JObject [(''skills'', JArray [])])
        \<longrightarrow> handleImport json_parse fileText stamp = Inl Invalid_structure"
    by (simp add: handleImport_def truthy_prop_def)
  have 4: "json_parse fileText = Some (JObject [(''topic'', JString ''X''), (''skills'', JArray xs)])
        \<longrightarrow> handleImport json_parse fileText stamp
              = Inr (JObject [(''topic'', JString ''X''), (''skills'', JArray xs),
                              (''savedAt'', JString stamp)])"
    by (simp add: handleImport_def truthy_prop_def)
  have 5: "post_courses True pg now
         (Some (JObject [(''topic'', JString []), (''skills'', JArray [])])) db
       = (Failed 400 \<lparr>error_message = ''Course data required'', raw = None\<rparr>, db)"
    by (rule post_courses_rejects_falsy_topic) (simp add: truthy_prop_def)
  have 6: "post_courses True pg now (Some (JObject [(''skills'', JArray [])])) db
       = (Failed 400 \<lparr>error_message = ''Course data required'', raw = None\<rparr>, db)"
    by (rule post_courses_rejects_falsy_topic) (simp add: truthy_prop_def)
  have 7: "fst (post_courses True pg now
            (Some (JObject [(''topic'', JString ''X''), (''skills'', JArray xs)])) db)
       \<noteq> Failed 400 \<lparr>error_message = ''Course data required'', raw = None\<rparr>"
    by (rule post_courses_truthy_topic [where t = "JString ''X''"]) simp_all
  have s7: "storable pg now (JObject [(''topic'', JString ''X''), (''skills'', JArray xs)]) ''X''
        \<longrightarrow> (\<exists>b. fst (post_courses True pg now
                      (Some (JObject [(''topic'', JString ''X''), (''skills'', JArray xs)])) db)
                  = Sent b)"
    by (simp add: reply_has_topic)
  have 8: "\<forall>course. \<not> truthy_prop (property course ''topic'') \<longrightarrow>
          post_courses True pg now (Some course) db
            = (Failed 400 \<lparr>error_message = ''Course data required'', raw = None\<rparr>, db)"
    by (intro allI impI post_courses_rejects_falsy_topic)
  show ?thesis
    apply (intro conjI)
            apply (rule 1)
           apply (rule 2)
          apply (rule 3)
         apply (rule 4)
        apply (rule 5)
       apply (rule 6)
      apply (rule 7)
     apply (rule s7)
    apply (rule 8)
    done
qed

theorem import_validation_witness:
  "handleImport (\<lambda>s. Some course_x) ''file'' ''now''
     = Inr (JObject [(''topic'', JString ''X''), (''skills'', JArray []),
                     (''savedAt'', JString ''now'')])
   \<and> handleImport (\<lambda>s. Some (JObject [(''skills'', JArray [])])) ''file'' ''now''
     = Inl Invalid_structure
   \<and> post_courses True example_server 5 (Some (JObject [(''skills'', JArray [])]))
        empty_database
     = (Failed 400 \<lparr>error_message = ''Course data required'', raw = None\<rparr>, empty_database)
   \<and> storable example_server 5 course_x ''X''
   \<and> fst (post_courses True example_server 5 (Some course_x) empty_database)
     = Sent \<lparr>success = True, saved_id = Some 1, useLocalStorage = False\<rparr>"
proof -
  note a = import_validation [where json_parse = "\<lambda>s. Some course_x" and fileText = "''file''"
      and stamp = "''now''" and xs = "[]" and pg = example_server and now = 5
      and db = empty_database]
  note b = import_validation [where json_parse = "\<lambda>s. Some (JObject [(''skills'', JArray [])])"
      and fileText = "''file''" and stamp = "''now''" and xs = "[]" and pg = example_server
      and now = 5 and db = empty_database]
  from a have 1: "handleImport (\<lambda>s. Some course_x) ''file'' ''now''
     = Inr (JObject [(''topic'', JString ''X''), (''skills'', JArray []),
                     (''savedAt'', JString ''now'')])"
    by (simp add: course_x_def)
  from b have 2: "handleImport (\<lambda>s. Some (JObject [(''skills'', JArray [])])) ''file'' ''now''
     = Inl Invalid_structure"
    by simp
  from a have 3: "post_courses True example_server 5 (Some (JObject [(''skills'', JArray [])]))
        empty_database
     = (Failed 400 \<lparr>error_message = ''Course data required'', raw = None\<rparr>, empty_database)"
    by blast
  have 4: "storable example_server 5 course_x ''X''"
    by (simp add: storable_def has_topic_def carried_out_def course_x_def example_server_def)
  from a 4 have "\<exists>b. fst (post_courses True example_server 5 (Some course_x) empty_database)
                      = Sent b"
    by (simp add: course_x_def)
  then have 5: "fst (post_courses True example_server 5 (Some course_x) empty_database)
     = Sent \<lparr>success = True, saved_id = Some 1, useLocalStorage = False\<rparr>"
    by (simp add: reply_has_topic [OF 4] empty_database_def)
  from 1 2 3 4 5 show ?thesis by simp
qed

text \<open>
  The claim as stated accepts only string topics. A file whose topic is the number 5 is
  accepted by the import.
\<close>

theorem import_validation_counterexample:
  "handleImport parse_numeric_topic ''file'' ''now''
     = Inr (JObject [(''topic'', JNumber 5), (''skills'', JArray []),
                     (''savedAt'', JString ''now'')])"
  by (simp add: handleImport_def parse_numeric_topic_def numeric_topic_course_def
                truthy_prop_def)

end
